(* ===== verification/Ps2_Prelude.thy ===== *)
theory Ps2_Prelude
  imports Main "HOL-Library.Word"
begin

text \<open>
  What every theory of the development shares: the names of the C integer types, the
  collections of simplification rules the component proofs use, and the lemmas on lists,
  words and maps that more than one component needs.

  A C \<^verbatim>\<open>uint32_t\<close> is a \<open>32 word\<close> (arithmetic wraps), an \<^verbatim>\<open>unsigned char\<close> an
  \<open>8 word\<close>; an \<^verbatim>\<open>int\<close> whose overflow plays no role is an \<open>int\<close>, and a \<^verbatim>\<open>size_t\<close>
  that counts live memory is a \<open>nat\<close>. A C string is a \<open>string\<close> without the final zero.
\<close>

unbundle bit_operations_syntax

type_synonym u8 = "8 word"
type_synonym u32 = "32 word"

named_theorems libc_simps \<open>effects of the C library operations on the fields of the world\<close>
named_theorems img_simps \<open>fields of the image provider's state after an operation\<close>
named_theorems drv_simps \<open>unfolding rules for the driver operations\<close>

subsection \<open>Lists\<close>

text \<open>The bytes \<open>[off, off + n)\<close> of a buffer or a file.\<close>

definition bytes_at :: "nat \<Rightarrow> nat \<Rightarrow> 'a list \<Rightarrow> 'a list" where
  "bytes_at off n xs = take n (drop off xs)"

lemma length_bytes_at [simp]: "length (bytes_at off n xs) = min n (length xs - off)"
  by (simp add: bytes_at_def)

lemma bytes_at_full: "off + n \<le> length xs \<Longrightarrow> length (bytes_at off n xs) = n"
  by (simp add: bytes_at_def)

lemma bytes_at_append_left: "off + n \<le> length xs \<Longrightarrow> bytes_at off n (xs @ ys) = bytes_at off n xs"
  by (simp add: bytes_at_def)

lemma bytes_at_append_right: "length xs \<le> off \<Longrightarrow> bytes_at off n (xs @ ys) = bytes_at (off - length xs) n ys"
  by (simp add: bytes_at_def)

lemma bytes_at_middle: "length xs = off \<Longrightarrow> length ys = n \<Longrightarrow> bytes_at off n (xs @ ys @ zs) = ys"
  by (simp add: bytes_at_def)

lemma distinct_map_filter_fst:
  "distinct (map f xs) \<Longrightarrow> distinct (map f (filter P xs))"
  by (induction xs) auto

lemma list_update_append_hd: "(xs @ y # ys)[length xs := z] = xs @ z # ys"
  by simp

lemma nth_replicate_update:
  "i < length xs \<Longrightarrow> (xs[i := v]) ! j = (if i = j then v else xs ! j)"
  by (simp add: nth_list_update)

subsection \<open>Maps\<close>

lemma map_of_map_restrict:
  "distinct (map f xs) \<Longrightarrow> x \<in> set xs \<Longrightarrow> map_of (map (\<lambda>x. (f x, g x)) xs) (f x) = Some (g x)"
  by (induction xs) (auto simp: rev_image_eqI)

lemma map_of_map_None:
  "k \<notin> f ` set xs \<Longrightarrow> map_of (map (\<lambda>x. (f x, g x)) xs) k = None"
  by (induction xs) auto

lemma fun_upd_None_triv: "m k = None \<Longrightarrow> (m(k \<mapsto> v))(k := None) = m"
  by (simp add: fun_upd_idem)

subsection \<open>Words\<close>

lemma bit_u32_high [simp]: "32 \<le> n \<Longrightarrow> \<not> bit (w :: u32) n"
  using bit_imp_le_length [of w n] by auto

lemma bit_u8_high [simp]: "8 \<le> n \<Longrightarrow> \<not> bit (w :: u8) n"
  using bit_imp_le_length [of w n] by auto

lemma u32_nonzero_bit: "(w :: u32) \<noteq> 0 \<longleftrightarrow> (\<exists>n. bit w n)"
  by (metis bit_0_eq bot_apply bot_bool_def bit_eqI)

lemma unat_u32_less [simp]: "unat (w :: u32) < 4294967296"
  using unsigned_less [of w] by simp

lemma unat_u8_less [simp]: "unat (w :: u8) < 256"
  using unsigned_less [of w] by simp

lemma unat_add_u32: "unat (a :: u32) + unat b < 4294967296 \<Longrightarrow> unat (a + b) = unat a + unat b"
  by (simp add: unat_word_ariths)

lemma unat_mult_u32: "unat (a :: u32) * unat b < 4294967296 \<Longrightarrow> unat (a * b) = unat a * unat b"
  by (simp add: unat_word_ariths)

lemma unat_sub_u32: "b \<le> a \<Longrightarrow> unat (a - b :: u32) = unat a - unat b"
  by (simp add: unat_sub)

lemma unat_of_nat_u32: "n < 4294967296 \<Longrightarrow> unat (of_nat n :: u32) = n"
  by (simp add: unat_of_nat)

lemma ff_mask: "(0xff :: u32) = mask 8"
  by (simp add: mask_eq_exp_minus_1)

lemma ucast_and_ff [simp]: "(ucast ((x :: u32) AND 0xff) :: u8) = ucast x"
  by (rule bit_word_eqI) (simp add: ff_mask bit_simps)

lemma xor_u32_cancel:
  fixes a b c :: u32
  shows "a XOR b = a XOR c \<longleftrightarrow> b = c" and "b XOR a = c XOR a \<longleftrightarrow> b = c"
  by (metis xor.assoc xor.left_neutral xor_self_eq, metis xor.assoc xor.right_neutral xor_self_eq)

text \<open>A value masked with the alignment mask is zero exactly when it is a multiple of 16.\<close>

lemma and_15_eq_0: "(x :: u32) AND 15 = 0 \<longleftrightarrow> 16 dvd unat x"
proof -
  have "x AND 15 = take_bit 4 x"
    by (simp add: take_bit_eq_mask mask_numeral)
  moreover have "take_bit 4 x = 0 \<longleftrightarrow> unat (take_bit 4 x) = 0"
    by (simp only: unsigned_eq_0_iff)
  moreover have "unat (take_bit 4 x) = unat x mod 16"
    unfolding unsigned_take_bit_eq by (simp add: take_bit_eq_mod)
  ultimately show ?thesis
    by (simp add: dvd_eq_mod_eq_0)
qed

end
