(* ===== verification/Libc_World.thy ===== *)
theory Libc_World
  imports Ps2_Prelude
begin

text \<open>
  The part of the C library the programs call, as operations on an explicit world:
  \<^item> \<open>files\<close>: the contents of the readable files; \<open>cwd\<close>: what \<^verbatim>\<open>getcwd\<close> answers,
    \<open>None\<close> when it fails;
  \<^item> \<open>faults\<close>: the outcome of every call that may fail for reasons outside the program
    (\<^verbatim>\<open>fopen\<close>, \<^verbatim>\<open>fseek\<close>, \<^verbatim>\<open>ftell\<close>, \<^verbatim>\<open>fread\<close>, \<^verbatim>\<open>malloc\<close>,
    \<^verbatim>\<open>calloc\<close>, \<^verbatim>\<open>memalign\<close>), in call order: \<open>True\<close> is success, and a call
    after the end of the list succeeds. A theorem about all worlds is a theorem about all
    such failures;
  \<^item> \<open>heap\<close>: the live allocations, by address, with their contents; address 0 is
    \<^verbatim>\<open>NULL\<close> and \<open>brk\<close> is the next address. Addresses are never reused, so freeing a
    block twice, or using it after it was freed, is always noticed: it sets \<open>ub\<close>;
  \<^item> \<open>opened\<close>: the number of open streams; \<open>ub\<close>: undefined behaviour has happened.

  The type of the blocks' contents is a parameter; components extend the record with their
  static variables.
\<close>

record 'o world =
  files :: "string \<Rightarrow> u8 list option"
  cwd :: "string option"
  faults :: "bool list"
  heap :: "nat \<Rightarrow> 'o option"
  brk :: nat
  opened :: nat
  ub :: bool

text \<open>A stream open for reading: the file's bytes and the position.\<close>

record cfile =
  f_data :: "u8 list"
  f_pos :: nat

definition next_call :: "('o, 'z) world_scheme \<Rightarrow> bool \<times> ('o, 'z) world_scheme" where
  "next_call s = (case faults s of [] \<Rightarrow> (True, s) | ok # rest \<Rightarrow> (ok, s\<lparr>faults := rest\<rparr>))"

definition getcwd :: "('o, 'z) world_scheme \<Rightarrow> string option" where
  "getcwd s = cwd s"

subsection \<open>Streams\<close>

definition fopen :: "string \<Rightarrow> ('o, 'z) world_scheme \<Rightarrow> cfile option \<times> ('o, 'z) world_scheme" where
  "fopen path s =
     (let (ok, s1) = next_call s in
      case files s1 path of
        None \<Rightarrow> (None, s1)
      | Some bytes \<Rightarrow>
          if ok then (Some \<lparr>f_data = bytes, f_pos = 0\<rparr>, s1\<lparr>opened := Suc (opened s1)\<rparr>)
          else (None, s1))"

definition fclose :: "('o, 'z) world_scheme \<Rightarrow> ('o, 'z) world_scheme" where
  "fclose s = s\<lparr>opened := opened s - 1\<rparr>"

text \<open>\<^verbatim>\<open>fseek(file, 0, SEEK_END)\<close> and \<^verbatim>\<open>fseek(file, off, SEEK_SET)\<close>; true when they return 0.\<close>

definition fseek_end ::
  "cfile \<Rightarrow> ('o, 'z) world_scheme \<Rightarrow> bool \<times> cfile \<times> ('o, 'z) world_scheme" where
  "fseek_end f s =
     (let (ok, s1) = next_call s in (ok, if ok then f\<lparr>f_pos := length (f_data f)\<rparr> else f, s1))"

definition fseek_set ::
  "nat \<Rightarrow> cfile \<Rightarrow> ('o, 'z) world_scheme \<Rightarrow> bool \<times> cfile \<times> ('o, 'z) world_scheme" where
  "fseek_set off f s =
     (let (ok, s1) = next_call s in (ok, if ok then f\<lparr>f_pos := off\<rparr> else f, s1))"

definition ftell :: "cfile \<Rightarrow> ('o, 'z) world_scheme \<Rightarrow> int \<times> ('o, 'z) world_scheme" where
  "ftell f s = (let (ok, s1) = next_call s in (if ok then int (f_pos f) else -1, s1))"

text \<open>
  \<^verbatim>\<open>fread(buf, size, n, file)\<close>: the number of whole items read and the bytes now in the
  buffer. A failing call reads nothing.
\<close>

definition fread ::
  "nat \<Rightarrow> nat \<Rightarrow> cfile \<Rightarrow> ('o, 'z) world_scheme \<Rightarrow>
   (nat \<times> u8 list) \<times> cfile \<times> ('o, 'z) world_scheme" where
  "fread sz n f s =
     (let (ok, s1) = next_call s;
          bytes = bytes_at (f_pos f) (sz * n) (f_data f)
      in if ok then ((length bytes div sz, bytes), f\<lparr>f_pos := f_pos f + length bytes\<rparr>, s1)
         else ((0, []), f, s1))"

text \<open>
  The idiom \<^verbatim>\<open>fseek(file, off, SEEK_SET) != 0 || fread(buf, size, n, file) != n\<close>, which
  the image reader uses for the header, the entry table and each payload: the bytes read, or
  \<open>None\<close> when the condition is true.
\<close>

definition seek_read ::
  "nat \<Rightarrow> nat \<Rightarrow> nat \<Rightarrow> cfile \<Rightarrow> ('o, 'z) world_scheme \<Rightarrow>
   u8 list option \<times> cfile \<times> ('o, 'z) world_scheme" where
  "seek_read off sz n f s =
     (let (ok, f1, s1) = fseek_set off f s in
      if \<not> ok then (None, f1, s1)
      else let ((items, bytes), f2, s2) = fread sz n f1 s1
           in (if items = n then Some bytes else None, f2, s2))"

subsection \<open>Memory\<close>

text \<open>An allocation with its initial contents; the address is \<^verbatim>\<open>NULL\<close> when it fails.\<close>

definition malloc :: "'o \<Rightarrow> ('o, 'z) world_scheme \<Rightarrow> nat \<times> ('o, 'z) world_scheme" where
  "malloc v s =
     (let (ok, s1) = next_call s in
      if ok then (brk s1, s1\<lparr>heap := (heap s1)(brk s1 \<mapsto> v), brk := Suc (brk s1)\<rparr>) else (0, s1))"

definition free :: "nat \<Rightarrow> ('o, 'z) world_scheme \<Rightarrow> ('o, 'z) world_scheme" where
  "free a s =
     (if a = 0 then s
      else if heap s a = None then s\<lparr>ub := True\<rparr>
      else s\<lparr>heap := (heap s)(a := None)\<rparr>)"

definition store :: "nat \<Rightarrow> 'o \<Rightarrow> ('o, 'z) world_scheme \<Rightarrow> ('o, 'z) world_scheme" where
  "store a v s =
     (if heap s a = None then s\<lparr>ub := True\<rparr> else s\<lparr>heap := (heap s)(a \<mapsto> v)\<rparr>)"

subsection \<open>Well-formed worlds\<close>

text \<open>\<^verbatim>\<open>NULL\<close> and the addresses not handed out yet hold nothing.\<close>

definition heap_wf :: "('o, 'z) world_scheme \<Rightarrow> bool" where
  "heap_wf s \<longleftrightarrow> 0 < brk s \<and> heap s 0 = None \<and> (\<forall>a \<ge> brk s. heap s a = None)"

definition all_succeed :: "('o, 'z) world_scheme \<Rightarrow> bool" where
  "all_succeed s \<longleftrightarrow> list_all id (faults s)"

text \<open>Two worlds that differ in the pending outcomes at most.\<close>

definition calls_only :: "('o, 'z) world_scheme \<Rightarrow> ('o, 'z) world_scheme \<Rightarrow> bool" where
  "calls_only s t \<longleftrightarrow> (\<exists>fs. t = s\<lparr>faults := fs\<rparr>) \<and> (all_succeed s \<longrightarrow> all_succeed t)"

subsection \<open>Effects of the operations\<close>

lemma calls_only_refl [simp, intro]: "calls_only s s"
  by (auto simp: calls_only_def intro: exI [of _ "faults s"])

lemma calls_only_trans [trans]: "calls_only s t \<Longrightarrow> calls_only t u \<Longrightarrow> calls_only s u"
  by (auto simp: calls_only_def)

lemma calls_only_fields:
  assumes "calls_only s t"
  shows "heap t = heap s" "brk t = brk s" "opened t = opened s" "ub t = ub s"
    "files t = files s" "cwd t = cwd s" "world.more t = world.more s"
  using assms by (auto simp: calls_only_def)

lemma next_call_calls: "next_call s = (ok, t) \<Longrightarrow> calls_only s t \<and> (all_succeed s \<longrightarrow> ok)"
  by (cases "faults s") (auto simp: next_call_def calls_only_def all_succeed_def intro: exI [of _ "faults s"])

lemma calls_only_faults: "calls_only s t \<Longrightarrow> t = s\<lparr>faults := faults t\<rparr>"
  by (auto simp: calls_only_def)

lemma fseek_set_effect:
  "fseek_set off f s = (ok, g, t) \<Longrightarrow>
     calls_only s t \<and> (all_succeed s \<longrightarrow> ok) \<and> f_data g = f_data f \<and> (ok \<longrightarrow> f_pos g = off)"
  by (auto simp: fseek_set_def dest!: next_call_calls split: prod.splits if_splits)

lemma fseek_end_effect:
  "fseek_end f s = (ok, g, t) \<Longrightarrow>
     calls_only s t \<and> (all_succeed s \<longrightarrow> ok) \<and> f_data g = f_data f \<and>
     (ok \<longrightarrow> f_pos g = length (f_data f))"
  by (auto simp: fseek_end_def dest!: next_call_calls split: prod.splits if_splits)

lemma ftell_effect:
  "ftell f s = (n, t) \<Longrightarrow>
     calls_only s t \<and> (n = -1 \<or> n = int (f_pos f)) \<and> (all_succeed s \<longrightarrow> n = int (f_pos f))"
  by (auto simp: ftell_def dest!: next_call_calls split: prod.splits if_splits)

lemma fread_effect:
  "fread sz n f s = ((items, bytes), g, t) \<Longrightarrow>
     calls_only s t \<and> f_data g = f_data f \<and>
     (items = length (bytes_at (f_pos f) (sz * n) (f_data f)) div sz \<and>
      bytes = bytes_at (f_pos f) (sz * n) (f_data f) \<or> \<not> all_succeed s \<and> items = 0 \<and> bytes = [])"
  by (auto simp: fread_def Let_def dest!: next_call_calls split: prod.splits if_splits)

lemma seek_read_effect:
  assumes "seek_read off sz n f s = (r, g, t)" and "0 < sz" and "0 < n"
  shows "calls_only s t" and "f_data g = f_data f"
    and "r = Some bs \<Longrightarrow> off + sz * n \<le> length (f_data f) \<and> bs = bytes_at off (sz * n) (f_data f)"
    and "r = None \<Longrightarrow> all_succeed s \<Longrightarrow> length (f_data f) < off + sz * n"
proof -
  obtain ok f1 s1 where seek: "fseek_set off f s = (ok, f1, s1)"
    by (metis prod_cases3)
  note eff1 = fseek_set_effect [OF seek]
  obtain items bytes f2 s2 where read: "fread sz n f1 s1 = ((items, bytes), f2, s2)"
    by (metis prod.exhaust)
  note eff2 = fread_effect [OF read]
  have full: "length (bytes_at off (sz * n) xs) div sz = n \<longleftrightarrow> off + sz * n \<le> length xs" for xs :: "u8 list"
  proof -
    have "min (sz * n) (length xs - off) div sz = n \<longleftrightarrow> sz * n \<le> length xs - off"
    proof (cases "sz * n \<le> length xs - off")
      case True
      then show ?thesis using assms(2) by (simp add: min_absorb1)
    next
      case False
      then have "(length xs - off) div sz < n"
        using assms(2) by (simp add: div_less_iff_less_mult mult.commute)
      with False show ?thesis by (simp add: min_absorb2)
    qed
    moreover have "sz * n \<le> length xs - off \<longleftrightarrow> off + sz * n \<le> length xs"
      using assms(2,3) by (cases "off \<le> length xs") (auto simp: add.commute le_diff_conv2)
    ultimately show ?thesis by simp
  qed
  show "calls_only s t" "f_data g = f_data f"
    using assms(1) eff1 eff2 by (auto simp: seek_read_def seek read split: if_splits intro: calls_only_trans)
  show "off + sz * n \<le> length (f_data f) \<and> bs = bytes_at off (sz * n) (f_data f)" if "r = Some bs"
    using assms(1,3) that eff1 eff2 full [of "f_data f"] by (auto simp: seek_read_def seek read split: if_splits)
  show "length (f_data f) < off + sz * n" if "r = None" "all_succeed s"
    using assms(1,3) that eff1 eff2 full [of "f_data f"]
    by (auto simp: seek_read_def seek read calls_only_def not_le split: if_splits)
qed

subsection \<open>Worlds that differ in memory\<close>

text \<open>
  One world comes from another by calls, allocations and releases: only the heap, its next
  address and the pending outcomes differ. What the heap became is stated apart.
\<close>

definition evolves :: "('o, 'z) world_scheme \<Rightarrow> ('o, 'z) world_scheme \<Rightarrow> bool" where
  "evolves s t \<longleftrightarrow>
     opened t = opened s \<and> ub t = ub s \<and> files t = files s \<and> cwd t = cwd s \<and>
     world.more t = world.more s \<and> brk s \<le> brk t \<and> (all_succeed s \<longrightarrow> all_succeed t)"

lemma evolves_refl [simp, intro]: "evolves s s"
  by (simp add: evolves_def)

lemma evolves_trans [trans]: "evolves s t \<Longrightarrow> evolves t u \<Longrightarrow> evolves s u"
  by (auto simp: evolves_def)

lemma evolves_fields:
  assumes "evolves s t"
  shows "opened t = opened s" "ub t = ub s" "files t = files s" "cwd t = cwd s"
    "world.more t = world.more s" "brk s \<le> brk t" "all_succeed s \<Longrightarrow> all_succeed t"
  using assms by (auto simp: evolves_def)

lemma evolves_eq: "evolves s t \<Longrightarrow> t = s\<lparr>heap := heap t, faults := faults t, brk := brk t\<rparr>"
  by (rule world.equality) (auto simp: evolves_def)

lemma calls_only_evolves: "calls_only s t \<Longrightarrow> evolves s t \<and> heap t = heap s \<and> brk t = brk s"
  by (auto simp: calls_only_def evolves_def)

lemma heap_wf_eq: "heap t = heap s \<Longrightarrow> brk t = brk s \<Longrightarrow> heap_wf t = heap_wf s"
  by (simp add: heap_wf_def)

lemma malloc_cases:
  assumes "malloc v s = (a, t)" and "heap_wf s"
  obtains (fail) "a = 0" "evolves s t" "heap t = heap s" "brk t = brk s" "\<not> all_succeed s"
  | (ok) "a = brk s" "0 < a" "evolves s t" "heap t = (heap s)(a \<mapsto> v)" "brk t = Suc (brk s)"
proof -
  obtain r s1 where call: "next_call s = (r, s1)"
    by fastforce
  note eff = next_call_calls [OF call]
  then obtain fs where s1: "s1 = s\<lparr>faults := fs\<rparr>"
    by (auto simp: calls_only_def)
  show thesis
  proof (cases r)
    case True
    have "all_succeed t = all_succeed s1"
      using assms(1) True by (auto simp: malloc_def call all_succeed_def)
    then have "evolves s t"
      using assms(1) True eff s1
      by (auto simp: malloc_def call evolves_def calls_only_def)
    with assms True s1 show thesis
      by (intro ok) (auto simp: malloc_def call heap_wf_def)
  next
    case False
    with assms(1) eff s1 show thesis
      by (intro fail) (auto simp: malloc_def call dest: calls_only_evolves)
  qed
qed

lemma malloc_heap_wf: "malloc v s = (a, t) \<Longrightarrow> heap_wf s \<Longrightarrow> heap_wf t"
  by (erule malloc_cases) (auto simp: heap_wf_def)

lemma free_NULL [simp]: "free 0 s = s"
  by (simp add: free_def)

lemma free_live:
  "heap s a = Some v \<Longrightarrow> heap_wf s \<Longrightarrow>
    evolves s (free a s) \<and> heap (free a s) = (heap s)(a := None) \<and> brk (free a s) = brk s \<and>
    heap_wf (free a s)"
  by (cases "a = 0") (auto simp: free_def evolves_def heap_wf_def all_succeed_def)

lemma store_live:
  "heap s a = Some w \<Longrightarrow> heap_wf s \<Longrightarrow>
    evolves s (store a v s) \<and> heap (store a v s) = (heap s)(a \<mapsto> v) \<and> brk (store a v s) = brk s \<and>
    heap_wf (store a v s)"
  by (cases "a = 0") (auto simp: store_def evolves_def heap_wf_def all_succeed_def)

lemma heap_wf_fresh: "heap_wf s \<Longrightarrow> brk s \<le> a \<Longrightarrow> heap s a = None"
  by (simp add: heap_wf_def)

end
