(* ===== verification/Boot_Device.thy ===== *)
theory Boot_Device
  imports Ps2_Prelude
begin

text \<open>
  Boot devices (src/ps2_boot_device.c, include/ps2_boot_device.h): the enumeration
  \<^verbatim>\<open>BootDeviceIDs\<close>, the root path of a device and the device of a path. A path is a C
  string that may be \<^verbatim>\<open>NULL\<close>, hence a \<open>string option\<close>. The lemmas show that the
  fifteen device names exclude each other as prefixes, so the order of the fifteen tests is
  irrelevant, and that the two functions are inverse to each other.
\<close>

datatype BootDeviceIDs =
    BOOT_DEVICE_UNKNOWN
  | BOOT_DEVICE_MC0
  | BOOT_DEVICE_MC1
  | BOOT_DEVICE_CDROM
  | BOOT_DEVICE_CDFS
  | BOOT_DEVICE_MASS
  | BOOT_DEVICE_MASS0
  | BOOT_DEVICE_MASS1
  | BOOT_DEVICE_MX4SIO
  | BOOT_DEVICE_MX4SIO0
  | BOOT_DEVICE_MX4SIO1
  | BOOT_DEVICE_HDD
  | BOOT_DEVICE_HDD0
  | BOOT_DEVICE_HOST
  | BOOT_DEVICE_HOST0
  | BOOT_DEVICE_HOST1
  | BOOT_DEVICE_COUNT

text \<open>The device names of the source file's macros.\<close>

abbreviation (input) DEVICE_SLASH :: string where "DEVICE_SLASH \<equiv> ''/''"
abbreviation (input) DEVICE_MC0 :: string where "DEVICE_MC0 \<equiv> ''mc0:''"
abbreviation (input) DEVICE_MC1 :: string where "DEVICE_MC1 \<equiv> ''mc1:''"
abbreviation (input) DEVICE_CDROM :: string where "DEVICE_CDROM \<equiv> ''cdrom0:''"
abbreviation (input) DEVICE_CDFS :: string where "DEVICE_CDFS \<equiv> ''cdfs:''"
abbreviation (input) DEVICE_MASS :: string where "DEVICE_MASS \<equiv> ''mass:''"
abbreviation (input) DEVICE_MASS0 :: string where "DEVICE_MASS0 \<equiv> ''mass0:''"
abbreviation (input) DEVICE_MASS1 :: string where "DEVICE_MASS1 \<equiv> ''mass1:''"
abbreviation (input) DEVICE_MX4SIO :: string where "DEVICE_MX4SIO \<equiv> ''mx4sio:''"
abbreviation (input) DEVICE_MX4SIO0 :: string where "DEVICE_MX4SIO0 \<equiv> ''mx4sio0:''"
abbreviation (input) DEVICE_MX4SIO1 :: string where "DEVICE_MX4SIO1 \<equiv> ''mx4sio1:''"
abbreviation (input) DEVICE_HDD :: string where "DEVICE_HDD \<equiv> ''hdd:''"
abbreviation (input) DEVICE_HDD0 :: string where "DEVICE_HDD0 \<equiv> ''hdd0:''"
abbreviation (input) DEVICE_HOST :: string where "DEVICE_HOST \<equiv> ''host:''"
abbreviation (input) DEVICE_HOST0 :: string where "DEVICE_HOST0 \<equiv> ''host0:''"
abbreviation (input) DEVICE_HOST1 :: string where "DEVICE_HOST1 \<equiv> ''host1:''"

text \<open>\<^verbatim>\<open>path != NULL && strncmp(path, device, strlen(device)) == 0\<close>.\<close>

definition has_device_prefix :: "string option \<Rightarrow> string \<Rightarrow> bool" where
  "has_device_prefix path device =
     (case path of None \<Rightarrow> False | Some p \<Rightarrow> take (length device) p = device)"

fun rootDevicePath :: "BootDeviceIDs \<Rightarrow> string" where
  "rootDevicePath BOOT_DEVICE_MC0 = DEVICE_MC0 @ DEVICE_SLASH"
| "rootDevicePath BOOT_DEVICE_MC1 = DEVICE_MC1 @ DEVICE_SLASH"
| "rootDevicePath BOOT_DEVICE_CDROM = DEVICE_CDROM @ DEVICE_SLASH"
| "rootDevicePath BOOT_DEVICE_CDFS = DEVICE_CDFS @ DEVICE_SLASH"
| "rootDevicePath BOOT_DEVICE_MASS = DEVICE_MASS @ DEVICE_SLASH"
| "rootDevicePath BOOT_DEVICE_MASS0 = DEVICE_MASS0 @ DEVICE_SLASH"
| "rootDevicePath BOOT_DEVICE_MASS1 = DEVICE_MASS1 @ DEVICE_SLASH"
| "rootDevicePath BOOT_DEVICE_MX4SIO = DEVICE_MX4SIO @ DEVICE_SLASH"
| "rootDevicePath BOOT_DEVICE_MX4SIO0 = DEVICE_MX4SIO0 @ DEVICE_SLASH"
| "rootDevicePath BOOT_DEVICE_MX4SIO1 = DEVICE_MX4SIO1 @ DEVICE_SLASH"
| "rootDevicePath BOOT_DEVICE_HDD = DEVICE_HDD @ DEVICE_SLASH"
| "rootDevicePath BOOT_DEVICE_HDD0 = DEVICE_HDD0 @ DEVICE_SLASH"
| "rootDevicePath BOOT_DEVICE_HOST = DEVICE_HOST @ DEVICE_SLASH"
| "rootDevicePath BOOT_DEVICE_HOST0 = DEVICE_HOST0 @ DEVICE_SLASH"
| "rootDevicePath BOOT_DEVICE_HOST1 = DEVICE_HOST1 @ DEVICE_SLASH"
| "rootDevicePath _ = ''''"

definition getBootDeviceID :: "string option \<Rightarrow> BootDeviceIDs" where
  "getBootDeviceID path =
    (if has_device_prefix path DEVICE_MC0 then BOOT_DEVICE_MC0
     else if has_device_prefix path DEVICE_MC1 then BOOT_DEVICE_MC1
     else if has_device_prefix path DEVICE_CDROM then BOOT_DEVICE_CDROM
     else if has_device_prefix path DEVICE_CDFS then BOOT_DEVICE_CDFS
     else if has_device_prefix path DEVICE_MASS then BOOT_DEVICE_MASS
     else if has_device_prefix path DEVICE_MASS0 then BOOT_DEVICE_MASS0
     else if has_device_prefix path DEVICE_MASS1 then BOOT_DEVICE_MASS1
     else if has_device_prefix path DEVICE_MX4SIO then BOOT_DEVICE_MX4SIO
     else if has_device_prefix path DEVICE_MX4SIO0 then BOOT_DEVICE_MX4SIO0
     else if has_device_prefix path DEVICE_MX4SIO1 then BOOT_DEVICE_MX4SIO1
     else if has_device_prefix path DEVICE_HDD then BOOT_DEVICE_HDD
     else if has_device_prefix path DEVICE_HDD0 then BOOT_DEVICE_HDD0
     else if has_device_prefix path DEVICE_HOST then BOOT_DEVICE_HOST
     else if has_device_prefix path DEVICE_HOST0 then BOOT_DEVICE_HOST0
     else if has_device_prefix path DEVICE_HOST1 then BOOT_DEVICE_HOST1
     else BOOT_DEVICE_UNKNOWN)"

text \<open>For the statements: the devices with a name, and the name itself.\<close>

fun device_name :: "BootDeviceIDs \<Rightarrow> string option" where
  "device_name BOOT_DEVICE_MC0 = Some DEVICE_MC0"
| "device_name BOOT_DEVICE_MC1 = Some DEVICE_MC1"
| "device_name BOOT_DEVICE_CDROM = Some DEVICE_CDROM"
| "device_name BOOT_DEVICE_CDFS = Some DEVICE_CDFS"
| "device_name BOOT_DEVICE_MASS = Some DEVICE_MASS"
| "device_name BOOT_DEVICE_MASS0 = Some DEVICE_MASS0"
| "device_name BOOT_DEVICE_MASS1 = Some DEVICE_MASS1"
| "device_name BOOT_DEVICE_MX4SIO = Some DEVICE_MX4SIO"
| "device_name BOOT_DEVICE_MX4SIO0 = Some DEVICE_MX4SIO0"
| "device_name BOOT_DEVICE_MX4SIO1 = Some DEVICE_MX4SIO1"
| "device_name BOOT_DEVICE_HDD = Some DEVICE_HDD"
| "device_name BOOT_DEVICE_HDD0 = Some DEVICE_HDD0"
| "device_name BOOT_DEVICE_HOST = Some DEVICE_HOST"
| "device_name BOOT_DEVICE_HOST0 = Some DEVICE_HOST0"
| "device_name BOOT_DEVICE_HOST1 = Some DEVICE_HOST1"
| "device_name _ = None"

definition named_devices :: "BootDeviceIDs list" where
  "named_devices = [BOOT_DEVICE_MC0,
     BOOT_DEVICE_MC1,
     BOOT_DEVICE_CDROM,
     BOOT_DEVICE_CDFS,
     BOOT_DEVICE_MASS,
     BOOT_DEVICE_MASS0,
     BOOT_DEVICE_MASS1,
     BOOT_DEVICE_MX4SIO,
     BOOT_DEVICE_MX4SIO0,
     BOOT_DEVICE_MX4SIO1,
     BOOT_DEVICE_HDD,
     BOOT_DEVICE_HDD0,
     BOOT_DEVICE_HOST,
     BOOT_DEVICE_HOST0,
     BOOT_DEVICE_HOST1]"

lemma named_devices_iff: "d \<in> set named_devices \<longleftrightarrow> (\<exists>n. device_name d = Some n)"
  by (cases d) (simp_all add: named_devices_def)

lemma rootDevicePath_name: "device_name d = Some n \<Longrightarrow> rootDevicePath d = n @ ''/''"
  by (cases d) auto

lemma has_device_prefix_append:
  "has_device_prefix (Some p) dev \<longleftrightarrow> (\<exists>rest. p = dev @ rest)"
  by (auto simp: has_device_prefix_def) (metis append_take_drop_id)

lemma has_device_prefix_None [simp]: "\<not> has_device_prefix None dev"
  by (simp add: has_device_prefix_def)

text \<open>A path that starts with a device's name has that device, whatever follows.\<close>

lemma getBootDeviceID_named: "device_name d = Some n \<Longrightarrow> getBootDeviceID (Some (n @ rest)) = d"
  by (cases d) (auto simp: getBootDeviceID_def has_device_prefix_def)

lemma getBootDeviceID_NULL [simp]: "getBootDeviceID None = BOOT_DEVICE_UNKNOWN"
  by (simp add: getBootDeviceID_def)

lemma getBootDeviceID_range: "getBootDeviceID path \<noteq> BOOT_DEVICE_COUNT"
  by (simp add: getBootDeviceID_def)

text \<open>The chain of tests is a search through the named devices.\<close>

lemma getBootDeviceID_find:
  "getBootDeviceID path =
     (case find (\<lambda>d. has_device_prefix path (the (device_name d))) named_devices of
        None \<Rightarrow> BOOT_DEVICE_UNKNOWN | Some d \<Rightarrow> d)"
  by (simp add: getBootDeviceID_def named_devices_def if_distrib [of "case_option _ _"] cong: if_cong)

lemma getBootDeviceID_prefix:
  assumes "getBootDeviceID (Some p) = d" and "device_name d = Some n"
  shows "\<exists>rest. p = n @ rest"
proof -
  from assms have "find (\<lambda>d. has_device_prefix (Some p) (the (device_name d))) named_devices = Some d"
    by (auto simp: getBootDeviceID_find split: option.splits)
  with assms(2) show ?thesis
    by (auto simp: find_Some_iff has_device_prefix_append)
qed

lemma getBootDeviceID_unknown:
  "getBootDeviceID (Some p) = BOOT_DEVICE_UNKNOWN \<longleftrightarrow>
     (\<forall>d n rest. device_name d = Some n \<longrightarrow> p \<noteq> n @ rest)"
proof
  assume "getBootDeviceID (Some p) = BOOT_DEVICE_UNKNOWN"
  then show "\<forall>d n rest. device_name d = Some n \<longrightarrow> p \<noteq> n @ rest"
    using getBootDeviceID_named by fastforce
next
  assume no: "\<forall>d n rest. device_name d = Some n \<longrightarrow> p \<noteq> n @ rest"
  show "getBootDeviceID (Some p) = BOOT_DEVICE_UNKNOWN"
  proof (rule ccontr)
    assume "getBootDeviceID (Some p) \<noteq> BOOT_DEVICE_UNKNOWN"
    moreover have "d = BOOT_DEVICE_UNKNOWN \<or> d = BOOT_DEVICE_COUNT \<or> (\<exists>n. device_name d = Some n)" for d
      by (cases d) simp_all
    ultimately obtain n where "device_name (getBootDeviceID (Some p)) = Some n"
      using getBootDeviceID_range by blast
    then show False
      using no getBootDeviceID_prefix by blast
  qed
qed

end
