(* ===== verification/Irx_Modules.thy ===== *)
theory Irx_Modules
  imports Ps2_Prelude
begin

text \<open>
  The IRX modules (irx/manifest.txt). CMakeLists.txt turns each manifest line into a macro
  \<^verbatim>\<open>PS2_IRX_ID_<NAME>\<close> with the line's number and into a descriptor constant
  \<^verbatim>\<open>ps2_irx_<name>\<close> that carries it; here a module is a constructor of \<open>irx\<close> and
  \<open>irx_id\<close> gives its number. \<open>manifest_txt\<close> is the text of the manifest itself, which the
  image tool parses.
\<close>

datatype irx =
    SIO2MAN
  | IOMANX
  | FILEXIO
  | MCMAN
  | MCSERV
  | BDM
  | BDMFS_FATFS
  | USBD
  | USBMASS_BD
  | MX4SIO_BD
  | CDFS
  | PS2DEV9
  | PS2ATAD
  | PS2HDD
  | PS2FS
  | MTAPMAN
  | PADMAN
  | LIBSD
  | AUDSRV
  | POWEROFF
  | PS2MOUSE
  | PS2KBD
  | PS2CAM
  | NETMAN
  | SMAP
  | PS2IP_NM
  | PS2IPS

primrec irx_id :: "irx \<Rightarrow> u32" where
  "irx_id SIO2MAN = 1"
| "irx_id IOMANX = 2"
| "irx_id FILEXIO = 3"
| "irx_id MCMAN = 4"
| "irx_id MCSERV = 5"
| "irx_id BDM = 6"
| "irx_id BDMFS_FATFS = 7"
| "irx_id USBD = 8"
| "irx_id USBMASS_BD = 9"
| "irx_id MX4SIO_BD = 10"
| "irx_id CDFS = 11"
| "irx_id PS2DEV9 = 12"
| "irx_id PS2ATAD = 13"
| "irx_id PS2HDD = 14"
| "irx_id PS2FS = 15"
| "irx_id MTAPMAN = 16"
| "irx_id PADMAN = 17"
| "irx_id LIBSD = 18"
| "irx_id AUDSRV = 19"
| "irx_id POWEROFF = 20"
| "irx_id PS2MOUSE = 21"
| "irx_id PS2KBD = 22"
| "irx_id PS2CAM = 23"
| "irx_id NETMAN = 24"
| "irx_id SMAP = 25"
| "irx_id PS2IP_NM = 26"
| "irx_id PS2IPS = 27"

definition all_irx :: "irx list" where
  "all_irx = [SIO2MAN, IOMANX, FILEXIO, MCMAN, MCSERV, BDM, BDMFS_FATFS,
     USBD, USBMASS_BD, MX4SIO_BD, CDFS, PS2DEV9, PS2ATAD, PS2HDD,
     PS2FS, MTAPMAN, PADMAN, LIBSD, AUDSRV, POWEROFF, PS2MOUSE,
     PS2KBD, PS2CAM, NETMAN, SMAP, PS2IP_NM, PS2IPS]"

text \<open>The manifest, line by line; every line ends with a newline.\<close>

definition manifest_txt :: string where
  "manifest_txt = concat (map (\<lambda>l. l @ [CHR 0x0A])
    [''# id|filename|embedded_symbol|name'',
     ''1|sio2man.irx|sio2man_irx|sio2man'',
     ''2|iomanX.irx|iomanX_irx|iomanX'',
     ''3|fileXio.irx|fileXio_irx|fileXio'',
     ''4|mcman.irx|mcman_irx|mcman'',
     ''5|mcserv.irx|mcserv_irx|mcserv'',
     ''6|bdm.irx|bdm_irx|bdm'',
     ''7|bdmfs_fatfs.irx|bdmfs_fatfs_irx|bdmfs_fatfs'',
     ''8|usbd.irx|usbd_irx|usbd'',
     ''9|usbmass_bd.irx|usbmass_bd_irx|usbmass_bd'',
     ''10|mx4sio_bd.irx|mx4sio_bd_irx|mx4sio_bd'',
     ''11|cdfs.irx|cdfs_irx|cdfs'',
     ''12|ps2dev9.irx|ps2dev9_irx|ps2dev9'',
     ''13|ps2atad.irx|ps2atad_irx|ps2atad'',
     ''14|ps2hdd.irx|ps2hdd_irx|ps2hdd'',
     ''15|ps2fs.irx|ps2fs_irx|ps2fs'',
     ''16|mtapman.irx|mtapman_irx|mtapman'',
     ''17|padman.irx|padman_irx|padman'',
     ''18|libsd.irx|libsd_irx|libsd'',
     ''19|audsrv.irx|audsrv_irx|audsrv'',
     ''20|poweroff.irx|poweroff_irx|poweroff'',
     ''21|ps2mouse.irx|ps2mouse_irx|ps2mouse'',
     ''22|ps2kbd.irx|ps2kbd_irx|ps2kbd'',
     ''23|ps2cam.irx|ps2cam_irx|ps2cam'',
     ''24|netman.irx|netman_irx|netman'',
     ''25|smap.irx|smap_irx|smap'',
     ''26|ps2ip-nm.irx|ps2ip_nm_irx|ps2ip-nm'',
     ''27|ps2ips.irx|ps2ips_irx|ps2ips''])"

lemma set_all_irx: "set all_irx = UNIV"
proof -
  have "m \<in> set all_irx" for m
    by (cases m) (simp_all add: all_irx_def)
  then show ?thesis by auto
qed

lemma irx_id_bounds: "1 \<le> unat (irx_id m) \<and> unat (irx_id m) \<le> 27"
  by (cases m) simp_all

lemma inj_irx_id: "inj irx_id"
proof (rule injI)
  fix m n
  have "distinct (map irx_id all_irx)"
    by (simp add: all_irx_def)
  moreover assume "irx_id m = irx_id n"
  ultimately show "m = n"
    by (auto simp: distinct_map set_all_irx dest: injD)
qed

lemma irx_id_eq_iff [simp]: "irx_id m = irx_id n \<longleftrightarrow> m = n"
  using inj_irx_id by (auto dest: injD)

lemma unat_irx_id_eq_iff [simp]: "unat (irx_id m) = unat (irx_id n) \<longleftrightarrow> m = n"
  using irx_id_eq_iff [of m n] by (simp only: word_unat_eq_iff)

end
