(* ===== verification/Requirements.thy ===== *)
theory Requirements
  imports Libc_World Boot_Device Irx_Modules
begin

text \<open>
  Driver requirements (include/ps2_drivers_img.h and the first part of
  src/ps2_drivers_img.c): the status codes and their texts, the requirement bits, the
  requirements of a boot device, and the expansion of a requirement mask into the flags of
  the IRX modules to stage. \<open>driver_closure\<close> is the specification of the expansion: the
  modules one requirement stands for. The lemmas show that the expansion marks exactly the
  union of the closures, however the mask was put together.
\<close>

datatype img_status =
    PS2_DRIVERS_IMG_OK
  | PS2_DRIVERS_IMG_ERR_ARGUMENT
  | PS2_DRIVERS_IMG_ERR_ALREADY_STAGED
  | PS2_DRIVERS_IMG_ERR_OPEN
  | PS2_DRIVERS_IMG_ERR_IO
  | PS2_DRIVERS_IMG_ERR_FORMAT
  | PS2_DRIVERS_IMG_ERR_MISSING_MODULE
  | PS2_DRIVERS_IMG_ERR_CRC
  | PS2_DRIVERS_IMG_ERR_MEMORY
  | PS2_DRIVERS_IMG_ERR_NO_SOURCE
  | PS2_DRIVERS_IMG_ERR_CWD

primrec status_val :: "img_status \<Rightarrow> int" where
  "status_val PS2_DRIVERS_IMG_OK = 0"
| "status_val PS2_DRIVERS_IMG_ERR_ARGUMENT = -1"
| "status_val PS2_DRIVERS_IMG_ERR_ALREADY_STAGED = -2"
| "status_val PS2_DRIVERS_IMG_ERR_OPEN = -3"
| "status_val PS2_DRIVERS_IMG_ERR_IO = -4"
| "status_val PS2_DRIVERS_IMG_ERR_FORMAT = -5"
| "status_val PS2_DRIVERS_IMG_ERR_MISSING_MODULE = -6"
| "status_val PS2_DRIVERS_IMG_ERR_CRC = -7"
| "status_val PS2_DRIVERS_IMG_ERR_MEMORY = -8"
| "status_val PS2_DRIVERS_IMG_ERR_NO_SOURCE = -9"
| "status_val PS2_DRIVERS_IMG_ERR_CWD = -10"

definition ps2_drivers_img_error_string :: "int \<Rightarrow> string" where
  "ps2_drivers_img_error_string error =
    (if error = status_val PS2_DRIVERS_IMG_OK then ''success''
     else if error = status_val PS2_DRIVERS_IMG_ERR_ARGUMENT then ''invalid argument or driver requirement mask''
     else if error = status_val PS2_DRIVERS_IMG_ERR_ALREADY_STAGED then ''IRX modules are already staged''
     else if error = status_val PS2_DRIVERS_IMG_ERR_OPEN then ''failed to open IRX image''
     else if error = status_val PS2_DRIVERS_IMG_ERR_IO then ''IRX image I/O error''
     else if error = status_val PS2_DRIVERS_IMG_ERR_FORMAT then ''invalid IRX image format''
     else if error = status_val PS2_DRIVERS_IMG_ERR_MISSING_MODULE then ''required IRX module is missing from the image''
     else if error = status_val PS2_DRIVERS_IMG_ERR_CRC then ''IRX payload CRC mismatch''
     else if error = status_val PS2_DRIVERS_IMG_ERR_MEMORY then ''not enough memory to stage IRX modules''
     else if error = status_val PS2_DRIVERS_IMG_ERR_NO_SOURCE then ''no remembered IRX image source''
     else if error = status_val PS2_DRIVERS_IMG_ERR_CWD then ''failed to determine the current working directory''
     else ''unknown ps2_drivers image error'')"

subsection \<open>Requirement bits\<close>

datatype ps2_driver_requirement =
    PS2_DRIVER_REQ_SIO2MAN
  | PS2_DRIVER_REQ_FILEXIO
  | PS2_DRIVER_REQ_MEMCARD
  | PS2_DRIVER_REQ_BDM
  | PS2_DRIVER_REQ_USBD
  | PS2_DRIVER_REQ_USB
  | PS2_DRIVER_REQ_MX4SIO
  | PS2_DRIVER_REQ_CDFS
  | PS2_DRIVER_REQ_DEV9
  | PS2_DRIVER_REQ_HDD
  | PS2_DRIVER_REQ_JOYSTICK
  | PS2_DRIVER_REQ_AUDIO
  | PS2_DRIVER_REQ_POWEROFF
  | PS2_DRIVER_REQ_MOUSE
  | PS2_DRIVER_REQ_KEYBOARD
  | PS2_DRIVER_REQ_CAMERA
  | PS2_DRIVER_REQ_NETMAN
  | PS2_DRIVER_REQ_SMAP
  | PS2_DRIVER_REQ_EEIP
  | PS2_DRIVER_REQ_IOPIP

primrec req_bit :: "ps2_driver_requirement \<Rightarrow> nat" where
  "req_bit PS2_DRIVER_REQ_SIO2MAN = 0"
| "req_bit PS2_DRIVER_REQ_FILEXIO = 1"
| "req_bit PS2_DRIVER_REQ_MEMCARD = 2"
| "req_bit PS2_DRIVER_REQ_BDM = 3"
| "req_bit PS2_DRIVER_REQ_USBD = 4"
| "req_bit PS2_DRIVER_REQ_USB = 5"
| "req_bit PS2_DRIVER_REQ_MX4SIO = 6"
| "req_bit PS2_DRIVER_REQ_CDFS = 7"
| "req_bit PS2_DRIVER_REQ_DEV9 = 8"
| "req_bit PS2_DRIVER_REQ_HDD = 9"
| "req_bit PS2_DRIVER_REQ_JOYSTICK = 10"
| "req_bit PS2_DRIVER_REQ_AUDIO = 11"
| "req_bit PS2_DRIVER_REQ_POWEROFF = 12"
| "req_bit PS2_DRIVER_REQ_MOUSE = 13"
| "req_bit PS2_DRIVER_REQ_KEYBOARD = 14"
| "req_bit PS2_DRIVER_REQ_CAMERA = 15"
| "req_bit PS2_DRIVER_REQ_NETMAN = 16"
| "req_bit PS2_DRIVER_REQ_SMAP = 17"
| "req_bit PS2_DRIVER_REQ_EEIP = 18"
| "req_bit PS2_DRIVER_REQ_IOPIP = 19"

definition req_mask :: "ps2_driver_requirement \<Rightarrow> u32" where
  "req_mask r = push_bit (req_bit r) 1"

definition PS2_DRIVER_REQ_KNOWN_MASK :: u32 where
  "PS2_DRIVER_REQ_KNOWN_MASK = push_bit 20 1 - 1"

definition PS2_DRIVER_REQ_FILESYSTEM_ALL :: u32 where
  "PS2_DRIVER_REQ_FILESYSTEM_ALL =
     req_mask PS2_DRIVER_REQ_POWEROFF OR req_mask PS2_DRIVER_REQ_FILEXIO OR
     req_mask PS2_DRIVER_REQ_MEMCARD OR req_mask PS2_DRIVER_REQ_USB OR
     req_mask PS2_DRIVER_REQ_MX4SIO OR req_mask PS2_DRIVER_REQ_CDFS OR
     req_mask PS2_DRIVER_REQ_DEV9 OR req_mask PS2_DRIVER_REQ_HDD"

definition all_requirements :: "ps2_driver_requirement list" where
  "all_requirements = [PS2_DRIVER_REQ_SIO2MAN, PS2_DRIVER_REQ_FILEXIO, PS2_DRIVER_REQ_MEMCARD,
     PS2_DRIVER_REQ_BDM, PS2_DRIVER_REQ_USBD, PS2_DRIVER_REQ_USB,
     PS2_DRIVER_REQ_MX4SIO, PS2_DRIVER_REQ_CDFS, PS2_DRIVER_REQ_DEV9,
     PS2_DRIVER_REQ_HDD, PS2_DRIVER_REQ_JOYSTICK, PS2_DRIVER_REQ_AUDIO,
     PS2_DRIVER_REQ_POWEROFF, PS2_DRIVER_REQ_MOUSE, PS2_DRIVER_REQ_KEYBOARD,
     PS2_DRIVER_REQ_CAMERA, PS2_DRIVER_REQ_NETMAN, PS2_DRIVER_REQ_SMAP,
     PS2_DRIVER_REQ_EEIP, PS2_DRIVER_REQ_IOPIP]"

text \<open>The test \<^verbatim>\<open>(mask & ~PS2_DRIVER_REQ_KNOWN_MASK) != 0u\<close>.\<close>

definition unknown_bits :: "u32 \<Rightarrow> bool" where
  "unknown_bits q \<longleftrightarrow> q AND NOT PS2_DRIVER_REQ_KNOWN_MASK \<noteq> 0"

fun ps2_drivers_img_requirements_for_boot_device :: "BootDeviceIDs \<Rightarrow> u32" where
  "ps2_drivers_img_requirements_for_boot_device BOOT_DEVICE_MC0 =
     req_mask PS2_DRIVER_REQ_FILEXIO OR req_mask PS2_DRIVER_REQ_MEMCARD"
| "ps2_drivers_img_requirements_for_boot_device BOOT_DEVICE_MC1 =
     req_mask PS2_DRIVER_REQ_FILEXIO OR req_mask PS2_DRIVER_REQ_MEMCARD"
| "ps2_drivers_img_requirements_for_boot_device BOOT_DEVICE_CDROM =
     req_mask PS2_DRIVER_REQ_FILEXIO OR req_mask PS2_DRIVER_REQ_CDFS"
| "ps2_drivers_img_requirements_for_boot_device BOOT_DEVICE_CDFS =
     req_mask PS2_DRIVER_REQ_FILEXIO OR req_mask PS2_DRIVER_REQ_CDFS"
| "ps2_drivers_img_requirements_for_boot_device BOOT_DEVICE_MASS =
     req_mask PS2_DRIVER_REQ_FILEXIO OR (req_mask PS2_DRIVER_REQ_USB OR req_mask PS2_DRIVER_REQ_MX4SIO)"
| "ps2_drivers_img_requirements_for_boot_device BOOT_DEVICE_MASS0 =
     req_mask PS2_DRIVER_REQ_FILEXIO OR (req_mask PS2_DRIVER_REQ_USB OR req_mask PS2_DRIVER_REQ_MX4SIO)"
| "ps2_drivers_img_requirements_for_boot_device BOOT_DEVICE_MASS1 =
     req_mask PS2_DRIVER_REQ_FILEXIO OR (req_mask PS2_DRIVER_REQ_USB OR req_mask PS2_DRIVER_REQ_MX4SIO)"
| "ps2_drivers_img_requirements_for_boot_device BOOT_DEVICE_MX4SIO =
     req_mask PS2_DRIVER_REQ_FILEXIO OR (req_mask PS2_DRIVER_REQ_USB OR req_mask PS2_DRIVER_REQ_MX4SIO)"
| "ps2_drivers_img_requirements_for_boot_device BOOT_DEVICE_MX4SIO0 =
     req_mask PS2_DRIVER_REQ_FILEXIO OR (req_mask PS2_DRIVER_REQ_USB OR req_mask PS2_DRIVER_REQ_MX4SIO)"
| "ps2_drivers_img_requirements_for_boot_device BOOT_DEVICE_MX4SIO1 =
     req_mask PS2_DRIVER_REQ_FILEXIO OR (req_mask PS2_DRIVER_REQ_USB OR req_mask PS2_DRIVER_REQ_MX4SIO)"
| "ps2_drivers_img_requirements_for_boot_device BOOT_DEVICE_HDD =
     req_mask PS2_DRIVER_REQ_FILEXIO OR (req_mask PS2_DRIVER_REQ_POWEROFF OR req_mask PS2_DRIVER_REQ_HDD)"
| "ps2_drivers_img_requirements_for_boot_device BOOT_DEVICE_HDD0 =
     req_mask PS2_DRIVER_REQ_FILEXIO OR (req_mask PS2_DRIVER_REQ_POWEROFF OR req_mask PS2_DRIVER_REQ_HDD)"
| "ps2_drivers_img_requirements_for_boot_device _ = req_mask PS2_DRIVER_REQ_FILEXIO"

text \<open>
  The functions with an out parameter \<^verbatim>\<open>uint32_t *requirements\<close> return the status and the
  value written through it, if any; \<open>out\<close> says that the pointer is not \<^verbatim>\<open>NULL\<close>.
\<close>

definition ps2_drivers_img_requirements_for_path ::
  "string option \<Rightarrow> u32 \<Rightarrow> bool \<Rightarrow> img_status \<times> u32 option" where
  "ps2_drivers_img_requirements_for_path path additional out =
     (if path = None \<or> \<not> out \<or> unknown_bits additional
      then (PS2_DRIVERS_IMG_ERR_ARGUMENT, None)
      else (PS2_DRIVERS_IMG_OK,
            Some (ps2_drivers_img_requirements_for_boot_device (getBootDeviceID path) OR additional)))"

definition ps2_drivers_img_requirements_for_current_boot ::
  "u32 \<Rightarrow> bool \<Rightarrow> ('o, 'z) world_scheme \<Rightarrow> img_status \<times> u32 option" where
  "ps2_drivers_img_requirements_for_current_boot additional out s =
     (if \<not> out \<or> unknown_bits additional then (PS2_DRIVERS_IMG_ERR_ARGUMENT, None)
      else case getcwd s of
             None \<Rightarrow> (PS2_DRIVERS_IMG_ERR_CWD, None)
           | Some dir \<Rightarrow> ps2_drivers_img_requirements_for_path (Some dir) additional out)"

subsection \<open>Expansion into module flags\<close>

text \<open>\<^verbatim>\<open>unsigned char requested[IRXIMG_MAX_ENTRIES + 1u]\<close>: 129 flags, indexed by module number.\<close>

definition IRXIMG_MAX_ENTRIES :: nat where
  "IRXIMG_MAX_ENTRIES = 128"

definition mark_module :: "u8 list \<Rightarrow> u32 \<Rightarrow> u8 list" where
  "mark_module requested n =
     (if n \<le> of_nat IRXIMG_MAX_ENTRIES then requested[unat n := 1] else requested)"

text \<open>One \<^verbatim>\<open>if (requirements & R) { mark_module(...); ... }\<close> block.\<close>

definition when_required ::
  "u32 \<Rightarrow> ps2_driver_requirement \<Rightarrow> irx list \<Rightarrow> u8 list \<Rightarrow> u8 list" where
  "when_required requirements r modules requested =
     (if requirements AND req_mask r \<noteq> 0
      then fold (\<lambda>m flags. mark_module flags (irx_id m)) modules requested
      else requested)"

definition expand_requirements :: "u32 \<Rightarrow> u8 list \<Rightarrow> u8 list" where
  "expand_requirements q requested =
    (let f = when_required q PS2_DRIVER_REQ_SIO2MAN [SIO2MAN] requested;
         f = when_required q PS2_DRIVER_REQ_FILEXIO [IOMANX, FILEXIO] f;
         f = when_required q PS2_DRIVER_REQ_MEMCARD [SIO2MAN, MCMAN, MCSERV] f;
         f = when_required q PS2_DRIVER_REQ_BDM [BDM, BDMFS_FATFS] f;
         f = when_required q PS2_DRIVER_REQ_USBD [USBD] f;
         f = when_required q PS2_DRIVER_REQ_USB [BDM, BDMFS_FATFS, USBD, USBMASS_BD] f;
         f = when_required q PS2_DRIVER_REQ_MX4SIO [SIO2MAN, BDM, BDMFS_FATFS, MX4SIO_BD] f;
         f = when_required q PS2_DRIVER_REQ_CDFS [CDFS] f;
         f = when_required q PS2_DRIVER_REQ_DEV9 [PS2DEV9] f;
         f = when_required q PS2_DRIVER_REQ_HDD
               [IOMANX, FILEXIO, BDM, BDMFS_FATFS, PS2DEV9, PS2ATAD, PS2HDD, PS2FS] f;
         f = when_required q PS2_DRIVER_REQ_JOYSTICK [SIO2MAN, MTAPMAN, PADMAN] f;
         f = when_required q PS2_DRIVER_REQ_AUDIO [LIBSD, AUDSRV] f;
         f = when_required q PS2_DRIVER_REQ_POWEROFF [POWEROFF] f;
         f = when_required q PS2_DRIVER_REQ_MOUSE [USBD, PS2MOUSE] f;
         f = when_required q PS2_DRIVER_REQ_KEYBOARD [USBD, PS2KBD] f;
         f = when_required q PS2_DRIVER_REQ_CAMERA [USBD, PS2CAM] f;
         f = when_required q PS2_DRIVER_REQ_NETMAN [NETMAN] f;
         f = when_required q PS2_DRIVER_REQ_SMAP [SMAP] f;
         f = when_required q PS2_DRIVER_REQ_EEIP [PS2DEV9, NETMAN, SMAP] f;
         f = when_required q PS2_DRIVER_REQ_IOPIP [PS2DEV9, NETMAN, SMAP, PS2IP_NM, PS2IPS] f
     in f)"

definition no_modules :: "u8 list" where
  "no_modules = replicate (Suc IRXIMG_MAX_ENTRIES) 0"

text \<open>The loop \<^verbatim>\<open>for (id = 1u; id <= IRXIMG_MAX_ENTRIES; ++id)\<close> over the marked modules.\<close>

definition requested_ids :: "u8 list \<Rightarrow> u32 list" where
  "requested_ids requested =
     map of_nat (filter (\<lambda>i. requested ! i \<noteq> 0) [1..<Suc IRXIMG_MAX_ENTRIES])"

subsection \<open>Specification of the expansion\<close>

primrec driver_closure :: "ps2_driver_requirement \<Rightarrow> irx list" where
  "driver_closure PS2_DRIVER_REQ_SIO2MAN = [SIO2MAN]"
| "driver_closure PS2_DRIVER_REQ_FILEXIO = [IOMANX, FILEXIO]"
| "driver_closure PS2_DRIVER_REQ_MEMCARD = [SIO2MAN, MCMAN, MCSERV]"
| "driver_closure PS2_DRIVER_REQ_BDM = [BDM, BDMFS_FATFS]"
| "driver_closure PS2_DRIVER_REQ_USBD = [USBD]"
| "driver_closure PS2_DRIVER_REQ_USB = [BDM, BDMFS_FATFS, USBD, USBMASS_BD]"
| "driver_closure PS2_DRIVER_REQ_MX4SIO = [SIO2MAN, BDM, BDMFS_FATFS, MX4SIO_BD]"
| "driver_closure PS2_DRIVER_REQ_CDFS = [CDFS]"
| "driver_closure PS2_DRIVER_REQ_DEV9 = [PS2DEV9]"
| "driver_closure PS2_DRIVER_REQ_HDD =
     [IOMANX, FILEXIO, BDM, BDMFS_FATFS, PS2DEV9, PS2ATAD, PS2HDD, PS2FS]"
| "driver_closure PS2_DRIVER_REQ_JOYSTICK = [SIO2MAN, MTAPMAN, PADMAN]"
| "driver_closure PS2_DRIVER_REQ_AUDIO = [LIBSD, AUDSRV]"
| "driver_closure PS2_DRIVER_REQ_POWEROFF = [POWEROFF]"
| "driver_closure PS2_DRIVER_REQ_MOUSE = [USBD, PS2MOUSE]"
| "driver_closure PS2_DRIVER_REQ_KEYBOARD = [USBD, PS2KBD]"
| "driver_closure PS2_DRIVER_REQ_CAMERA = [USBD, PS2CAM]"
| "driver_closure PS2_DRIVER_REQ_NETMAN = [NETMAN]"
| "driver_closure PS2_DRIVER_REQ_SMAP = [SMAP]"
| "driver_closure PS2_DRIVER_REQ_EEIP = [PS2DEV9, NETMAN, SMAP]"
| "driver_closure PS2_DRIVER_REQ_IOPIP = [PS2DEV9, NETMAN, SMAP, PS2IP_NM, PS2IPS]"

definition required_modules :: "u32 \<Rightarrow> irx set" where
  "required_modules q = {m. \<exists>r. bit q (req_bit r) \<and> m \<in> set (driver_closure r)}"

subsection \<open>Requirement masks\<close>

lemma set_all_requirements: "set all_requirements = UNIV"
proof -
  have "r \<in> set all_requirements" for r
    by (cases r) (simp_all add: all_requirements_def)
  then show ?thesis by auto
qed

lemma req_bit_less: "req_bit r < 20"
  by (cases r) simp_all

lemma req_bit_surj: "n < 20 \<Longrightarrow> \<exists>r. req_bit r = n"
proof -
  assume "n < 20"
  moreover have "map req_bit all_requirements = [0..<20]"
    by (simp add: all_requirements_def upt_rec)
  ultimately have "n \<in> set (map req_bit all_requirements)"
    by simp
  then show ?thesis by auto
qed

lemma req_bit_inject: "req_bit r = req_bit t \<longleftrightarrow> r = t"
proof -
  have "distinct (map req_bit all_requirements)"
    by (simp add: all_requirements_def)
  then show ?thesis
    by (auto simp: distinct_map set_all_requirements dest: injD)
qed

lemma and_req_mask: "q AND req_mask r \<noteq> 0 \<longleftrightarrow> bit q (req_bit r)"
  by (simp add: req_mask_def push_bit_eq_mult and_exp_eq_0_iff_not_bit)

lemma bit_req_mask: "bit (req_mask r) n \<longleftrightarrow> n = req_bit r"
  using req_bit_less [of r] by (auto simp: req_mask_def bit_simps)

lemma known_mask: "PS2_DRIVER_REQ_KNOWN_MASK = mask 20"
  by (simp add: PS2_DRIVER_REQ_KNOWN_MASK_def mask_eq_exp_minus_1)

lemma unknown_bits_iff: "unknown_bits q \<longleftrightarrow> (\<exists>n \<ge> 20. bit q n)"
proof -
  have "bit (q AND NOT (mask 20)) n \<longleftrightarrow> 20 \<le> n \<and> bit q n" for n
    by (auto simp: bit_simps dest: bit_imp_le_length)
  then show ?thesis
    by (simp add: unknown_bits_def known_mask u32_nonzero_bit)
qed

lemma unknown_bits_or: "unknown_bits (p OR q) \<longleftrightarrow> unknown_bits p \<or> unknown_bits q"
  by (auto simp: unknown_bits_iff bit_simps)

lemma known_req_mask [simp]: "\<not> unknown_bits (req_mask r)"
  using req_bit_less [of r] by (auto simp: unknown_bits_iff bit_req_mask)

lemma known_nonzero:
  assumes "q \<noteq> 0" and "\<not> unknown_bits q"
  shows "\<exists>r. bit q (req_bit r)"
proof -
  obtain n where "bit q n"
    using assms(1) by (auto simp: u32_nonzero_bit)
  moreover with assms(2) have "n < 20"
    by (auto simp: unknown_bits_iff not_le)
  ultimately show ?thesis
    using req_bit_surj by blast
qed

lemma known_boot_requirements [simp]:
  "\<not> unknown_bits (ps2_drivers_img_requirements_for_boot_device d)"
  by (cases d) (simp_all add: unknown_bits_or)

lemma boot_requirements_nonzero [simp]:
  "ps2_drivers_img_requirements_for_boot_device d \<noteq> 0"
  by (cases d) (simp_all add: req_mask_def)

lemma filesystem_all_known [simp]: "\<not> unknown_bits PS2_DRIVER_REQ_FILESYSTEM_ALL"
  by (simp add: PS2_DRIVER_REQ_FILESYSTEM_ALL_def unknown_bits_or)

subsection \<open>The expansion marks the union of the closures\<close>

lemma expand_requirements_fold:
  "expand_requirements q = fold (\<lambda>r. when_required q r (driver_closure r)) all_requirements"
  by (simp add: fun_eq_iff expand_requirements_def all_requirements_def Let_def)

lemma mark_irx [simp]: "mark_module flags (irx_id m) = flags[unat (irx_id m) := 1]"
proof -
  have "irx_id m \<le> of_nat IRXIMG_MAX_ENTRIES"
    using irx_id_bounds [of m] by (simp add: word_le_nat_alt IRXIMG_MAX_ENTRIES_def)
  then show ?thesis
    by (simp add: mark_module_def)
qed

lemma length_mark_fold [simp]:
  "length (fold (\<lambda>m flags. flags[unat (irx_id m) := 1]) ms flags) = length flags"
  by (induction ms arbitrary: flags) simp_all

lemma nth_mark_fold:
  "i < length flags \<Longrightarrow> fold (\<lambda>m flags. flags[unat (irx_id m) := 1]) ms flags ! i =
     (if \<exists>m \<in> set ms. unat (irx_id m) = i then 1 else flags ! i)"
  by (induction ms arbitrary: flags) (auto simp: nth_list_update)

lemma length_when_required [simp]: "length (when_required q r ms flags) = length flags"
  by (simp add: when_required_def)

lemma nth_when_required:
  "i < length flags \<Longrightarrow> when_required q r ms flags ! i =
     (if bit q (req_bit r) \<and> (\<exists>m \<in> set ms. unat (irx_id m) = i) then 1 else flags ! i)"
  by (simp add: when_required_def nth_mark_fold and_req_mask)

lemma length_fold_required [simp]:
  "length (fold (\<lambda>r. when_required q r (driver_closure r)) rs flags) = length flags"
  by (induction rs arbitrary: flags) simp_all

lemma nth_fold_required:
  "i < length flags \<Longrightarrow> fold (\<lambda>r. when_required q r (driver_closure r)) rs flags ! i =
     (if \<exists>r \<in> set rs. bit q (req_bit r) \<and> (\<exists>m \<in> set (driver_closure r). unat (irx_id m) = i)
      then 1 else flags ! i)"
  by (induction rs arbitrary: flags) (auto simp: nth_when_required)

lemma length_expand [simp]: "length (expand_requirements q flags) = length flags"
  by (simp add: expand_requirements_fold)

lemma length_no_modules [simp]: "length no_modules = 129"
  by (simp add: no_modules_def IRXIMG_MAX_ENTRIES_def)

lemma nth_expand:
  "i < 129 \<Longrightarrow> expand_requirements q no_modules ! i =
     (if \<exists>m \<in> required_modules q. unat (irx_id m) = i then 1 else 0)"
  by (auto simp: expand_requirements_fold nth_fold_required set_all_requirements
      required_modules_def no_modules_def IRXIMG_MAX_ENTRIES_def)

text \<open>The modules to stage: the required ones, each once, in the order of their numbers.\<close>

lemma expand_marked:
  "i \<in> {1..<129} \<and> expand_requirements q no_modules ! i \<noteq> 0 \<longleftrightarrow>
    i \<in> (\<lambda>m. unat (irx_id m)) ` required_modules q"
proof (cases "i < 129")
  case True
  have "expand_requirements q no_modules ! i \<noteq> 0 \<longleftrightarrow> i \<in> (\<lambda>m. unat (irx_id m)) ` required_modules q"
    unfolding nth_expand [OF True] by (auto split: if_splits)
  moreover have "i \<in> (\<lambda>m. unat (irx_id m)) ` required_modules q \<Longrightarrow> 1 \<le> i"
    using irx_id_bounds by (elim imageE) simp
  ultimately show ?thesis
    using True by (metis atLeastLessThan_iff)
next
  case False
  have "i \<notin> (\<lambda>m. unat (irx_id m)) ` required_modules q"
  proof
    assume "i \<in> (\<lambda>m. unat (irx_id m)) ` required_modules q"
    then obtain m where "i = unat (irx_id m)" by (elim imageE)
    then show False
      using irx_id_bounds [of m] False by linarith
  qed
  with False show ?thesis
    by (simp only: atLeastLessThan_iff simp_thms)
qed

lemma set_requested_ids:
  "set (requested_ids (expand_requirements q no_modules)) = irx_id ` required_modules q"
proof -
  have "set (requested_ids (expand_requirements q no_modules)) =
      of_nat ` {i. i \<in> {1..<129} \<and> expand_requirements q no_modules ! i \<noteq> 0}"
    by (simp only: requested_ids_def IRXIMG_MAX_ENTRIES_def set_map set_filter set_upt
        Suc_numeral numeral_plus_one semiring_norm)
  also have "\<dots> = of_nat ` (\<lambda>m. unat (irx_id m)) ` required_modules q"
    unfolding expand_marked by (simp only: Collect_mem_eq)
  finally show ?thesis
    by (simp add: image_image)
qed

lemma map_unat_requested_ids:
  "map unat (requested_ids flags) = filter (\<lambda>i. flags ! i \<noteq> 0) [1..<129]"
proof -
  have "map unat (requested_ids flags) = map id (filter (\<lambda>i. flags ! i \<noteq> 0) [1..<129])"
    unfolding requested_ids_def map_map
    by (rule map_cong) (auto simp: IRXIMG_MAX_ENTRIES_def unat_of_nat_u32 simp del: upt_Suc)
  then show ?thesis by simp
qed

lemma requested_ids_sorted: "sorted (map unat (requested_ids flags))"
  unfolding map_unat_requested_ids by (rule sorted_wrt_filter) (rule sorted_upt)

lemma requested_ids_distinct: "distinct (requested_ids flags)"
proof -
  have "distinct (map unat (requested_ids flags))"
    unfolding map_unat_requested_ids by (intro distinct_filter distinct_upt)
  then show ?thesis
    by (simp only: distinct_map)
qed

lemma requested_ids_range: "n \<in> set (requested_ids flags) \<Longrightarrow> 1 \<le> unat n \<and> unat n \<le> 128"
  by (auto simp: requested_ids_def IRXIMG_MAX_ENTRIES_def unat_of_nat_u32)

lemma required_modules_or: "required_modules (p OR q) = required_modules p \<union> required_modules q"
  by (auto simp: required_modules_def bit_simps)

lemma required_modules_mask [simp]: "required_modules (req_mask r) = set (driver_closure r)"
  by (auto simp: required_modules_def bit_req_mask) (metis req_bit_inject)

end
