(* ===== verification/Le_Bytes.thy ===== *)
theory Le_Bytes
  imports Ps2_Prelude
begin

text \<open>
  The four-byte little-endian encoding both programs use for every integer of the image
  (\<^verbatim>\<open>write_u32_le\<close> and \<^verbatim>\<open>read_u32_le\<close> of tools/ps2_irximg.c, the same
  \<^verbatim>\<open>read_u32_le\<close> in src/ps2_drivers_img.c), and that the two are inverse to each other.
  A pointer into a buffer is the buffer from that byte on; every caller has checked that
  four bytes are left.
\<close>

definition write_u32_le :: "u32 \<Rightarrow> u8 list" where
  "write_u32_le value =
     [ucast (value AND 0xff),
      ucast (drop_bit 8 value AND 0xff),
      ucast (drop_bit 16 value AND 0xff),
      ucast (drop_bit 24 value AND 0xff)]"

definition read_u32_le :: "u8 list \<Rightarrow> u32" where
  "read_u32_le src =
     ucast (src ! 0) OR
     push_bit 8 (ucast (src ! 1)) OR
     push_bit 16 (ucast (src ! 2)) OR
     push_bit 24 (ucast (src ! 3))"

text \<open>The field at a byte offset of a buffer, as in \<^verbatim>\<open>read_u32_le(header + 8u)\<close>.\<close>

abbreviation u32_at :: "nat \<Rightarrow> u8 list \<Rightarrow> u32" where
  "u32_at off buf \<equiv> read_u32_le (drop off buf)"

lemma length_write_u32_le [simp]: "length (write_u32_le v) = 4"
  by (simp add: write_u32_le_def)

lemma read_write_append [simp]: "read_u32_le (write_u32_le v @ rest) = v"
proof (rule bit_word_eqI)
  fix n :: nat
  assume "n < LENGTH(32)"
  then consider "n < 8" | "8 \<le> n" "n < 16" | "16 \<le> n" "n < 24" | "24 \<le> n" "n < 32"
    by fastforce
  then show "bit (read_u32_le (write_u32_le v @ rest)) n = bit v n"
    by cases (auto simp: read_u32_le_def write_u32_le_def bit_simps)
qed

lemma read_write [simp]: "read_u32_le (write_u32_le v) = v"
  using read_write_append [of v "[]"] by simp

lemma write_read_quad: "write_u32_le (read_u32_le (a # b # c # d # rest)) = [a, b, c, d]"
  by (auto simp: read_u32_le_def write_u32_le_def bit_simps intro!: bit_word_eqI)

lemma write_read: 
  assumes "4 \<le> length bs"
  shows "write_u32_le (read_u32_le bs) = take 4 bs"
proof -
  obtain a b c d rest where "bs = a # b # c # d # rest"
    using assms by (auto simp: numeral_eq_Suc Suc_le_length_iff)
  then show ?thesis
    by (simp add: write_read_quad)
qed

lemma read_u32_le_take: "4 \<le> n \<Longrightarrow> 4 \<le> length bs \<Longrightarrow> read_u32_le (take n bs) = read_u32_le bs"
  by (simp add: read_u32_le_def)

end
