(* ===== verification/Crc32.thy ===== *)
theory Crc32
  imports Le_Bytes
begin

text \<open>
  The CRC-32 of both programs: \<^verbatim>\<open>crc32_update\<close> and \<^verbatim>\<open>crc32_bytes\<close> of
  tools/ps2_irximg.c and the \<^verbatim>\<open>crc32_bytes\<close> of src/ps2_drivers_img.c, bit by bit
  as the code computes it. The lemmas show that the two agree, that the checksum of a
  concatenation is computed piece by piece, that the state transition is a bijection that is
  linear over exclusive or, and from that the guarantee the image format relies on: no
  change confined to four consecutive bytes goes unnoticed.
\<close>

text \<open>One turn of the inner loop.\<close>

definition crc_bit :: "u32 \<Rightarrow> u32" where
  "crc_bit crc = (let mask = - (crc AND 1) in drop_bit 1 crc XOR (0xedb88320 AND mask))"

text \<open>One turn of the outer loop: exclusive or with the byte, then eight inner turns.\<close>

definition crc_byte :: "u32 \<Rightarrow> u8 \<Rightarrow> u32" where
  "crc_byte crc b = (crc_bit ^^ 8) (crc XOR ucast b)"

definition crc32_update :: "u32 \<Rightarrow> u8 list \<Rightarrow> u32" where
  "crc32_update crc data = NOT (foldl crc_byte (NOT crc) data)"

definition tool_crc32_bytes :: "u8 list \<Rightarrow> u32" where
  "tool_crc32_bytes data = crc32_update 0 data"

definition crc32_bytes :: "u8 list \<Rightarrow> u32" where
  "crc32_bytes data = NOT (foldl crc_byte (NOT 0) data)"

text \<open>Not in the code: the bytes as one number, least significant first, for the proofs.\<close>

fun le_word :: "u8 list \<Rightarrow> u32" where
  "le_word [] = 0"
| "le_word (b # bs) = ucast b XOR push_bit 8 (le_word bs)"

definition crc_unbit :: "u32 \<Rightarrow> u32" where
  "crc_unbit d = (if bit d 31 then 2 * (d XOR 0xedb88320) + 1 else 2 * d)"

subsection \<open>The inner loop\<close>

lemma crc_bit_alt: "crc_bit c = (if bit c 0 then drop_bit 1 c XOR 0xedb88320 else drop_bit 1 c)"
  by (simp add: crc_bit_def and_one_eq mod_2_eq_odd bit_0)

lemma crc_bit_top: "bit (crc_bit c) 31 = bit c 0"
  by (auto simp: crc_bit_alt bit_simps)

lemma crc_unbit_bit: "crc_unbit (crc_bit c) = c"
proof -
  have "2 * drop_bit 1 c + c mod 2 = c"
    using mult_div_mod_eq [of 2 c] by (simp add: drop_bit_Suc)
  moreover have "crc_unbit (crc_bit c) =
      (if bit c 0 then 2 * (crc_bit c XOR 0xedb88320) + 1 else 2 * crc_bit c)"
    by (simp only: crc_unbit_def crc_bit_top)
  ultimately show ?thesis
    by (cases "odd c") (simp_all add: crc_bit_alt xor.assoc bit_0
        odd_iff_mod_2_eq_one even_iff_mod_2_eq_zero)
qed

lemma inj_crc_bit: "inj crc_bit"
  by (rule inj_on_inverseI [where g = crc_unbit]) (simp add: crc_unbit_bit)

lemma crc_bit_xor: "crc_bit (x XOR y) = crc_bit x XOR crc_bit y"
  by (auto simp: crc_bit_alt bit_simps drop_bit_xor xor.assoc xor.commute xor.left_commute)

lemma crc_bit_shift:
  assumes "\<And>i. bit x i \<Longrightarrow> i < 24" and "n < 8"
  shows "crc_bit (push_bit (Suc n) x) = push_bit n x"
proof (rule bit_word_eqI)
  fix i :: nat
  assume "i < LENGTH(32)"
  moreover have "bit x (i - n) \<Longrightarrow> i < 31"
    using assms(1) [of "i - n"] assms(2) by linarith
  ultimately show "bit (crc_bit (push_bit (Suc n) x)) i = bit (push_bit n x) i"
    by (auto simp: crc_bit_alt bit_simps simp del: push_bit_Suc)
qed

lemma funpow_crc_bit_xor: "(crc_bit ^^ n) (x XOR y) = (crc_bit ^^ n) x XOR (crc_bit ^^ n) y"
  by (induction n) (simp_all add: crc_bit_xor)

lemma funpow_crc_bit_shift:
  "(\<And>i. bit x i \<Longrightarrow> i < 24) \<Longrightarrow> n \<le> 8 \<Longrightarrow> (crc_bit ^^ n) (push_bit n x) = x"
proof (induction n)
  case 0
  then show ?case by simp
next
  case (Suc n)
  then have "crc_bit (push_bit (Suc n) x) = push_bit n x"
    by (intro crc_bit_shift) auto
  with Suc show ?case
    by (simp add: funpow_swap1 del: push_bit_Suc)
qed

lemma inj_funpow_crc_bit: "inj (crc_bit ^^ n)"
proof (induction n)
  case 0
  then show ?case by simp
next
  case (Suc n)
  then show ?case
    using inj_compose [OF inj_crc_bit Suc.IH] by (simp add: comp_def)
qed

subsection \<open>Up to four bytes at once\<close>

lemma le_word_bits: "bit (le_word bs) i \<Longrightarrow> i < 8 * length bs"
proof (induction bs arbitrary: i)
  case Nil
  then show ?case by simp
next
  case (Cons b bs)
  then have "bit b i \<or> 8 \<le> i \<and> bit (le_word bs) (i - 8)"
    by (auto simp: bit_simps)
  then show ?case
    using Cons.IH [of "i - 8"] by (auto dest: bit_imp_le_length)
qed

lemma le_word_inj:
  "length xs = length ys \<Longrightarrow> length xs \<le> 4 \<Longrightarrow> le_word xs = le_word ys \<Longrightarrow> xs = ys"
proof (induction xs ys rule: list_induct2)
  case Nil
  then show ?case by simp
next
  case (Cons x xs y ys)
  have bits: "bit (le_word (x # xs)) i = bit (le_word (y # ys)) i" for i
    using Cons.prems by simp
  have "x = y"
  proof (rule bit_word_eqI)
    fix i :: nat
    assume "i < LENGTH(8)"
    then show "bit x i = bit y i"
      using bits [of i] by (auto simp: bit_simps)
  qed
  moreover have "le_word xs = le_word ys"
  proof (rule bit_word_eqI)
    fix i :: nat
    show "bit (le_word xs) i = bit (le_word ys) i"
    proof (cases "i < 24")
      case True
      then show ?thesis
        using bits [of "i + 8"] by (auto simp: bit_simps)
    next
      case False
      then show ?thesis
        using le_word_bits [of xs i] le_word_bits [of ys i] Cons by fastforce
    qed
  qed
  ultimately show ?case
    using Cons by simp
qed

lemma crc_bytes_le_word:
  "length bs \<le> 4 \<Longrightarrow> foldl crc_byte c bs = (crc_bit ^^ (8 * length bs)) (c XOR le_word bs)"
proof (induction bs arbitrary: c)
  case Nil
  then show ?case by simp
next
  case (Cons b bs)
  have "(crc_bit ^^ 8) (push_bit 8 (le_word bs)) = le_word bs"
    using Cons.prems by (intro funpow_crc_bit_shift) (auto dest!: le_word_bits)
  then have "crc_byte c b XOR le_word bs = (crc_bit ^^ 8) (c XOR le_word (b # bs))"
    by (simp add: crc_byte_def funpow_crc_bit_xor xor.assoc)
  with Cons show ?case
    by (simp only: length_Cons mult_Suc_right add.commute [of 8] funpow_add comp_def foldl_Cons)
qed

lemma inj_crc_byte: "inj (\<lambda>c. crc_byte c b)"
  by (auto simp: inj_def crc_byte_def xor_u32_cancel dest!: injD [OF inj_funpow_crc_bit])

lemma crc_bytes_state_inj: "foldl crc_byte c bs = foldl crc_byte d bs \<Longrightarrow> c = d"
  by (induction bs arbitrary: c d) (auto dest: injD [OF inj_crc_byte])

lemma foldl_crc_window:
  assumes "length xs = length ys" and "length xs \<le> 4" and "xs \<noteq> ys"
  shows "foldl crc_byte c (pre @ xs @ post) \<noteq> foldl crc_byte c (pre @ ys @ post)"
proof
  assume "foldl crc_byte c (pre @ xs @ post) = foldl crc_byte c (pre @ ys @ post)"
  then have "foldl crc_byte (foldl crc_byte c pre) xs = foldl crc_byte (foldl crc_byte c pre) ys"
    by (auto dest: crc_bytes_state_inj)
  then have "le_word xs = le_word ys"
    using assms by (auto simp: crc_bytes_le_word xor_u32_cancel dest!: injD [OF inj_funpow_crc_bit])
  then show False
    using assms le_word_inj by blast
qed

subsection \<open>The checksums\<close>

lemma crc32_update_append: "crc32_update crc (xs @ ys) = crc32_update (crc32_update crc xs) ys"
  by (simp add: crc32_update_def)

lemma crc32_update_Nil [simp]: "crc32_update crc [] = crc"
  by (simp add: crc32_update_def)

lemma crc32_bytes_eq_tool: "crc32_bytes data = tool_crc32_bytes data"
  by (simp add: crc32_bytes_def tool_crc32_bytes_def crc32_update_def)


end
