(* ===== verification/Image_Format.thy ===== *)
theory Image_Format
  imports Requirements Crc32
begin

text \<open>
  Reading an IRX image at run time (include/ps2_irx_image_format.h and
  \<^verbatim>\<open>read_u32_le\<close>, \<^verbatim>\<open>parse_image_entries\<close>, \<^verbatim>\<open>find_entry\<close> of
  src/ps2_drivers_img.c): the format constants, the contents of heap blocks, and the parser.
  \<^verbatim>\<open>parse_image_entries\<close> is split where the code is: the check of the header fields
  (\<open>header_ok\<close>), the loop over the entry table (\<open>parse_entries\<close>) and the function itself, which
  reads, allocates and releases. The lemmas show what an accepted image guarantees: every
  entry lies inside the file, behind the table, aligned, with a number of its own; no 32-bit
  sum in the checks wraps; and whatever fails, nothing stays allocated.
\<close>

subsection \<open>The format\<close>

definition IRXIMG_MAGIC :: "u8 list" where
  "IRXIMG_MAGIC = map of_char ''PS2IRX01''"

definition IRXIMG_VERSION :: u32 where "IRXIMG_VERSION = 1"
definition IRXIMG_HEADER_SIZE :: u32 where "IRXIMG_HEADER_SIZE = 44"
definition IRXIMG_ENTRY_SIZE :: u32 where "IRXIMG_ENTRY_SIZE = 20"
definition IRXIMG_ALIGNMENT :: u32 where "IRXIMG_ALIGNMENT = 16"
definition UINT32_MAX :: u32 where "UINT32_MAX = 0xffffffff"

lemmas format_defs = IRXIMG_VERSION_def IRXIMG_HEADER_SIZE_def IRXIMG_ENTRY_SIZE_def
  IRXIMG_ALIGNMENT_def UINT32_MAX_def IRXIMG_MAX_ENTRIES_def

record irx_image_entry =
  e_id :: u32
  e_offset :: u32
  e_size :: u32
  e_crc32 :: u32
  e_flags :: u32

record irx_staged_module =
  sm_id :: u32
  sm_data :: nat
  sm_size :: u32

text \<open>What a heap block of the image provider holds.\<close>

datatype img_block =
    Uninit
  | Bytes "u8 list"
  | Path string
  | Entries "irx_image_entry list"
  | Modules "irx_staged_module list"

record irx_image_header =
  h_version :: u32
  h_header_size :: u32
  h_entry_count :: u32
  h_entry_size :: u32
  h_entry_table_offset :: u32
  h_payload_offset :: u32
  h_declared_file_size :: u32
  h_flags :: u32

definition read_header :: "u8 list \<Rightarrow> irx_image_header" where
  "read_header header =
     \<lparr>h_version = u32_at 8 header,
      h_header_size = u32_at 12 header,
      h_entry_count = u32_at 16 header,
      h_entry_size = u32_at 20 header,
      h_entry_table_offset = u32_at 24 header,
      h_payload_offset = u32_at 28 header,
      h_declared_file_size = u32_at 32 header,
      h_flags = u32_at 36 header\<rparr>"

text \<open>The magic and the two field checks; false is \<^verbatim>\<open>PS2_DRIVERS_IMG_ERR_FORMAT\<close>.\<close>

definition header_ok :: "u8 list \<Rightarrow> u32 \<Rightarrow> bool" where
  "header_ok header file_size =
     (let h = read_header header in
      \<not> (take 8 header \<noteq> IRXIMG_MAGIC) \<and>
      \<not> (h_version h \<noteq> IRXIMG_VERSION \<or>
         h_header_size h \<noteq> IRXIMG_HEADER_SIZE \<or>
         h_entry_size h \<noteq> IRXIMG_ENTRY_SIZE \<or>
         h_entry_table_offset h \<noteq> IRXIMG_HEADER_SIZE \<or>
         h_entry_count h = 0 \<or>
         h_entry_count h > of_nat IRXIMG_MAX_ENTRIES \<or>
         h_flags h \<noteq> 0 \<or>
         h_declared_file_size h \<noteq> file_size) \<and>
      \<not> (h_entry_count h > (UINT32_MAX - h_entry_table_offset h) div h_entry_size h \<or>
         h_entry_table_offset h + h_entry_count h * h_entry_size h > file_size \<or>
         h_payload_offset h < h_entry_table_offset h + h_entry_count h * h_entry_size h \<or>
         h_payload_offset h > file_size \<or>
         h_payload_offset h AND (IRXIMG_ALIGNMENT - 1) \<noteq> 0))"

definition read_entry :: "u8 list \<Rightarrow> irx_image_entry" where
  "read_entry raw =
     \<lparr>e_id = u32_at 0 raw, e_offset = u32_at 4 raw, e_size = u32_at 8 raw,
      e_crc32 = u32_at 12 raw, e_flags = u32_at 16 raw\<rparr>"

definition entry_bad :: "u32 \<Rightarrow> u32 \<Rightarrow> irx_image_entry \<Rightarrow> bool" where
  "entry_bad payload_offset file_size e \<longleftrightarrow>
     e_id e = 0 \<or>
     e_size e = 0 \<or>
     e_flags e \<noteq> 0 \<or>
     e_offset e < payload_offset \<or>
     e_offset e > file_size \<or>
     e_offset e AND (IRXIMG_ALIGNMENT - 1) \<noteq> 0 \<or>
     e_size e > file_size - e_offset e"

text \<open>
  The loop over the table: \<open>n\<close> entries are left, \<open>entries\<close> are done. The inner loop compares
  the new number with those before it.
\<close>

fun parse_entries ::
  "u8 list \<Rightarrow> u32 \<Rightarrow> u32 \<Rightarrow> nat \<Rightarrow> irx_image_entry list \<Rightarrow> irx_image_entry list option" where
  "parse_entries table payload_offset file_size 0 entries = Some entries"
| "parse_entries table payload_offset file_size (Suc n) entries =
     (let e = read_entry (drop (length entries * unat IRXIMG_ENTRY_SIZE) table) in
      if entry_bad payload_offset file_size e then None
      else if list_ex (\<lambda>d. e_id d = e_id e) entries then None
      else parse_entries table payload_offset file_size n (entries @ [e]))"

text \<open>
  The second half of \<^verbatim>\<open>parse_image_entries\<close>, once the buffers \<open>table\<close> and \<open>entries\<close> are
  allocated: read the table, parse it, and release what is not handed out.
\<close>

definition load_entry_table ::
  "irx_image_header \<Rightarrow> u32 \<Rightarrow> nat \<Rightarrow> nat \<Rightarrow> cfile \<Rightarrow> (img_block, 'z) world_scheme \<Rightarrow>
   (img_status \<times> nat \<times> u32) \<times> cfile \<times> (img_block, 'z) world_scheme" where
  "load_entry_table h file_size table entries file s =
    (case seek_read (unat (h_entry_table_offset h)) (unat IRXIMG_ENTRY_SIZE)
            (unat (h_entry_count h)) file s of
       (None, f1, s1) \<Rightarrow> ((PS2_DRIVERS_IMG_ERR_IO, 0, 0), f1, free entries (free table s1))
     | (Some raw, f1, s1) \<Rightarrow>
         let s2 = store table (Bytes raw) s1 in
         case parse_entries raw (h_payload_offset h) file_size (unat (h_entry_count h)) [] of
           None \<Rightarrow> ((PS2_DRIVERS_IMG_ERR_FORMAT, 0, 0), f1, free entries (free table s2))
         | Some es \<Rightarrow>
             ((PS2_DRIVERS_IMG_OK, entries, h_entry_count h), f1,
              free table (store entries (Entries es) s2)))"

text \<open>
  \<^verbatim>\<open>parse_image_entries\<close>: the status and, when it is OK, the address of the entry array
  and the number of entries.
\<close>

definition parse_image_entries ::
  "cfile \<Rightarrow> u32 \<Rightarrow> (img_block, 'z) world_scheme \<Rightarrow>
   (img_status \<times> nat \<times> u32) \<times> cfile \<times> (img_block, 'z) world_scheme" where
  "parse_image_entries file file_size s =
    (case seek_read 0 1 (unat IRXIMG_HEADER_SIZE) file s of
       (None, f1, s1) \<Rightarrow> ((PS2_DRIVERS_IMG_ERR_IO, 0, 0), f1, s1)
     | (Some header, f1, s1) \<Rightarrow>
         if \<not> header_ok header file_size then ((PS2_DRIVERS_IMG_ERR_FORMAT, 0, 0), f1, s1)
         else
           let (table, s2) = malloc Uninit s1;
               (entries, s3) = malloc Uninit s2
           in if table = 0 \<or> entries = 0 then
                ((PS2_DRIVERS_IMG_ERR_MEMORY, 0, 0), f1, free entries (free table s3))
              else load_entry_table (read_header header) file_size table entries f1 s3)"

primrec find_entry :: "irx_image_entry list \<Rightarrow> u32 \<Rightarrow> irx_image_entry option" where
  "find_entry [] n = None"
| "find_entry (e # es) n = (if e_id e = n then Some e else find_entry es n)"

subsection \<open>Specification: the directory of an image\<close>

text \<open>
  Without the file, the allocations and the loop: the raw entries of the table, and the
  directory they form when they are all acceptable and have different numbers.
\<close>

definition raw_entries :: "u8 list \<Rightarrow> nat \<Rightarrow> irx_image_entry list" where
  "raw_entries table n = map (\<lambda>i. read_entry (drop (i * 20) table)) [0..<n]"

definition image_directory :: "u8 list \<Rightarrow> irx_image_entry list option" where
  "image_directory img =
     (let fsz = of_nat (length img);
          h = read_header (take 44 img);
          n = unat (h_entry_count h);
          es = raw_entries (bytes_at 44 (20 * n) img) n
      in if length img < 44 \<or> \<not> header_ok (take 44 img) fsz then None
         else if list_ex (entry_bad (h_payload_offset h) fsz) es \<or> \<not> distinct (map e_id es)
         then None
         else Some es)"

text \<open>What every entry of a directory satisfies, read as plain numbers.\<close>

definition entry_wf :: "nat \<Rightarrow> irx_image_entry list \<Rightarrow> irx_image_entry \<Rightarrow> bool" where
  "entry_wf fsz es e \<longleftrightarrow>
     e_id e \<noteq> 0 \<and> 0 < unat (e_size e) \<and>
     44 + 20 * length es \<le> unat (e_offset e) \<and> 16 dvd unat (e_offset e) \<and>
     unat (e_offset e) + unat (e_size e) \<le> fsz"

subsection \<open>The header\<close>

lemma header_ok_bounds:
  assumes "header_ok header file_size"
  defines "h \<equiv> read_header header"
  shows "1 \<le> unat (h_entry_count h)" and "unat (h_entry_count h) \<le> 128"
    and "h_entry_table_offset h = 44" and "h_entry_size h = 20"
    and "44 + 20 * unat (h_entry_count h) \<le> unat (h_payload_offset h)"
    and "unat (h_payload_offset h) \<le> unat file_size"
    and "16 dvd unat (h_payload_offset h)"
proof -
  have fields: "h_entry_table_offset h = 44" "h_entry_size h = 20" "h_entry_count h \<noteq> 0"
      "h_entry_count h \<le> 128" "h_payload_offset h \<le> file_size"
      "44 + h_entry_count h * 20 \<le> h_payload_offset h" "h_payload_offset h AND 15 = 0"
    using assms(1) unfolding h_def
    by (auto simp: header_ok_def Let_def format_defs not_less)
  then show "h_entry_table_offset h = 44" "h_entry_size h = 20"
    by simp_all
  show "1 \<le> unat (h_entry_count h)"
    using fields(3) by (simp add: Suc_le_eq unat_gt_0)
  show le: "unat (h_entry_count h) \<le> 128"
    using fields(4) by (simp add: word_le_nat_alt)
  show "unat (h_payload_offset h) \<le> unat file_size"
    using fields(5) by (simp add: word_le_nat_alt)
  show "16 dvd unat (h_payload_offset h)"
    using fields(7) by (simp add: and_15_eq_0)
  have "unat (h_entry_count h * 20) = unat (h_entry_count h) * 20"
    using le by (subst unat_mult_u32) auto
  then have "unat (44 + h_entry_count h * 20) = 44 + 20 * unat (h_entry_count h)"
    using le by (subst unat_add_u32) auto
  then show "44 + 20 * unat (h_entry_count h) \<le> unat (h_payload_offset h)"
    using fields(6) by (simp add: word_le_nat_alt)
qed

lemma not_entry_bad:
  assumes "\<not> entry_bad payload_offset file_size e"
  shows "e_id e \<noteq> 0" and "0 < unat (e_size e)" and "e_flags e = 0"
    and "unat payload_offset \<le> unat (e_offset e)" and "16 dvd unat (e_offset e)"
    and "unat (e_offset e) + unat (e_size e) \<le> unat file_size"
proof -
  have e: "e_id e \<noteq> 0" "e_size e \<noteq> 0" "e_flags e = 0" "payload_offset \<le> e_offset e"
      "e_offset e \<le> file_size" "e_offset e AND 15 = 0" "e_size e \<le> file_size - e_offset e"
    using assms by (simp_all add: entry_bad_def format_defs not_less)
  then show "e_id e \<noteq> 0" "e_flags e = 0"
    by simp_all
  show "0 < unat (e_size e)" "unat payload_offset \<le> unat (e_offset e)" "16 dvd unat (e_offset e)"
    using e by (simp_all add: unat_gt_0 word_le_nat_alt and_15_eq_0)
  have "unat (e_size e) \<le> unat file_size - unat (e_offset e)"
    using e by (simp add: word_le_nat_alt unat_sub_u32)
  moreover have "unat (e_offset e) \<le> unat file_size"
    using e by (simp add: word_le_nat_alt)
  ultimately show "unat (e_offset e) + unat (e_size e) \<le> unat file_size"
    by simp
qed

subsection \<open>The entry table\<close>

lemma raw_entries_Suc:
  "raw_entries table (Suc n) = raw_entries table n @ [read_entry (drop (n * 20) table)]"
  by (simp add: raw_entries_def)

lemma length_raw_entries [simp]: "length (raw_entries table n) = n"
  by (simp add: raw_entries_def)

lemma parse_entries_raw:
  assumes "entries = raw_entries table k" and "k + n = m"
    and "\<not> list_ex (entry_bad po fsz) entries" and "distinct (map e_id entries)"
  shows "parse_entries table po fsz n entries =
     (let es = raw_entries table m in
      if list_ex (entry_bad po fsz) es \<or> \<not> distinct (map e_id es) then None else Some es)"
  using assms
proof (induction n arbitrary: entries k)
  case 0
  then show ?case by simp
next
  case (Suc n)
  let ?e = "read_entry (drop (k * 20) table)"
  have prefix: "raw_entries table m = entries @ ?e # map (\<lambda>i. read_entry (drop (i * 20) table)) [Suc k..<m]"
  proof -
    have "[0..<m] = [0..<k] @ k # [Suc k..<m]"
      using Suc.prems(2) upt_add_eq_append [of 0 k "Suc n"] by (simp add: upt_conv_Cons)
    then show ?thesis
      using Suc.prems(1) by (simp add: raw_entries_def)
  qed
  show ?case
  proof (cases "entry_bad po fsz ?e \<or> list_ex (\<lambda>d. e_id d = e_id ?e) entries")
    case True
    then have "list_ex (entry_bad po fsz) (raw_entries table m) \<or>
        \<not> distinct (map e_id (raw_entries table m))"
      unfolding prefix by (auto simp: list_ex_iff rev_image_eqI)
    with True Suc.prems(1) show ?thesis
      by (auto simp: Let_def format_defs)
  next
    case False
    have "parse_entries table po fsz n (entries @ [?e]) =
        (let es = raw_entries table m in
         if list_ex (entry_bad po fsz) es \<or> \<not> distinct (map e_id es) then None else Some es)"
      using False Suc.prems by (intro Suc.IH [of _ "Suc k"]) (auto simp: raw_entries_Suc list_ex_iff)
    with False Suc.prems(1) show ?thesis
      by (simp add: Let_def format_defs)
  qed
qed

lemma find_entry_Some: "find_entry es n = Some e \<Longrightarrow> e \<in> set es \<and> e_id e = n"
  by (induction es) (auto split: if_splits)

lemma find_entry_None: "find_entry es n = None \<longleftrightarrow> n \<notin> e_id ` set es"
  by (induction es) auto

lemma find_entry_distinct: "distinct (map e_id es) \<Longrightarrow> e \<in> set es \<Longrightarrow> find_entry es (e_id e) = Some e"
  by (induction es) auto

lemma image_directory_wf:
  assumes "image_directory img = Some es" and "length img < 4294967296"
  shows "es \<noteq> []" and "length es \<le> 128" and "distinct (map e_id es)"
    and "e \<in> set es \<Longrightarrow> entry_wf (length img) es e"
proof -
  let ?fsz = "of_nat (length img) :: u32" and ?h = "read_header (take 44 img)"
  have ok: "header_ok (take 44 img) ?fsz" and dist: "distinct (map e_id es)"
    and good: "\<forall>e \<in> set es. \<not> entry_bad (h_payload_offset ?h) ?fsz e"
    and len: "length es = unat (h_entry_count ?h)"
    using assms(1) by (auto simp: image_directory_def Let_def list_ex_iff split: if_splits)
  note hb = header_ok_bounds [OF ok]
  show "es \<noteq> []" "length es \<le> 128"
    using hb(1,2) len by auto
  show "distinct (map e_id es)" by (fact dist)
  assume "e \<in> set es"
  then have nb: "\<not> entry_bad (h_payload_offset ?h) ?fsz e"
    using good by blast
  show "entry_wf (length img) es e"
    using not_entry_bad [OF nb] hb len assms(2) by (auto simp: entry_wf_def unat_of_nat_u32)
qed

subsection \<open>Reading the directory\<close>

lemma parse_entries_directory:
  assumes "header_ok (take 44 img) (of_nat (length img))" and "44 \<le> length img"
  defines "h \<equiv> read_header (take 44 img)"
  shows "parse_entries (bytes_at 44 (20 * unat (h_entry_count h)) img) (h_payload_offset h)
           (of_nat (length img)) (unat (h_entry_count h)) [] = image_directory img"
  using assms(1,2) unfolding h_def
  by (subst parse_entries_raw [where k = 0])
    (auto simp: image_directory_def raw_entries_def Let_def)

lemma image_directory_length:
  "image_directory img = Some es \<Longrightarrow> length es = unat (h_entry_count (read_header (take 44 img)))"
  by (auto simp: image_directory_def Let_def split: if_splits)

lemma load_entry_table_result:
  assumes run: "load_entry_table h (of_nat (length (f_data file))) table entries file s =
      ((st, addr, n), g, t)"
    and ok: "header_ok (take 44 (f_data file)) (of_nat (length (f_data file)))"
    and h: "h = read_header (take 44 (f_data file))"
    and len: "44 \<le> length (f_data file)" "length (f_data file) < 4294967296"
    and live: "heap s = H(table \<mapsto> u, entries \<mapsto> v)" "table \<noteq> entries"
      "H table = None" "H entries = None"
    and wf: "heap_wf s"
  shows "evolves s t \<and> heap_wf t \<and> f_data g = f_data file \<and>
    (if st = PS2_DRIVERS_IMG_OK
     then \<exists>es. image_directory (f_data file) = Some es \<and> addr = entries \<and>
       heap t = H(entries \<mapsto> Entries es) \<and> unat n = length es
     else heap t = H \<and>
       (st = PS2_DRIVERS_IMG_ERR_IO \<and> \<not> all_succeed s \<or>
        st = PS2_DRIVERS_IMG_ERR_FORMAT \<and> image_directory (f_data file) = None))"
proof -
  let ?img = "f_data file"
  note hb = header_ok_bounds [OF ok, folded h]
  have in_file: "44 + 20 * unat (h_entry_count h) \<le> length ?img"
    using hb(5,6) len by (simp add: unat_of_nat_u32)
  obtain r f1 s1 where rd: "seek_read 44 20 (unat (h_entry_count h)) file s = (r, f1, s1)"
    by (metis prod_cases3)
  have rd_eff: "evolves s s1" "heap s1 = heap s" "brk s1 = brk s" "f_data f1 = ?img"
    using seek_read_effect(1,2) [OF rd] hb(1) by (simp_all add: calls_only_evolves)
  have wf1: "heap_wf s1"
    using heap_wf_eq [OF rd_eff(2,3)] wf by simp
  note def = load_entry_table_def format_defs hb(3)
  show ?thesis
  proof (cases r)
    case None
    then have "\<not> all_succeed s"
      using seek_read_effect(4) [OF rd] hb(1) in_file by (auto simp: mult.commute)
    moreover from run rd None have "t = free entries (free table s1)" "g = f1" "st = PS2_DRIVERS_IMG_ERR_IO"
      by (simp_all add: def)
    moreover have "evolves s1 (free table s1) \<and> heap (free table s1) = H(entries \<mapsto> v) \<and> heap_wf (free table s1)"
      using free_live [of s1 table u] wf1 rd_eff(2) live by (simp add: fun_upd_twist fun_upd_idem)
    moreover from this have "evolves (free table s1) t \<and> heap t = H \<and> heap_wf t"
      using free_live [of "free table s1" entries v] live by (simp add: calculation(2) fun_upd_idem)
    ultimately show ?thesis
      using rd_eff by (auto intro: evolves_trans)
  next
    case (Some raw)
    have raw: "raw = bytes_at 44 (20 * unat (h_entry_count h)) ?img"
      using seek_read_effect(3) [OF rd _ _ Some] hb(1) by simp
    have parse: "parse_entries raw (h_payload_offset h) (of_nat (length ?img)) (unat (h_entry_count h)) [] =
        image_directory ?img"
      unfolding raw h using parse_entries_directory [OF ok len(1)] by simp
    let ?s2 = "store table (Bytes raw) s1"
    have s2: "evolves s1 ?s2 \<and> heap ?s2 = H(table \<mapsto> Bytes raw, entries \<mapsto> v) \<and> heap_wf ?s2"
      using store_live [of s1 table u "Bytes raw"] wf1 rd_eff(2) live by (simp add: fun_upd_twist fun_upd_idem)
    show ?thesis
    proof (cases "image_directory ?img")
      case None
      then have "t = free entries (free table ?s2)" "g = f1" "st = PS2_DRIVERS_IMG_ERR_FORMAT"
        using run rd Some parse by (simp_all add: def Let_def)
      moreover have f: "evolves ?s2 (free table ?s2) \<and> heap (free table ?s2) = H(entries \<mapsto> v) \<and>
          heap_wf (free table ?s2)"
        using free_live [of ?s2 table "Bytes raw"] s2 live by (simp add: fun_upd_twist fun_upd_idem)
      moreover have "evolves (free table ?s2) (free entries (free table ?s2)) \<and>
          heap (free entries (free table ?s2)) = H \<and> heap_wf (free entries (free table ?s2))"
        using free_live [of "free table ?s2" entries v] f live by (simp add: fun_upd_idem)
      ultimately show ?thesis
        using rd_eff s2 None by (auto intro: evolves_trans)
    next
      case (Some es)
      let ?s3 = "store entries (Entries es) ?s2"
      have "t = free table ?s3" "g = f1" "st = PS2_DRIVERS_IMG_OK" "addr = entries" "n = h_entry_count h"
        using run rd \<open>r = Some raw\<close> parse Some by (auto simp: def Let_def)
      moreover have f: "evolves ?s2 ?s3 \<and> heap ?s3 = H(table \<mapsto> Bytes raw, entries \<mapsto> Entries es) \<and> heap_wf ?s3"
        using store_live [of ?s2 entries v "Entries es"] s2 by simp
      moreover have "evolves ?s3 (free table ?s3) \<and> heap (free table ?s3) = H(entries \<mapsto> Entries es) \<and>
          heap_wf (free table ?s3)"
        using free_live [of ?s3 table "Bytes raw"] f live by (simp add: fun_upd_twist fun_upd_idem)
      ultimately show ?thesis
        using rd_eff s2 Some image_directory_length [OF Some] h by (auto intro: evolves_trans)
    qed
  qed
qed

lemma parse_image_entries_result:
  assumes run: "parse_image_entries file (of_nat (length (f_data file))) s = ((st, addr, n), g, t)"
    and wf: "heap_wf s" and len: "length (f_data file) < 4294967296"
  shows "evolves s t \<and> heap_wf t \<and> f_data g = f_data file \<and>
    (if st = PS2_DRIVERS_IMG_OK
     then \<exists>es. image_directory (f_data file) = Some es \<and> brk s \<le> addr \<and>
       heap t = (heap s)(addr \<mapsto> Entries es) \<and> unat n = length es
     else heap t = heap s \<and>
       (st \<in> {PS2_DRIVERS_IMG_ERR_IO, PS2_DRIVERS_IMG_ERR_MEMORY} \<and> \<not> all_succeed s \<or>
        st = PS2_DRIVERS_IMG_ERR_IO \<and> length (f_data file) < 44 \<or>
        st = PS2_DRIVERS_IMG_ERR_FORMAT \<and> 44 \<le> length (f_data file) \<and>
          image_directory (f_data file) = None))"
proof -
  let ?img = "f_data file" and ?fsz = "of_nat (length (f_data file)) :: u32"
  note def = parse_image_entries_def format_defs
  obtain r1 f1 s1 where rd1: "seek_read 0 1 44 file s = (r1, f1, s1)"
    by (metis prod_cases3)
  have ev1: "evolves s s1" "heap s1 = heap s" "brk s1 = brk s" and f1: "f_data f1 = ?img"
    using seek_read_effect(1,2) [OF rd1] by (simp_all add: calls_only_evolves)
  have wf1: "heap_wf s1"
    using heap_wf_eq [OF ev1(2,3)] wf by simp
  show ?thesis
  proof (cases r1)
    case None
    then have "\<not> all_succeed s \<or> length ?img < 44"
      using seek_read_effect(4) [OF rd1] by auto
    with run None rd1 ev1 f1 wf1 show ?thesis
      by (auto simp: def)
  next
    case (Some header)
    have header: "header = take 44 ?img" and len44: "44 \<le> length ?img"
      using seek_read_effect(3) [OF rd1 _ _ Some] by (simp_all add: bytes_at_def)
    show ?thesis
    proof (cases "header_ok header ?fsz")
      case False
      then have "image_directory ?img = None"
        by (simp add: image_directory_def header)
      with run Some rd1 ev1 f1 wf1 False len44 show ?thesis
        by (auto simp: def)
    next
      case True
      obtain table s2 where m2: "malloc Uninit s1 = (table, s2)"
        by fastforce
      note wf2 = malloc_heap_wf [OF m2 wf1]
      obtain entries s3 where m3: "malloc Uninit s2 = (entries, s3)"
        by fastforce
      note wf3 = malloc_heap_wf [OF m3 wf2]
      note eqs = run Some rd1 True m2 m3
      show ?thesis
        using m2 wf1
      proof (cases rule: malloc_cases)
        case tf: fail
        from m3 wf2 show ?thesis
        proof (cases rule: malloc_cases)
          case fail
          with tf eqs ev1 f1 wf3 show ?thesis
            by (auto simp: def evolves_def)
        next
          case ok
          with tf eqs ev1 f1 free_live [OF _ wf3, of entries Uninit] wf2 show ?thesis
            by (auto simp: def evolves_def fun_upd_idem heap_wf_def)
        qed
      next
        case tok: ok
        from m3 wf2 show ?thesis
        proof (cases rule: malloc_cases)
          case fail
          with tok eqs ev1 f1 free_live [OF _ wf3, of table Uninit] wf1 show ?thesis
            by (auto simp: def evolves_def fun_upd_idem heap_wf_def)
        next
          case ok
          have run3: "load_entry_table (read_header header) ?fsz table entries f1 s3 = ((st, addr, n), g, t)"
            using eqs tok ok by (simp add: def)
          have live: "heap s3 = (heap s)(table \<mapsto> Uninit, entries \<mapsto> Uninit)" "table \<noteq> entries"
              "heap s table = None" "heap s entries = None"
            using tok ok ev1 wf by (auto simp: heap_wf_def)
          have "evolves s s3" "all_succeed s \<longrightarrow> all_succeed s3"
            using ev1 tok ok by (auto intro: evolves_trans dest: evolves_fields(7))
          from load_entry_table_result [of "read_header header" f1, OF run3 [folded f1] _ _ _ _ live wf3]
          have res: "evolves s3 t \<and> heap_wf t \<and> f_data g = ?img \<and>
              (if st = PS2_DRIVERS_IMG_OK
               then \<exists>es. image_directory ?img = Some es \<and> addr = entries \<and>
                 heap t = (heap s)(entries \<mapsto> Entries es) \<and> unat n = length es
               else heap t = heap s \<and>
                 (st = PS2_DRIVERS_IMG_ERR_IO \<and> \<not> all_succeed s3 \<or>
                  st = PS2_DRIVERS_IMG_ERR_FORMAT \<and> image_directory ?img = None))"
            using True header len44 len unfolding f1 by simp
          have "brk s \<le> entries"
            using tok ok ev1 by simp
          with res \<open>evolves s s3\<close> \<open>all_succeed s \<longrightarrow> all_succeed s3\<close> len44 show ?thesis
            by (auto intro: evolves_trans)
        qed
      qed
    qed
  qed
qed

end
