(* ===== verification/Staging.thy ===== *)
theory Staging
  imports Image_Format
begin

text \<open>
  Staging (\<^verbatim>\<open>stage_from_path\<close> of src/ps2_drivers_img.c): the static variables of the
  provider, and the function that reads the requested modules of an image into buffers of
  their own. It is split into the loop over the modules (\<open>stage_loop\<close>), what happens once the
  directory is read (\<open>stage_payloads\<close>), what happens once the file is open
  (\<open>stage_open_file\<close>) and the function itself. \<open>stage_spec\<close> says in a few lines what a file's
  bytes should give; the lemmas show that the code computes it, and that on every other
  outcome, under every pattern of failing calls, it leaves no allocation and no open stream.
\<close>

record img_state = "img_block world" +
  g_staged_modules :: nat
  g_staged_capacity :: nat
  g_staged_count :: nat
  g_staged_bytes :: nat
  g_image_path :: nat
  g_last_requirements :: u32

definition zero_module :: irx_staged_module where
  "zero_module = \<lparr>sm_id = 0, sm_data = 0, sm_size = 0\<rparr>"

text \<open>The assignment to \<^verbatim>\<open>modules[i]\<close>; undefined behaviour outside the array.\<close>

definition set_module :: "nat \<Rightarrow> nat \<Rightarrow> irx_staged_module \<Rightarrow> img_state \<Rightarrow> img_state" where
  "set_module modules i m s =
     (case heap s modules of
        Some (Modules ms) \<Rightarrow>
          if i < length ms then store modules (Modules (ms[i := m])) s else s\<lparr>ub := True\<rparr>
      | _ \<Rightarrow> s\<lparr>ub := True\<rparr>)"

definition free_staged_array :: "nat \<Rightarrow> nat \<Rightarrow> img_state \<Rightarrow> img_state" where
  "free_staged_array modules capacity s =
     (if modules = 0 then s
      else case heap s modules of
             Some (Modules ms) \<Rightarrow>
               if capacity \<le> length ms
               then free modules (fold (\<lambda>m. free (sm_data m)) (take capacity ms) s)
               else s\<lparr>ub := True\<rparr>
           | _ \<Rightarrow> s\<lparr>ub := True\<rparr>)"

text \<open>
  The loop over the requested modules: status, number of modules staged and their bytes. On
  an error the buffer at hand is released; the caller releases the others.
\<close>

fun stage_loop ::
  "irx_image_entry list \<Rightarrow> nat \<Rightarrow> u32 list \<Rightarrow> nat \<Rightarrow> nat \<Rightarrow> cfile \<Rightarrow> img_state \<Rightarrow>
   (img_status \<times> nat) \<times> cfile \<times> img_state" where
  "stage_loop es staged [] staged_index staged_bytes file s =
     ((PS2_DRIVERS_IMG_OK, staged_bytes), file, s)"
| "stage_loop es staged (n # ids) staged_index staged_bytes file s =
     (case find_entry es n of
        None \<Rightarrow> ((PS2_DRIVERS_IMG_ERR_MISSING_MODULE, staged_bytes), file, s)
      | Some entry \<Rightarrow>
          let (data, s1) = malloc Uninit s in
          if data = 0 then ((PS2_DRIVERS_IMG_ERR_MEMORY, staged_bytes), file, s1)
          else
          case seek_read (unat (e_offset entry)) 1 (unat (e_size entry)) file s1 of
            (None, f2, s2) \<Rightarrow> ((PS2_DRIVERS_IMG_ERR_IO, staged_bytes), f2, free data s2)
          | (Some bytes, f2, s2) \<Rightarrow>
              let s3 = store data (Bytes bytes) s2 in
              if crc32_bytes bytes \<noteq> e_crc32 entry
              then ((PS2_DRIVERS_IMG_ERR_CRC, staged_bytes), f2, free data s3)
              else stage_loop es staged ids (Suc staged_index) (staged_bytes + unat (e_size entry)) f2
                     (set_module staged staged_index
                        \<lparr>sm_id = n, sm_data = data, sm_size = e_size entry\<rparr> s3))"

text \<open>From the directory, at address \<open>entries\<close>, to the end of \<^verbatim>\<open>stage_from_path\<close>.\<close>

definition stage_payloads ::
  "u8 list \<Rightarrow> nat \<Rightarrow> cfile \<Rightarrow> img_state \<Rightarrow> img_status \<times> img_state" where
  "stage_payloads requested entries file s =
     (let requested_count = length (requested_ids requested);
          (staged, s1) = malloc (Modules (replicate requested_count zero_module)) s
      in if staged = 0 then (PS2_DRIVERS_IMG_ERR_MEMORY, fclose (free entries s1))
         else
         case heap s1 entries of
           Some (Entries es) \<Rightarrow>
             let ((result, staged_bytes), f2, s2) =
                   stage_loop es staged (requested_ids requested) 0 0 file s1;
                 s3 = fclose (free entries s2)
             in if result = PS2_DRIVERS_IMG_OK
                then (PS2_DRIVERS_IMG_OK,
                      s3\<lparr>g_staged_modules := staged, g_staged_capacity := requested_count,
                         g_staged_count := requested_count, g_staged_bytes := staged_bytes\<rparr>)
                else (result, free_staged_array staged requested_count s3)
         | _ \<Rightarrow> (PS2_DRIVERS_IMG_ERR_FORMAT, s1\<lparr>ub := True\<rparr>))"

text \<open>The file is open: its size, its directory, its payloads.\<close>

definition stage_open_file :: "u8 list \<Rightarrow> cfile \<Rightarrow> img_state \<Rightarrow> img_status \<times> img_state" where
  "stage_open_file requested file s =
     (let (ok, f1, s1) = fseek_end file s in
      if \<not> ok then (PS2_DRIVERS_IMG_ERR_IO, fclose s1)
      else
      let (file_size_long, s2) = ftell f1 s1 in
      if file_size_long < int (unat IRXIMG_HEADER_SIZE) \<or> file_size_long > int (unat UINT32_MAX)
      then (PS2_DRIVERS_IMG_ERR_FORMAT, fclose s2)
      else
      let ((result, entries, entry_count), f3, s3) =
            parse_image_entries f1 (of_int file_size_long) s2
      in if result \<noteq> PS2_DRIVERS_IMG_OK then (result, fclose s3)
         else stage_payloads requested entries f3 s3)"

definition stage_from_path :: "string option \<Rightarrow> u32 \<Rightarrow> img_state \<Rightarrow> img_status \<times> img_state" where
  "stage_from_path image_path driver_requirements s =
     (if image_path = None \<or> driver_requirements = 0 \<or> unknown_bits driver_requirements
      then (PS2_DRIVERS_IMG_ERR_ARGUMENT, s)
      else if g_staged_modules s \<noteq> 0 \<or> g_staged_count s \<noteq> 0
      then (PS2_DRIVERS_IMG_ERR_ALREADY_STAGED, s)
      else
      let requested = expand_requirements driver_requirements no_modules in
      if length (requested_ids requested) = 0 then (PS2_DRIVERS_IMG_ERR_ARGUMENT, s)
      else
      case fopen (the image_path) s of
        (None, s1) \<Rightarrow> (PS2_DRIVERS_IMG_ERR_OPEN, s1)
      | (Some file, s1) \<Rightarrow> stage_open_file requested file s1)"

subsection \<open>Specification: what a file's bytes give\<close>

fun load_modules ::
  "u8 list \<Rightarrow> irx_image_entry list \<Rightarrow> u32 list \<Rightarrow> img_status + (u32 \<times> u8 list) list" where
  "load_modules img es [] = Inr []"
| "load_modules img es (n # ids) =
     (case find_entry es n of
        None \<Rightarrow> Inl PS2_DRIVERS_IMG_ERR_MISSING_MODULE
      | Some e \<Rightarrow>
          let bytes = bytes_at (unat (e_offset e)) (unat (e_size e)) img in
          if crc32_bytes bytes \<noteq> e_crc32 e then Inl PS2_DRIVERS_IMG_ERR_CRC
          else case load_modules img es ids of
                 Inl err \<Rightarrow> Inl err
               | Inr rest \<Rightarrow> Inr ((n, bytes) # rest))"

definition file_spec :: "u8 list \<Rightarrow> u8 list \<Rightarrow> img_status + (u32 \<times> u8 list) list" where
  "file_spec img requested =
     (if length img < 44 \<or> 4294967295 < length img then Inl PS2_DRIVERS_IMG_ERR_FORMAT
      else case image_directory img of
             None \<Rightarrow> Inl PS2_DRIVERS_IMG_ERR_FORMAT
           | Some es \<Rightarrow> load_modules img es (requested_ids requested))"

definition stage_spec :: "u8 list \<Rightarrow> u32 \<Rightarrow> img_status + (u32 \<times> u8 list) list" where
  "stage_spec img q = file_spec img (expand_requirements q no_modules)"

text \<open>The bytes of a staged module.\<close>

definition payload :: "img_state \<Rightarrow> irx_staged_module \<Rightarrow> u8 list" where
  "payload s m = (case heap s (sm_data m) of Some (Bytes bs) \<Rightarrow> bs | _ \<Rightarrow> [])"

definition module_live :: "irx_staged_module \<Rightarrow> bool" where
  "module_live m \<longleftrightarrow> sm_data m \<noteq> 0"

text \<open>A buffer that holds a module's bytes.\<close>

definition buffer_ok :: "img_state \<Rightarrow> irx_staged_module \<Rightarrow> bool" where
  "buffer_ok s m \<longleftrightarrow>
     (\<exists>bs. heap s (sm_data m) = Some (Bytes bs) \<and> length bs = unat (sm_size m) \<and> bs \<noteq> [])"

text \<open>
  The state after a successful staging: \<open>H\<close> is the heap outside the new blocks, \<open>b\<close> a lower
  bound of the new addresses and \<open>ps\<close> the modules with their bytes.
\<close>

definition staged_state ::
  "(nat \<Rightarrow> img_block option) \<Rightarrow> nat \<Rightarrow> (u32 \<times> u8 list) list \<Rightarrow> img_state \<Rightarrow> bool" where
  "staged_state H b ps t \<longleftrightarrow>
     (\<exists>new. heap t (g_staged_modules t) = Some (Modules new) \<and>
        g_staged_capacity t = length new \<and> g_staged_count t = length new \<and>
        g_staged_bytes t = (\<Sum>m \<leftarrow> new. unat (sm_size m)) \<and>
        map (\<lambda>m. (sm_id m, payload t m)) new = ps \<and>
        distinct (map sm_data new) \<and> (\<forall>m \<in> set new. b \<le> sm_data m \<and> buffer_ok t m) \<and>
        b \<le> g_staged_modules t \<and> g_staged_modules t \<notin> sm_data ` set new \<and>
        (\<forall>a. a \<noteq> g_staged_modules t \<longrightarrow> a \<notin> sm_data ` set new \<longrightarrow> heap t a = H a))"

text \<open>What staging leaves alone even when it succeeds.\<close>

definition img_frame :: "img_state \<Rightarrow> img_state \<Rightarrow> bool" where
  "img_frame s t \<longleftrightarrow> opened t = opened s \<and> ub t = ub s \<and> files t = files s \<and> cwd t = cwd s \<and>
     g_image_path t = g_image_path s \<and> g_last_requirements t = g_last_requirements s \<and>
     brk s \<le> brk t \<and> (all_succeed s \<longrightarrow> all_succeed t)"

subsection \<open>Releasing\<close>

lemma fold_free_live:
  assumes "heap_wf s" and "distinct (filter (\<lambda>a. a \<noteq> 0) as)"
    and "\<forall>a \<in> set as. a \<noteq> 0 \<longrightarrow> heap s a \<noteq> None"
  shows "evolves s (fold free as s) \<and> heap_wf (fold free as s) \<and> brk (fold free as s) = brk s \<and>
    heap (fold free as s) = (\<lambda>a. if a \<in> set as then None else heap s a)"
  using assms
proof (induction as arbitrary: s)
  case Nil
  then show ?case by simp
next
  case (Cons a as)
  show ?case
  proof (cases "a = 0")
    case True
    with Cons.prems Cons.IH [of s] show ?thesis
      by (auto simp: heap_wf_def fun_eq_iff)
  next
    case False
    then obtain v where v: "heap s a = Some v"
      using Cons.prems(3) by auto
    note f = free_live [OF v Cons.prems(1)]
    have "\<forall>b \<in> set as. b \<noteq> 0 \<longrightarrow> heap (free a s) b \<noteq> None"
      using Cons.prems False f by auto
    then have "evolves (free a s) (fold free as (free a s)) \<and> heap_wf (fold free as (free a s)) \<and>
        brk (fold free as (free a s)) = brk (free a s) \<and>
        heap (fold free as (free a s)) = (\<lambda>b. if b \<in> set as then None else heap (free a s) b)"
      using Cons.prems False f by (intro Cons.IH) auto
    with f show ?thesis
      by (auto intro: evolves_trans simp: fun_eq_iff)
  qed
qed

lemma free_staged_array_live:
  assumes "heap s modules = Some (Modules ms)" and "heap_wf s"
    and "distinct (map sm_data (filter module_live ms))"
    and "\<forall>m \<in> set ms. module_live m \<longrightarrow> heap s (sm_data m) \<noteq> None \<and> sm_data m \<noteq> modules"
  shows "evolves s (free_staged_array modules (length ms) s) \<and>
    heap_wf (free_staged_array modules (length ms) s) \<and>
    heap (free_staged_array modules (length ms) s) =
      (\<lambda>a. if a = modules \<or> a \<in> sm_data ` set ms then None else heap s a)"
proof -
  let ?t = "fold free (map sm_data ms) s"
  have nz: "modules \<noteq> 0"
    using assms(1,2) by (auto simp: heap_wf_def intro!: gr0I)
  have "filter (\<lambda>a. a \<noteq> 0) (map sm_data ms) = map sm_data (filter module_live ms)"
    by (simp add: filter_map comp_def module_live_def [abs_def])
  with assms have t: "evolves s ?t \<and> heap_wf ?t \<and> brk ?t = brk s \<and>
      heap ?t = (\<lambda>a. if a \<in> set (map sm_data ms) then None else heap s a)"
    by (intro fold_free_live) (auto simp: module_live_def)
  have "modules \<notin> sm_data ` set ms"
    using assms(4) nz by (auto simp: module_live_def)
  with assms(1) t have "heap ?t modules = Some (Modules ms)"
    by simp
  from free_live [OF this] t
  have "evolves ?t (free modules ?t) \<and> heap_wf (free modules ?t) \<and>
      heap (free modules ?t) = (heap ?t)(modules := None)"
    by simp
  moreover have "free_staged_array modules (length ms) s = free modules ?t"
    using assms(1) nz by (simp add: free_staged_array_def fold_map comp_def)
  ultimately show ?thesis
    using t by (auto intro: evolves_trans simp: fun_eq_iff)
qed

lemma set_module_live:
  assumes "heap s modules = Some (Modules ms)" and "i < length ms" and "heap_wf s"
  shows "evolves s (set_module modules i m s) \<and> heap_wf (set_module modules i m s) \<and>
    heap (set_module modules i m s) = (heap s)(modules \<mapsto> Modules (ms[i := m])) \<and>
    brk (set_module modules i m s) = brk s"
  using assms store_live [OF assms(1,3)] by (simp add: set_module_def)

subsection \<open>The loop\<close>

text \<open>What the loop guarantees, whatever calls fail.\<close>

lemma stage_loop_result:
  assumes run: "stage_loop es staged ids idx bytes file s = ((st, bytes'), g, t)"
    and wf: "heap_wf s" and arr: "heap s staged = Some (Modules (pre @ replicate k zero_module))"
    and len: "length pre = idx" "length ids \<le> k"
    and es: "\<forall>e \<in> set es. 0 < unat (e_size e) \<and> unat (e_offset e) + unat (e_size e) \<le> length (f_data file)"
  shows "evolves s t \<and> heap_wf t \<and>
    (\<exists>new. heap t staged = Some (Modules (pre @ new @ replicate (k - length new) zero_module)) \<and>
       length new \<le> length ids \<and> distinct (map sm_data new) \<and>
       (\<forall>m \<in> set new. brk s \<le> sm_data m \<and> buffer_ok t m) \<and>
       (\<forall>a. a \<noteq> staged \<longrightarrow> a \<notin> sm_data ` set new \<longrightarrow> heap t a = heap s a) \<and>
       (if st = PS2_DRIVERS_IMG_OK
        then length new = length ids \<and> bytes' = bytes + (\<Sum>m \<leftarrow> new. unat (sm_size m)) \<and>
          load_modules (f_data file) es ids = Inr (map (\<lambda>m. (sm_id m, payload t m)) new)
        else st \<in> {PS2_DRIVERS_IMG_ERR_MEMORY, PS2_DRIVERS_IMG_ERR_IO} \<and> \<not> all_succeed s \<or>
          load_modules (f_data file) es ids = Inl st))"
  using assms
proof (induction ids arbitrary: idx bytes "file" s pre k)
  case Nil
  then show ?case by (auto intro!: exI [of _ "[]"])
next
  case (Cons n ids)
  note wf = Cons.prems(2) and arr = Cons.prems(3)
  have fresh: "heap s (brk s) = None" "staged < brk s"
    using wf arr by (simp add: heap_wf_def) (metis arr heap_wf_fresh not_le option.distinct(1) wf)
  have stop: ?case if "evolves s t" "heap_wf t" "heap t = heap s"
      "st \<noteq> PS2_DRIVERS_IMG_OK"
      "st \<in> {PS2_DRIVERS_IMG_ERR_MEMORY, PS2_DRIVERS_IMG_ERR_IO} \<and> \<not> all_succeed s \<or>
        load_modules (f_data file) es (n # ids) = Inl st"
    using that arr by (auto intro!: exI [of _ "[]"])
  show ?case
  proof (cases "find_entry es n")
    case None
    with Cons.prems(1) wf show ?thesis
      by (intro stop) auto
  next
    case (Some e)
    have e: "e \<in> set es" "0 < unat (e_size e)" "unat (e_offset e) + unat (e_size e) \<le> length (f_data file)"
      using find_entry_Some [OF Some] Cons.prems(6) by auto
    obtain data s1 where m: "malloc Uninit s = (data, s1)"
      by fastforce
    from m wf show ?thesis
    proof (cases rule: malloc_cases)
      case fail
      with Cons.prems(1) Some m wf show ?thesis
        by (intro stop) (auto simp: heap_wf_def evolves_def)
    next
      case ok
      note wf1 = malloc_heap_wf [OF m wf]
      obtain r f2 s2 where rd: "seek_read (unat (e_offset e)) 1 (unat (e_size e)) file s1 = (r, f2, s2)"
        by (metis prod_cases3)
      have rd_eff: "evolves s1 s2" "heap s2 = heap s1" "brk s2 = brk s1" "f_data f2 = f_data file"
        using seek_read_effect(1,2) [OF rd] e(2) by (simp_all add: calls_only_evolves)
      have wf2: "heap_wf s2"
        using heap_wf_eq [OF rd_eff(2,3)] wf1 by simp
      have data: "heap s2 data = Some Uninit" "data \<noteq> staged" "data = brk s"
        using ok rd_eff fresh by auto
      let ?bs = "bytes_at (unat (e_offset e)) (unat (e_size e)) (f_data file)"
      show ?thesis
      proof (cases r)
        case None
        have "\<not> all_succeed s1"
          using seek_read_effect(4) [OF rd] e None by auto
        then have "\<not> all_succeed s"
          using ok(3) by (auto dest: evolves_fields(7))
        moreover have "t = free data s2" "st = PS2_DRIVERS_IMG_ERR_IO"
          using Cons.prems(1) Some m ok rd None by auto
        ultimately show ?thesis
          using free_live [OF data(1) wf2] ok rd_eff fresh
          by (intro stop) (auto intro: evolves_trans simp: fun_upd_idem)
      next
        case (Some bs)
        have bs: "bs = ?bs"
          using seek_read_effect(3) [OF rd _ _ Some] e(2) by simp
        let ?s3 = "store data (Bytes bs) s2"
        note s3 = store_live [OF data(1) wf2, of "Bytes bs"]
        have ev3: "evolves s ?s3" and h3: "heap ?s3 = (heap s)(data \<mapsto> Bytes bs)" "brk ?s3 = Suc (brk s)"
          using ok rd_eff s3 data(3) by (auto intro: evolves_trans)
        show ?thesis
        proof (cases "crc32_bytes bs = e_crc32 e")
          case False
          have "t = free data ?s3" "st = PS2_DRIVERS_IMG_ERR_CRC"
            using Cons.prems(1) \<open>find_entry es n = Some e\<close> m ok rd Some False by (auto simp: Let_def)
          moreover have "load_modules (f_data file) es (n # ids) = Inl PS2_DRIVERS_IMG_ERR_CRC"
            using \<open>find_entry es n = Some e\<close> False bs by (simp add: Let_def)
          moreover have "evolves ?s3 (free data ?s3) \<and> heap (free data ?s3) = heap s \<and> heap_wf (free data ?s3)"
            using free_live [of ?s3 data "Bytes bs"] s3 h3 fresh data(3) by (simp add: fun_upd_idem)
          ultimately show ?thesis
            using ev3 by (intro stop) (auto intro: evolves_trans)
        next
          case True
          let ?m = "\<lparr>sm_id = n, sm_data = data, sm_size = e_size e\<rparr>"
          let ?s4 = "set_module staged idx ?m ?s3"
          obtain j where k: "k = Suc j"
            using Cons.prems(5) by (cases k) auto
          have arr3: "heap ?s3 staged = Some (Modules (pre @ replicate k zero_module))"
            using h3 arr data by simp
          have upd: "(pre @ replicate k zero_module)[idx := ?m] = (pre @ [?m]) @ replicate j zero_module"
            using Cons.prems(4) k by (auto simp: list_update_append)
          have s4: "evolves ?s3 ?s4" "heap_wf ?s4" "brk ?s4 = Suc (brk s)"
              "heap ?s4 = (heap s)(data \<mapsto> Bytes bs, staged \<mapsto> Modules ((pre @ [?m]) @ replicate j zero_module))"
            using set_module_live [OF arr3, of idx ?m] Cons.prems(4,5) s3 h3 k unfolding upd by auto
          have run4: "stage_loop es staged ids (Suc idx) (bytes + unat (e_size e)) f2 ?s4 = ((st, bytes'), g, t)"
            using Cons.prems(1) \<open>find_entry es n = Some e\<close> m ok rd Some True by (simp add: Let_def)
          have ih: "evolves ?s4 t \<and> heap_wf t \<and>
            (\<exists>new. heap t staged = Some (Modules ((pre @ [?m]) @ new @ replicate (j - length new) zero_module)) \<and>
             length new \<le> length ids \<and> distinct (map sm_data new) \<and>
             (\<forall>m \<in> set new. brk ?s4 \<le> sm_data m \<and> buffer_ok t m) \<and>
             (\<forall>a. a \<noteq> staged \<longrightarrow> a \<notin> sm_data ` set new \<longrightarrow> heap t a = heap ?s4 a) \<and>
             (if st = PS2_DRIVERS_IMG_OK
              then length new = length ids \<and>
                bytes' = bytes + unat (e_size e) + (\<Sum>m \<leftarrow> new. unat (sm_size m)) \<and>
                load_modules (f_data f2) es ids = Inr (map (\<lambda>m. (sm_id m, payload t m)) new)
              else st \<in> {PS2_DRIVERS_IMG_ERR_MEMORY, PS2_DRIVERS_IMG_ERR_IO} \<and> \<not> all_succeed ?s4 \<or>
                load_modules (f_data f2) es ids = Inl st))"
            using Cons.prems(4-6) k rd_eff(4) s4
            by (intro Cons.IH [OF run4, of "pre @ [?m]" j]) auto
          then obtain new where new:
              "heap t staged = Some (Modules ((pre @ [?m]) @ new @ replicate (j - length new) zero_module))"
              "length new \<le> length ids" "distinct (map sm_data new)"
              "\<forall>m \<in> set new. brk ?s4 \<le> sm_data m \<and> buffer_ok t m"
              "\<forall>a. a \<noteq> staged \<longrightarrow> a \<notin> sm_data ` set new \<longrightarrow> heap t a = heap ?s4 a"
            and res: "if st = PS2_DRIVERS_IMG_OK
              then length new = length ids \<and>
                bytes' = bytes + unat (e_size e) + (\<Sum>m \<leftarrow> new. unat (sm_size m)) \<and>
                load_modules (f_data f2) es ids = Inr (map (\<lambda>m. (sm_id m, payload t m)) new)
              else st \<in> {PS2_DRIVERS_IMG_ERR_MEMORY, PS2_DRIVERS_IMG_ERR_IO} \<and> \<not> all_succeed ?s4 \<or>
                load_modules (f_data f2) es ids = Inl st"
            by blast
          have notin: "data \<notin> sm_data ` set new"
            using new(4) s4(3) data(3) by fastforce
          have hd: "heap t data = Some (Bytes bs)"
            using new(5) notin data(2) s4(4) by simp
          have lbs: "length bs = unat (e_size e)" "bs \<noteq> []"
            using bs e by (auto simp: bytes_at_def)
          have ev: "evolves s t"
            using ev3 s4(1) ih by (blast intro: evolves_trans)
          have flt: "\<not> all_succeed ?s4 \<Longrightarrow> \<not> all_succeed s"
            using evolves_trans [OF ev3 s4(1)] by (auto dest: evolves_fields(7))
          have ok_m: "buffer_ok t ?m" "payload t ?m = bs"
            using hd lbs by (simp_all add: buffer_ok_def payload_def)
          have load: "load_modules (f_data file) es (n # ids) =
              (case load_modules (f_data file) es ids of Inl err \<Rightarrow> Inl err | Inr rest \<Rightarrow> Inr ((n, bs) # rest))"
            using \<open>find_entry es n = Some e\<close> True bs by (auto simp: Let_def split: sum.splits)
          have buf: "\<forall>m \<in> set (?m # new). brk s \<le> sm_data m \<and> buffer_ok t m"
            using new(4) ok_m(1) s4(3) data(3) by auto
          have other: "\<forall>a. a \<noteq> staged \<longrightarrow> a \<notin> sm_data ` set (?m # new) \<longrightarrow> heap t a = heap s a"
            using new(5) s4(4) by simp
          show ?thesis
            using ev ih new(1-3) buf other notin res flt k rd_eff(4) ok_m load
            by (intro conjI exI [of _ "?m # new"]) (auto split: if_splits)
        qed
      qed
    qed
  qed
qed

subsection \<open>The payloads\<close>

lemma evolves_statics:
  fixes s t :: img_state
  assumes "evolves s t"
  shows "g_staged_modules t = g_staged_modules s" "g_staged_capacity t = g_staged_capacity s"
    "g_staged_count t = g_staged_count s" "g_staged_bytes t = g_staged_bytes s"
    "g_image_path t = g_image_path s" "g_last_requirements t = g_last_requirements s"
  by (subst evolves_eq [OF assms], simp)+

lemma evolves_img_frame: "evolves s t \<Longrightarrow> img_frame s t"
  by (simp add: img_frame_def evolves_statics evolves_fields)

lemma fclose_evolves:
  "evolves s t \<Longrightarrow> evolves (fclose s) (fclose t) \<and> heap (fclose t) = heap t \<and>
     brk (fclose t) = brk t \<and> heap_wf (fclose t) = heap_wf t"
  by (auto simp: evolves_def fclose_def heap_wf_def all_succeed_def)

lemma stage_payloads_result:
  assumes run: "stage_payloads requested entries file s = (st, t)"
    and wf: "heap_wf s" and dir: "heap s = H(entries \<mapsto> Entries es)" "H entries = None"
    and es: "\<forall>e \<in> set es. 0 < unat (e_size e) \<and> unat (e_offset e) + unat (e_size e) \<le> length (f_data file)"
    and b: "b \<le> brk s"
  shows "heap_wf t \<and>
    (if st = PS2_DRIVERS_IMG_OK
     then img_frame (fclose s) t \<and>
       (\<exists>ps. load_modules (f_data file) es (requested_ids requested) = Inr ps \<and> staged_state H b ps t)
     else evolves (fclose s) t \<and> heap t = H \<and>
       (st \<in> {PS2_DRIVERS_IMG_ERR_MEMORY, PS2_DRIVERS_IMG_ERR_IO} \<and> \<not> all_succeed s \<or>
        load_modules (f_data file) es (requested_ids requested) = Inl st))"
proof -
  let ?ids = "requested_ids requested"
  let ?n = "length ?ids"
  obtain staged s1 where m: "malloc (Modules (replicate ?n zero_module)) s = (staged, s1)"
    by fastforce
  note wf1 = malloc_heap_wf [OF m wf]
  from m wf show ?thesis
  proof (cases rule: malloc_cases)
    case fail
    have "heap s1 entries = Some (Entries es)"
      using fail dir by simp
    note f = free_live [OF this wf1]
    have "t = fclose (free entries s1)" "st = PS2_DRIVERS_IMG_ERR_MEMORY"
      using run m fail by (simp_all add: stage_payloads_def)
    with f fail dir fclose_evolves [of s "free entries s1"] show ?thesis
      by (auto intro: evolves_trans simp: fun_upd_idem)
  next
    case ok
    have ent: "entries < brk s"
      using wf dir by (metis fun_upd_same heap_wf_fresh not_le option.distinct(1))
    have h1: "heap s1 = H(entries \<mapsto> Entries es, staged \<mapsto> Modules (replicate ?n zero_module))"
      using ok dir by simp
    have fresh: "H a = None" if "brk s \<le> a" for a
      using wf that dir ent by (auto simp: heap_wf_def split: if_splits dest!: spec [of _ a])
    obtain result bytes f2 s2 where
      loop: "stage_loop es staged ?ids 0 0 file s1 = ((result, bytes), f2, s2)"
      by (metis prod.exhaust)
    have arr: "heap s1 staged = Some (Modules ([] @ replicate ?n zero_module))"
      using h1 by simp
    from stage_loop_result [OF loop wf1 arr _ _ es] have loop_eff: "evolves s1 s2" "heap_wf s2"
      by simp_all
    from stage_loop_result [OF loop wf1 arr _ _ es] obtain new where
      new: "heap s2 staged = Some (Modules (new @ replicate (?n - length new) zero_module))"
        "length new \<le> ?n" "distinct (map sm_data new)"
        "\<forall>m \<in> set new. brk s1 \<le> sm_data m \<and> buffer_ok s2 m"
        "\<forall>a. a \<noteq> staged \<longrightarrow> a \<notin> sm_data ` set new \<longrightarrow> heap s2 a = heap s1 a"
      and res: "if result = PS2_DRIVERS_IMG_OK
        then length new = ?n \<and> bytes = 0 + (\<Sum>m \<leftarrow> new. unat (sm_size m)) \<and>
          load_modules (f_data file) es ?ids = Inr (map (\<lambda>m. (sm_id m, payload s2 m)) new)
        else result \<in> {PS2_DRIVERS_IMG_ERR_MEMORY, PS2_DRIVERS_IMG_ERR_IO} \<and> \<not> all_succeed s1 \<or>
          load_modules (f_data file) es ?ids = Inl result"
      by auto
    have sep: "entries \<notin> sm_data ` set new" "staged \<notin> sm_data ` set new" "entries \<noteq> staged"
      using new(4) ent ok by fastforce+
    have ent1: "heap s1 entries = Some (Entries es)"
      using h1 sep by simp
    have ent2: "heap s2 entries = Some (Entries es)"
      using new(5) sep h1 by simp
    let ?s3 = "fclose (free entries s2)"
    have s3: "evolves (fclose s) ?s3" "heap_wf ?s3" "heap ?s3 = (heap s2)(entries := None)"
      using free_live [OF ent2 loop_eff(2)] fclose_evolves [of s "free entries s2"] ok(3) loop_eff(1)
      by (auto intro: evolves_trans)
    have keep: "heap ?s3 a = H a" if "a \<noteq> staged" "a \<notin> sm_data ` set new" for a
      using new(5) s3(3) h1 that dir(2) by auto
    have run3: "(st, t) = (if result = PS2_DRIVERS_IMG_OK
        then (PS2_DRIVERS_IMG_OK,
              ?s3\<lparr>g_staged_modules := staged, g_staged_capacity := ?n,
                 g_staged_count := ?n, g_staged_bytes := bytes\<rparr>)
        else (result, free_staged_array staged ?n ?s3))"
      using run m ok(1,2) ent1 loop by (auto simp: stage_payloads_def Let_def split: if_splits)
    show ?thesis
    proof (cases "result = PS2_DRIVERS_IMG_OK")
      case True
      have t: "t = ?s3\<lparr>g_staged_modules := staged, g_staged_capacity := ?n,
                 g_staged_count := ?n, g_staged_bytes := bytes\<rparr>" and st: "st = PS2_DRIVERS_IMG_OK"
        using run3 True by simp_all
      have ht: "heap t = heap ?s3"
        by (simp add: t)
      have same: "payload t m = payload s2 m \<and> buffer_ok t m" if "m \<in> set new" for m
        using that new(4) sep s3(3) by (auto simp: payload_def buffer_ok_def ht)
      have "staged_state H b (map (\<lambda>m. (sm_id m, payload s2 m)) new) t"
        unfolding staged_state_def
        using new res True sep s3(3) keep same b ok ht
        by (intro exI [of _ new]) (fastforce simp: t)
      moreover have "img_frame (fclose s) t" "heap_wf t"
        using evolves_img_frame [OF s3(1)] s3(2)
        by (simp_all add: t img_frame_def heap_wf_def all_succeed_def)
      ultimately show ?thesis
        using res True st by auto
    next
      case False
      have t: "t = free_staged_array staged ?n ?s3" and st: "st = result"
        using run3 False by simp_all
      let ?ms = "new @ replicate (?n - length new) zero_module"
      have arr3: "heap ?s3 staged = Some (Modules ?ms)"
        using new(1) s3(3) sep by simp
      have lv: "filter module_live ?ms = new"
        using new(4) ok by (auto simp: module_live_def zero_module_def filter_id_conv)
      have live: "heap ?s3 (sm_data m) \<noteq> None \<and> sm_data m \<noteq> staged"
        if "m \<in> set ?ms" "module_live m" for m
      proof -
        have m: "m \<in> set new"
          using that arg_cong [OF lv, of set] by (simp only: set_filter mem_Collect_eq) blast
        then obtain bs where "heap s2 (sm_data m) = Some (Bytes bs)"
          using new(4) by (auto simp: buffer_ok_def)
        with m sep s3(3) show ?thesis
          by auto
      qed
      have lms: "length ?ms = ?n" and dms: "distinct (map sm_data (filter module_live ?ms))"
        using new(2,3) lv by simp_all
      have lall: "\<forall>m \<in> set ?ms. module_live m \<longrightarrow> heap ?s3 (sm_data m) \<noteq> None \<and> sm_data m \<noteq> staged"
        using live by blast
      note fsa = free_staged_array_live [OF arr3 s3(2) dms lall, unfolded lms]
      have "evolves ?s3 t \<and> heap_wf t \<and>
          heap t = (\<lambda>a. if a = staged \<or> a \<in> sm_data ` set ?ms then None else heap ?s3 a)"
        unfolding t by (rule fsa)
      moreover have "(\<lambda>a. if a = staged \<or> a \<in> sm_data ` set ?ms then None else heap ?s3 a) = H"
      proof
        fix a
        have H0: "H 0 = None"
          using wf dir by (auto simp: heap_wf_def split: if_splits)
        consider "a = 0" | "a = staged" | "a \<in> sm_data ` set new" |
            "a \<noteq> 0" "a \<noteq> staged" "a \<notin> sm_data ` set new"
          by blast
        then show "(if a = staged \<or> a \<in> sm_data ` set ?ms then None else heap ?s3 a) = H a"
        proof cases
          case 1
          then show ?thesis
            using H0 s3(2) by (simp add: heap_wf_def)
        next
          case 2
          then show ?thesis
            using fresh [of a] ok(1) by simp
        next
          case 3
          then show ?thesis
            using fresh [of a] new(4) ok(5) by fastforce
        next
          case 4
          then have "a \<notin> sm_data ` set ?ms"
            by (auto simp: zero_module_def split: if_splits)
          with 4 show ?thesis
            using keep [of a] by simp
        qed
      qed
      ultimately show ?thesis
        using res False st s3(1) ok(3) by (auto intro: evolves_trans dest: evolves_fields(7))
    qed
  qed
qed

subsection \<open>An open file, and the whole function\<close>

lemma stage_open_file_result:
  assumes run: "stage_open_file requested file s = (st, t)" and wf: "heap_wf s"
  shows "heap_wf t \<and>
    (if st = PS2_DRIVERS_IMG_OK
     then img_frame (fclose s) t \<and>
       (\<exists>ps. file_spec (f_data file) requested = Inr ps \<and> staged_state (heap s) (brk s) ps t)
     else evolves (fclose s) t \<and> heap t = heap s \<and>
       (st \<in> {PS2_DRIVERS_IMG_ERR_MEMORY, PS2_DRIVERS_IMG_ERR_IO, PS2_DRIVERS_IMG_ERR_FORMAT} \<and>
          \<not> all_succeed s \<or> file_spec (f_data file) requested = Inl st))"
proof -
  let ?img = "f_data file"
  note def = stage_open_file_def format_defs
  have stop: ?thesis if "evolves s u" "heap u = heap s" "heap_wf u" "t = fclose u" "st \<noteq> PS2_DRIVERS_IMG_OK"
      "st \<in> {PS2_DRIVERS_IMG_ERR_MEMORY, PS2_DRIVERS_IMG_ERR_IO, PS2_DRIVERS_IMG_ERR_FORMAT} \<and>
          \<not> all_succeed s \<or> file_spec ?img requested = Inl st" for u
    using that fclose_evolves [of s u] by simp
  obtain ok f1 s1 where se: "fseek_end file s = (ok, f1, s1)"
    by (metis prod_cases3)
  note se_eff = fseek_end_effect [OF se]
  have s1: "evolves s s1" "heap s1 = heap s" "brk s1 = brk s" "heap_wf s1"
    using se_eff calls_only_evolves [of s s1] heap_wf_eq [of s1 s] wf by auto
  obtain size_long s2 where ft: "ftell f1 s1 = (size_long, s2)"
    by fastforce
  note ft_eff = ftell_effect [OF ft]
  have s2: "evolves s s2" "heap s2 = heap s" "brk s2 = brk s" "heap_wf s2"
    using ft_eff calls_only_evolves [of s1 s2] heap_wf_eq [of s2 s1] s1
    by (auto intro: evolves_trans)
  show ?thesis
  proof (cases ok)
    case False
    with run se se_eff s1 show ?thesis
      by (intro stop [of s1]) (auto simp: def)
  next
    case True
    have size: "size_long = -1 \<and> \<not> all_succeed s \<or> size_long = int (length ?img)"
      using ft_eff se_eff True by (auto simp: calls_only_def)
    show ?thesis
    proof (cases "size_long < 44 \<or> 4294967295 < size_long")
      case out: True
      with size have "\<not> all_succeed s \<or> file_spec ?img requested = Inl PS2_DRIVERS_IMG_ERR_FORMAT"
        by (auto simp: file_spec_def)
      with run se True ft out s2 show ?thesis
        by (intro stop [of s2]) (auto simp: def)
    next
      case inside: False
      then have len: "size_long = int (length ?img)" "44 \<le> length ?img" "length ?img < 4294967296"
        using size by auto
      obtain result entries n f3 s3 where
        pr: "parse_image_entries f1 (of_nat (length (f_data f1))) s2 = ((result, entries, n), f3, s3)"
        by (metis prod_cases3)
      have f1: "f_data f1 = ?img"
        using se_eff by simp
      note p = parse_image_entries_result [OF pr s2(4), unfolded f1, OF len(3)]
      have run3: "(st, t) = (if result \<noteq> PS2_DRIVERS_IMG_OK then (result, fclose s3)
          else stage_payloads requested entries f3 s3)"
        using run se True ft inside pr len(1) f1 by (auto simp: def Let_def split: if_splits)
      show ?thesis
      proof (cases "result = PS2_DRIVERS_IMG_OK")
        case False
        have "\<not> all_succeed s2 \<Longrightarrow> \<not> all_succeed s"
          using s2(1) by (auto dest: evolves_fields(7))
        with p run3 False s2 len show ?thesis
          by (intro stop [of s3]) (auto simp: file_spec_def intro: evolves_trans)
      next
        case True
        with p obtain es where es: "image_directory ?img = Some es" "brk s2 \<le> entries"
            "heap s3 = (heap s2)(entries \<mapsto> Entries es)"
          by auto
        have dir: "heap s3 = (heap s)(entries \<mapsto> Entries es)" "heap s entries = None"
          using es s2 wf by (auto simp: heap_wf_def)
        have wf_es: "\<forall>e \<in> set es. 0 < unat (e_size e) \<and>
            unat (e_offset e) + unat (e_size e) \<le> length (f_data f3)"
          using image_directory_wf(4) [OF es(1) len(3)] p by (auto simp: entry_wf_def)
        have ev: "evolves s s3" "brk s \<le> brk s3"
          using p s2 by (auto intro: evolves_trans dest: evolves_fields(6))
        have spec: "file_spec ?img requested = load_modules (f_data f3) es (requested_ids requested)"
          using len es p by (simp add: file_spec_def)
        have run4: "stage_payloads requested entries f3 s3 = (st, t)"
          using run3 True by simp
        have wf3: "heap_wf s3"
          using p by simp
        have frame: "img_frame (fclose s3) t \<Longrightarrow> img_frame (fclose s) t"
          using ev fclose_evolves [OF ev(1)] evolves_img_frame [of "fclose s" "fclose s3"]
          by (auto simp: img_frame_def)
        have "\<not> all_succeed s3 \<Longrightarrow> \<not> all_succeed s"
          using ev(1) by (auto dest: evolves_fields(7))
        with stage_payloads_result [OF run4 wf3 dir wf_es ev(2)] spec frame fclose_evolves [OF ev(1)]
        show ?thesis
          by (auto intro: evolves_trans)
      qed
    qed
  qed
qed

lemma fopen_cases:
  assumes "fopen path s = (r, t)"
  obtains (fail) "r = None" "evolves s t" "heap t = heap s" "brk t = brk s"
      "files s path = None \<or> \<not> all_succeed s"
  | (ok) img where "r = Some \<lparr>f_data = img, f_pos = 0\<rparr>" "files s path = Some img"
      "evolves s (fclose t)" "heap t = heap s" "brk t = brk s" "all_succeed s \<longrightarrow> all_succeed t"
proof -
  obtain b s1 where call: "next_call s = (b, s1)"
    by fastforce
  note eff = next_call_calls [OF call]
  then have s1: "evolves s s1" "heap s1 = heap s" "brk s1 = brk s" "files s1 = files s"
    using calls_only_evolves [of s s1] by (auto simp: evolves_def)
  show thesis
  proof (cases "files s path")
    case None
    with assms call s1 show thesis
      by (intro fail) (auto simp: fopen_def)
  next
    case (Some img)
    show thesis
    proof (cases b)
      case True
      with assms call s1 Some eff show thesis
        by (intro ok [of img]) (auto simp: fopen_def fclose_def evolves_def all_succeed_def)
    next
      case False
      with assms call s1 Some eff show thesis
        by (intro fail) (auto simp: fopen_def)
    qed
  qed
qed

text \<open>
  The whole function, from a state with nothing staged: on success the provider owns exactly
  the modules the specification gives; otherwise only pending outcomes were used up, and the
  status is the specification's unless some call failed.
\<close>

lemma stage_from_path_result:
  assumes run: "stage_from_path (Some path) q s = (st, t)" and wf: "heap_wf s"
    and idle: "g_staged_modules s = 0" "g_staged_count s = 0"
    and q: "q \<noteq> 0" "\<not> unknown_bits q"
  shows "heap_wf t \<and>
    (if st = PS2_DRIVERS_IMG_OK
     then img_frame s t \<and>
       (\<exists>img ps. files s path = Some img \<and> stage_spec img q = Inr ps \<and>
          staged_state (heap s) (brk s) ps t)
     else evolves s t \<and> heap t = heap s \<and>
       (st \<in> {PS2_DRIVERS_IMG_ERR_OPEN, PS2_DRIVERS_IMG_ERR_MEMORY, PS2_DRIVERS_IMG_ERR_IO,
            PS2_DRIVERS_IMG_ERR_FORMAT} \<and> \<not> all_succeed s \<or>
        st = PS2_DRIVERS_IMG_ERR_OPEN \<and> files s path = None \<or>
        (\<exists>img. files s path = Some img \<and> stage_spec img q = Inl st)))"
proof -
  let ?req = "expand_requirements q no_modules"
  obtain r where "bit q (req_bit r)"
    using known_nonzero [OF q] by blast
  moreover have "driver_closure r \<noteq> []"
    by (cases r) simp_all
  ultimately have "hd (driver_closure r) \<in> required_modules q"
    by (auto simp: required_modules_def intro!: exI [of _ r] hd_in_set)
  then have ne: "requested_ids ?req \<noteq> []"
    using set_requested_ids [of q] by auto
  obtain fo s1 where op: "fopen path s = (fo, s1)"
    by fastforce
  then show ?thesis
  proof (cases rule: fopen_cases)
    case fail
    with run idle q ne op wf show ?thesis
      by (auto simp: stage_from_path_def heap_wf_def)
  next
    case (ok img)
    have run1: "stage_open_file ?req \<lparr>f_data = img, f_pos = 0\<rparr> s1 = (st, t)"
      using run idle q ne op ok(1) by (simp add: stage_from_path_def)
    have wf1: "heap_wf s1"
      using ok wf by (simp add: heap_wf_def)
    have frame: "img_frame (fclose s1) t \<Longrightarrow> img_frame s t"
      using evolves_img_frame [OF ok(3)] by (auto simp: img_frame_def)
    show ?thesis
      using stage_open_file_result [OF run1 wf1] ok frame
      by (auto simp: stage_spec_def intro: evolves_trans)
  qed
qed

end
