(* ===== verification/Staged_Store.thy ===== *)
theory Staged_Store
  imports Staging
begin

text \<open>
  The staged modules as a store (the last part of src/ps2_drivers_img.c): what the driver
  initialisation takes from the image provider, \<^verbatim>\<open>ps2_drivers_img_get_staged\<close> and
  \<^verbatim>\<open>ps2_drivers_img_release_staged\<close>, with the two ways to give modules back at once.
  \<open>img_inv\<close> is the invariant of the provider: its counters agree with its array, every buffer
  is live, and it owns every allocation there is. \<open>staged_map\<close> is what the store holds, as a
  map from module numbers to bytes. The locale \<open>module_store\<close> is the contract the execution of
  modules relies on; it is interpreted here on the provider's functions.
\<close>

text \<open>
  The array the loops \<^verbatim>\<open>for (i = 0; i < g_staged_capacity; ++i)\<close> run over; \<open>None\<close> when an
  access would be undefined.
\<close>

definition staged_slots :: "img_state \<Rightarrow> irx_staged_module list option" where
  "staged_slots s =
     (if g_staged_capacity s = 0 then Some []
      else case heap s (g_staged_modules s) of
             Some (Modules ms) \<Rightarrow>
               if g_staged_capacity s \<le> length ms then Some (take (g_staged_capacity s) ms) else None
           | _ \<Rightarrow> None)"

fun staged_index :: "u32 \<Rightarrow> irx_staged_module list \<Rightarrow> nat option" where
  "staged_index n [] = None"
| "staged_index n (m # ms) =
     (if sm_id m = n \<and> sm_data m \<noteq> 0 then Some 0 else map_option Suc (staged_index n ms))"

definition ps2_drivers_img_staged_bytes :: "img_state \<Rightarrow> nat" where
  "ps2_drivers_img_staged_bytes s = g_staged_bytes s"

definition ps2_drivers_img_staged_modules :: "img_state \<Rightarrow> nat" where
  "ps2_drivers_img_staged_modules s = g_staged_count s"

text \<open>
  The result and what is written through the pointers; \<open>out\<close> says that neither of them is
  \<^verbatim>\<open>NULL\<close>.
\<close>

definition ps2_drivers_img_get_staged ::
  "u32 \<Rightarrow> bool \<Rightarrow> img_state \<Rightarrow> (int \<times> (nat \<times> u32) option) \<times> img_state" where
  "ps2_drivers_img_get_staged module_id out s =
     (if \<not> out then ((-1, None), s)
      else case staged_slots s of
             None \<Rightarrow> ((-1, None), s\<lparr>ub := True\<rparr>)
           | Some ms \<Rightarrow>
               case staged_index module_id ms of
                 Some i \<Rightarrow> ((0, Some (sm_data (ms ! i), sm_size (ms ! i))), s)
               | None \<Rightarrow> ((-1, None), s))"

text \<open>The body of the loop of \<^verbatim>\<open>ps2_drivers_img_release_staged\<close> for the module found.\<close>

definition release_slot :: "nat \<Rightarrow> irx_staged_module \<Rightarrow> img_state \<Rightarrow> img_state" where
  "release_slot i m s =
     (let s1 = set_module (g_staged_modules s) i (m\<lparr>sm_data := 0, sm_size := 0\<rparr>) (free (sm_data m) s)
      in s1\<lparr>g_staged_bytes :=
              (if g_staged_bytes s1 \<ge> unat (sm_size m) then g_staged_bytes s1 - unat (sm_size m) else 0),
            g_staged_count := (if g_staged_count s1 > 0 then g_staged_count s1 - 1 else g_staged_count s1)\<rparr>)"

definition ps2_drivers_img_release_staged :: "u32 \<Rightarrow> img_state \<Rightarrow> img_state" where
  "ps2_drivers_img_release_staged module_id s =
     (let s1 = (case staged_slots s of
                  None \<Rightarrow> s\<lparr>ub := True\<rparr>
                | Some ms \<Rightarrow>
                    case staged_index module_id ms of
                      None \<Rightarrow> s
                    | Some i \<Rightarrow> release_slot i (ms ! i) s)
      in if g_staged_count s1 = 0 \<and> g_staged_modules s1 \<noteq> 0
         then (free (g_staged_modules s1) s1)
                \<lparr>g_staged_modules := 0, g_staged_capacity := 0, g_staged_bytes := 0\<rparr>
         else s1)"

definition ps2_drivers_img_discard_staged :: "img_state \<Rightarrow> img_state" where
  "ps2_drivers_img_discard_staged s =
     (free_staged_array (g_staged_modules s) (g_staged_capacity s) s)
       \<lparr>g_staged_modules := 0, g_staged_capacity := 0, g_staged_count := 0, g_staged_bytes := 0\<rparr>"

definition ps2_drivers_img_forget_source :: "img_state \<Rightarrow> img_state" where
  "ps2_drivers_img_forget_source s =
     (free (g_image_path s) s)\<lparr>g_image_path := 0, g_last_requirements := 0\<rparr>"

subsection \<open>Invariant and abstraction\<close>

definition staged_ok :: "img_state \<Rightarrow> irx_staged_module list \<Rightarrow> bool" where
  "staged_ok s ms \<longleftrightarrow>
     (if g_staged_modules s = 0 then ms = []
      else heap s (g_staged_modules s) = Some (Modules ms) \<and> 0 < g_staged_count s) \<and>
     g_staged_capacity s = length ms \<and>
     g_staged_count s = length (filter module_live ms) \<and>
     g_staged_bytes s = (\<Sum>m \<leftarrow> ms. unat (sm_size m)) \<and>
     distinct (map sm_id ms) \<and>
     distinct (map sm_data (filter module_live ms)) \<and>
     (\<forall>m \<in> set ms. if module_live m then buffer_ok s m else sm_size m = 0)"

definition path_ok :: "img_state \<Rightarrow> bool" where
  "path_ok s \<longleftrightarrow>
     (if g_image_path s = 0 then g_last_requirements s = 0
      else (\<exists>p. heap s (g_image_path s) = Some (Path p)) \<and>
        g_last_requirements s \<noteq> 0 \<and> \<not> unknown_bits (g_last_requirements s))"

text \<open>The addresses the static variables lead to.\<close>

definition owned :: "img_state \<Rightarrow> irx_staged_module list \<Rightarrow> nat set" where
  "owned s ms = ({g_staged_modules s, g_image_path s} \<union> sm_data ` set ms) - {0}"

definition img_inv :: "img_state \<Rightarrow> bool" where
  "img_inv s \<longleftrightarrow>
     heap_wf s \<and> \<not> ub s \<and> opened s = 0 \<and> path_ok s \<and>
     (\<exists>ms. staged_ok s ms \<and> dom (heap s) = owned s ms)"

definition staged_map :: "img_state \<Rightarrow> u32 \<rightharpoonup> u8 list" where
  "staged_map s =
     (case heap s (g_staged_modules s) of
        Some (Modules ms) \<Rightarrow> map_of (map (\<lambda>m. (sm_id m, payload s m)) (filter module_live ms))
      | _ \<Rightarrow> Map.empty)"

text \<open>The remembered source: the path of the last image and the last requirements.\<close>

definition remembered :: "img_state \<Rightarrow> (string \<times> u32) option" where
  "remembered s =
     (case heap s (g_image_path s) of
        Some (Path p) \<Rightarrow> Some (p, g_last_requirements s)
      | _ \<Rightarrow> None)"

text \<open>The bytes \<^verbatim>\<open>get_staged\<close> gives access to.\<close>

definition get_bytes :: "u32 \<Rightarrow> img_state \<Rightarrow> u8 list option" where
  "get_bytes n s =
     (case ps2_drivers_img_get_staged n True s of
        ((r, Some (data, sz)), _) \<Rightarrow>
          (case heap s data of Some (Bytes bs) \<Rightarrow> Some (take (unat sz) bs) | _ \<Rightarrow> None)
      | _ \<Rightarrow> None)"

subsection \<open>The search\<close>

lemma staged_index_split:
  "staged_index n ms = Some i \<Longrightarrow> \<exists>pre m post. ms = pre @ m # post \<and> i = length pre \<and>
     sm_id m = n \<and> module_live m \<and> (\<forall>x \<in> set pre. module_live x \<longrightarrow> sm_id x \<noteq> n)"
proof (induction ms arbitrary: i)
  case Nil
  then show ?case by simp
next
  case (Cons x ms)
  show ?case
  proof (cases "sm_id x = n \<and> sm_data x \<noteq> 0")
    case True
    with Cons.prems show ?thesis
      by (intro exI [of _ "[]"] exI [of _ x] exI [of _ ms]) (auto simp: module_live_def)
  next
    case False
    with Cons.prems obtain j where j: "staged_index n ms = Some j" "i = Suc j"
      by auto
    from Cons.IH [OF j(1)] obtain pre m post where
      "ms = pre @ m # post" "j = length pre" "sm_id m = n" "module_live m"
      "\<forall>x \<in> set pre. module_live x \<longrightarrow> sm_id x \<noteq> n"
      by blast
    with False j show ?thesis
      by (intro exI [of _ "x # pre"] exI [of _ m] exI [of _ post]) (auto simp: module_live_def)
  qed
qed

lemma staged_index_None:
  "staged_index n ms = None \<longleftrightarrow> (\<forall>m \<in> set ms. module_live m \<longrightarrow> sm_id m \<noteq> n)"
  by (induction ms) (auto simp: module_live_def)

lemma staged_slots_ok:
  "staged_ok s ms \<Longrightarrow> staged_slots s = Some ms"
  by (auto simp: staged_ok_def staged_slots_def split: if_splits)

lemma staged_map_ok:
  "staged_ok s ms \<Longrightarrow> heap_wf s \<Longrightarrow>
     staged_map s = map_of (map (\<lambda>m. (sm_id m, payload s m)) (filter module_live ms))"
  by (auto simp: staged_ok_def staged_map_def heap_wf_def split: if_splits)

lemma img_invE:
  assumes "img_inv s"
  obtains ms where "heap_wf s" "\<not> ub s" "opened s = 0" "path_ok s"
    "staged_ok s ms" "dom (heap s) = owned s ms"
  using assms by (auto simp: img_inv_def)

lemma img_inv_staged_modules: "img_inv s \<Longrightarrow> g_staged_modules s = 0 \<longleftrightarrow> g_staged_count s = 0"
  by (elim img_invE) (auto simp: staged_ok_def split: if_splits)

lemma remembered_cong:
  "heap t (g_image_path t) = heap s (g_image_path s) \<Longrightarrow>
   g_last_requirements t = g_last_requirements s \<Longrightarrow> remembered t = remembered s"
  by (simp add: remembered_def split: option.split img_block.split)

text \<open>The three kinds of blocks are different blocks.\<close>

lemma staged_separate:
  assumes "staged_ok s ms" "path_ok s" "heap_wf s"
  shows "m \<in> set ms \<Longrightarrow> module_live m \<Longrightarrow> sm_data m \<noteq> g_staged_modules s \<and> sm_data m \<noteq> g_image_path s"
    and "g_staged_modules s \<noteq> 0 \<Longrightarrow> g_staged_modules s \<noteq> g_image_path s"
  using assms
  by (fastforce simp: staged_ok_def path_ok_def buffer_ok_def heap_wf_def module_live_def split: if_splits)+

subsection \<open>Looking up\<close>

lemma get_bytes_staged_map:
  assumes "img_inv s"
  shows "get_bytes n s = staged_map s n"
  using assms
proof (rule img_invE)
  fix ms
  assume s: "heap_wf s" "staged_ok s ms"
  note map = staged_map_ok [OF s(2,1)]
  show ?thesis
  proof (cases "staged_index n ms")
    case None
    then have "n \<notin> sm_id ` set (filter module_live ms)"
      by (auto simp: staged_index_None)
    then have "staged_map s n = None"
      unfolding map by (rule map_of_map_None)
    with None show ?thesis
      by (simp add: get_bytes_def ps2_drivers_img_get_staged_def staged_slots_ok [OF s(2)])
  next
    case (Some i)
    then obtain pre m post where m: "ms = pre @ m # post" "i = length pre" "sm_id m = n" "module_live m"
      by (blast dest: staged_index_split)
    have dist: "distinct (map sm_id (filter module_live ms))"
      using s(2) by (intro distinct_map_filter_fst) (simp add: staged_ok_def)
    have "m \<in> set (filter module_live ms)"
      using m by simp
    then have "staged_map s n = Some (payload s m)"
      unfolding map using map_of_map_restrict [OF dist, of m "payload s"] m(3) by simp
    moreover have "buffer_ok s m"
      using s(2) m by (auto simp: staged_ok_def split: if_splits)
    ultimately show ?thesis
      using Some m(1,2)
      by (auto simp: get_bytes_def ps2_drivers_img_get_staged_def staged_slots_ok [OF s(2)]
          buffer_ok_def payload_def)
  qed
qed

lemma get_staged_pure:
  assumes "img_inv s"
  shows "snd (ps2_drivers_img_get_staged n out s) = s"
  using assms
  by (elim img_invE) (auto simp: ps2_drivers_img_get_staged_def staged_slots_ok split: option.splits)

text \<open>A module that is held has at least one byte.\<close>

lemma staged_map_nonempty:
  assumes "img_inv s" and "staged_map s n = Some bs"
  shows "bs \<noteq> []"
  using assms(1)
proof (rule img_invE)
  fix ms
  assume s: "heap_wf s" "staged_ok s ms"
  have "map_of (map (\<lambda>m. (sm_id m, payload s m)) (filter module_live ms)) n = Some bs"
    using assms(2) staged_map_ok [OF s(2,1)] by simp
  then obtain m where m: "m \<in> set ms" "module_live m" "bs = payload s m"
    by (fastforce dest: map_of_SomeD)
  then have "buffer_ok s m"
    using s(2) by (auto simp: staged_ok_def split: if_splits)
  with m(3) show ?thesis
    by (auto simp: buffer_ok_def payload_def)
qed

subsection \<open>Releasing\<close>

text \<open>Found: the block is freed, and the array and the counters are adjusted.\<close>

lemma release_slot_effect:
  assumes "heap_wf s" "path_ok s" "staged_ok s (pre @ m # post)" "module_live m"
  defines "t \<equiv> release_slot (length pre) m s"
    and "ms \<equiv> pre @ m\<lparr>sm_data := 0, sm_size := 0\<rparr> # post"
  shows "heap_wf t" "ub t = ub s" "opened t = opened s"
    "heap t = (heap s)(sm_data m := None, g_staged_modules s \<mapsto> Modules ms)"
    "g_staged_modules t = g_staged_modules s" "g_staged_capacity t = g_staged_capacity s"
    "g_staged_count t = g_staged_count s - 1"
    "g_staged_bytes t = (\<Sum>m \<leftarrow> ms. unat (sm_size m))"
    "g_image_path t = g_image_path s" "g_last_requirements t = g_last_requirements s"
proof -
  have mod: "g_staged_modules s \<noteq> 0" "heap s (g_staged_modules s) = Some (Modules (pre @ m # post))"
      and buf: "buffer_ok s m"
    using assms(3,4) by (auto simp: staged_ok_def split: if_splits)
  have sep: "sm_data m \<noteq> g_staged_modules s"
    using staged_separate(1) [OF assms(3,2,1), of m] assms(4) by simp
  obtain bs where bs: "heap s (sm_data m) = Some (Bytes bs)"
    using buf by (auto simp: buffer_ok_def)
  let ?s1 = "free (sm_data m) s"
  note s1 = free_live [OF bs assms(1)]
  have arr: "heap ?s1 (g_staged_modules s) = Some (Modules (pre @ m # post))"
    using s1 mod sep by simp
  let ?s2 = "set_module (g_staged_modules s) (length pre) (m\<lparr>sm_data := 0, sm_size := 0\<rparr>) ?s1"
  have s2: "evolves ?s1 ?s2" "heap_wf ?s2"
      "heap ?s2 = (heap ?s1)(g_staged_modules s \<mapsto> Modules ms)"
    using set_module_live [OF arr, of "length pre" "m\<lparr>sm_data := 0, sm_size := 0\<rparr>"] s1
    by (auto simp: ms_def)
  have ev: "evolves s ?s2"
    using s1 s2 by (blast intro: evolves_trans)
  note f = evolves_statics [OF ev] evolves_fields [OF ev]
  have bytes: "g_staged_bytes s = (\<Sum>m \<leftarrow> ms. unat (sm_size m)) + unat (sm_size m)"
    using assms(3) by (simp add: staged_ok_def ms_def)
  show "heap_wf t" "ub t = ub s" "opened t = opened s"
    "heap t = (heap s)(sm_data m := None, g_staged_modules s \<mapsto> Modules ms)"
    "g_staged_modules t = g_staged_modules s" "g_staged_capacity t = g_staged_capacity s"
    "g_staged_count t = g_staged_count s - 1"
    "g_staged_bytes t = (\<Sum>m \<leftarrow> ms. unat (sm_size m))"
    "g_image_path t = g_image_path s" "g_last_requirements t = g_last_requirements s"
    using s2 s1 f bytes by (simp_all add: t_def release_slot_def Let_def heap_wf_def)
qed

lemma map_of_zeroed:
  assumes "distinct (map sm_id (pre @ m # post))" and "module_live m"
    and "\<forall>x \<in> set (pre @ post). module_live x \<longrightarrow> g x = h x"
  shows "map_of (map (\<lambda>x. (sm_id x, g x)) (filter module_live (pre @ m\<lparr>sm_data := 0, sm_size := 0\<rparr> # post))) =
     (map_of (map (\<lambda>x. (sm_id x, h x)) (filter module_live (pre @ m # post))))(sm_id m := None)"
proof
  fix n
  have eq: "map (\<lambda>x. (sm_id x, g x)) (filter module_live pre) = map (\<lambda>x. (sm_id x, h x)) (filter module_live pre)"
      "map (\<lambda>x. (sm_id x, g x)) (filter module_live post) = map (\<lambda>x. (sm_id x, h x)) (filter module_live post)"
    using assms(3) by (intro map_cong; simp)+
  have no: "map_of (map (\<lambda>x. (sm_id x, h x)) (filter module_live (pre @ post))) (sm_id m) = None"
    using assms(1) by (intro map_of_map_None) auto
  then show "map_of (map (\<lambda>x. (sm_id x, g x))
        (filter module_live (pre @ m\<lparr>sm_data := 0, sm_size := 0\<rparr> # post))) n =
     ((map_of (map (\<lambda>x. (sm_id x, h x)) (filter module_live (pre @ m # post))))(sm_id m := None)) n"
    using assms(2) by (cases "n = sm_id m") (auto simp: eq module_live_def map_add_def split: option.splits)
qed

text \<open>
  The state after the loop, before the test for an empty store: the module has left the store
  and nothing else has changed. The counters may have reached zero.
\<close>

lemma release_slot_ok:
  assumes s: "heap_wf s" "path_ok s" "staged_ok s (pre @ m # post)" "module_live m"
  defines "t \<equiv> release_slot (length pre) m s"
    and "ms \<equiv> pre @ m\<lparr>sm_data := 0, sm_size := 0\<rparr> # post"
  shows "g_staged_count t \<noteq> 0 \<Longrightarrow> staged_ok t ms"
    and "g_staged_count t = length (filter module_live ms)"
    and "path_ok t" and "remembered t = remembered s"
    and "map_of (map (\<lambda>x. (sm_id x, payload t x)) (filter module_live ms)) = (staged_map s)(sm_id m := None)"
    and "dom (heap t) = dom (heap s) - {sm_data m}"
    and "owned t ms = owned s (pre @ m # post) - {sm_data m}"
proof -
  let ?all = "pre @ m # post"
  note t = release_slot_effect [OF s, folded t_def ms_def]
  note sep = staged_separate [OF s(3,2,1)]
  have mod: "g_staged_modules s \<noteq> 0" "heap s (g_staged_modules s) = Some (Modules ?all)"
      and old: "\<And>x. x \<in> set ?all \<Longrightarrow> if module_live x then buffer_ok s x else sm_size x = 0"
      and dist: "distinct (map sm_data (filter module_live ?all))" "distinct (map sm_id ?all)"
      and cnt: "g_staged_count s = length (filter module_live ?all)" "g_staged_capacity s = length ?all"
    using s(3) by (auto simp: staged_ok_def split: if_splits)
  have "sm_data m \<notin> sm_data ` set (filter module_live (pre @ post))"
    using dist(1) s(4) by (simp add: image_Un)
  then have diff: "sm_data x \<noteq> sm_data m" if "x \<in> set (pre @ post)" "module_live x" for x
    using that by (metis (mono_tags, lifting) imageI mem_Collect_eq set_filter)
  have keep: "heap t (sm_data x) = heap s (sm_data x)" if "x \<in> set (pre @ post)" "module_live x" for x
    using that sep(1) [of x] diff [of x] by (auto simp: t(4))
  have buf: "buffer_ok t x" if "x \<in> set (pre @ post)" "module_live x" for x
    using that keep [OF that] old [of x] by (auto simp: buffer_ok_def)
  have size: "sm_size x = 0" if "x \<in> set (pre @ post)" "\<not> module_live x" for x
    using that old [of x] by auto
  show count: "g_staged_count t = length (filter module_live ms)"
    using cnt s(4) by (simp add: t(7) ms_def module_live_def)
  have "distinct (map sm_id ms)" "distinct (map sm_data (filter module_live ms))"
    using dist by (simp_all add: ms_def module_live_def split: if_splits)
  with count show "staged_ok t ms" if "g_staged_count t \<noteq> 0"
    unfolding staged_ok_def using that mod(1) cnt(2) buf size t(4-6,8)
    by (auto simp: ms_def module_live_def)
  have "g_image_path s \<noteq> sm_data m" "g_image_path s \<noteq> g_staged_modules s"
    using sep(1) [of m] sep(2) mod(1) s(4) by auto
  then have path: "heap t (g_image_path t) = heap s (g_image_path s)"
    by (simp add: t)
  then show "path_ok t" "remembered t = remembered s"
    using s(2) t(9,10) by (auto simp: path_ok_def intro: remembered_cong split: if_splits)
  show "map_of (map (\<lambda>x. (sm_id x, payload t x)) (filter module_live ms)) = (staged_map s)(sm_id m := None)"
    unfolding ms_def staged_map_ok [OF s(3,1)] using dist(2) s(4) keep
    by (intro map_of_zeroed) (auto simp: payload_def)
  show "dom (heap t) = dom (heap s) - {sm_data m}"
    using mod sep(1) [of m] s(4) by (auto simp: t(4))
  have "sm_data x \<noteq> sm_data m" if "x \<in> set (pre @ post)" for x
    using diff [OF that] s(4) by (auto simp: module_live_def)
  then show "owned t ms = owned s ?all - {sm_data m}"
    using sep(1) [of m] s(4) by (auto simp: owned_def ms_def t module_live_def)
qed

text \<open>The release of the array of a store that became empty.\<close>

lemma free_empty_array:
  assumes u: "heap_wf u" "\<not> ub u" "opened u = 0" "path_ok u"
    and arr: "heap u (g_staged_modules u) = Some (Modules ms)" "g_staged_count u = 0"
      "filter module_live ms = []" "dom (heap u) = owned u ms"
  defines "t \<equiv> (free (g_staged_modules u) u)
      \<lparr>g_staged_modules := 0, g_staged_capacity := 0, g_staged_bytes := 0\<rparr>"
  shows "img_inv t" and "staged_map t = Map.empty" and "remembered t = remembered u"
proof -
  note f = free_live [OF arr(1) u(1)]
  note fs = evolves_statics [OF conjunct1 [OF f]] evolves_fields [OF conjunct1 [OF f]]
  have t: "heap t = (heap u)(g_staged_modules u := None)" "brk t = brk u" "ub t = ub u"
      "opened t = 0" "g_image_path t = g_image_path u" "g_last_requirements t = g_last_requirements u"
      "g_staged_modules t = 0" "g_staged_capacity t = 0" "g_staged_bytes t = 0" "g_staged_count t = 0"
    using f fs u(3) arr(2) by (simp_all add: t_def)
  have sep: "g_image_path u \<noteq> g_staged_modules u"
    using u(1,4) arr(1)
    by (cases "g_staged_modules u = 0") (auto simp: path_ok_def heap_wf_def split: if_splits)
  have path: "heap t (g_image_path t) = heap u (g_image_path u)"
    using sep by (simp add: t)
  then show "remembered t = remembered u"
    using t(6) by (rule remembered_cong)
  have wf: "heap_wf t"
    using u(1) by (simp add: heap_wf_def t)
  then show "staged_map t = Map.empty"
    by (simp add: staged_map_def t(7) heap_wf_def)
  have "\<forall>x \<in> set ms. sm_data x = 0"
    using arr(3) by (auto simp: filter_empty_conv module_live_def)
  then have "owned t [] = owned u ms - {g_staged_modules u}"
    using sep by (auto simp: owned_def t)
  moreover have "dom (heap t) = dom (heap u) - {g_staged_modules u}"
    by (auto simp: t)
  moreover have "staged_ok t []"
    by (simp add: staged_ok_def t)
  moreover have "path_ok t"
    using u(4) path t(5,6) by (simp add: path_ok_def)
  ultimately show "img_inv t"
    unfolding img_inv_def using wf u(2) t(3,4) arr(4) by auto
qed

text \<open>Releasing a module takes it out of the store and keeps the invariant.\<close>

lemma release_staged_result:
  fixes n :: u32
  assumes inv: "img_inv s"
  defines "t \<equiv> ps2_drivers_img_release_staged n s"
  shows "img_inv t \<and> staged_map t = (staged_map s)(n := None) \<and> remembered t = remembered s"
proof -
  obtain ms where s: "heap_wf s" "path_ok s" "staged_ok s ms" and
      s': "\<not> ub s" "opened s = 0" "dom (heap s) = owned s ms"
    using inv by (rule img_invE)
  note map = staged_map_ok [OF s(3,1)]
  note def = ps2_drivers_img_release_staged_def staged_slots_ok [OF s(3)]
  show ?thesis
  proof (cases "staged_index n ms")
    case None
    then have "n \<notin> sm_id ` set (filter module_live ms)"
      by (auto simp: staged_index_None)
    then have "staged_map s n = None"
      unfolding map by (rule map_of_map_None)
    moreover have "t = s"
      using None img_inv_staged_modules [OF inv] by (auto simp: t_def def)
    ultimately show ?thesis
      using inv by (auto simp: fun_eq_iff)
  next
    case (Some i)
    then obtain pre m post where m: "ms = pre @ m # post" "i = length pre" "sm_id m = n" "module_live m"
      by (blast dest: staged_index_split)
    let ?u = "release_slot (length pre) m s"
    let ?ms = "pre @ m\<lparr>sm_data := 0, sm_size := 0\<rparr> # post"
    note sm = s(3) [unfolded m(1)]
    note u = release_slot_effect [OF s(1,2) sm m(4)] and ok = release_slot_ok [OF s(1,2) sm m(4)]
    have mod: "g_staged_modules s \<noteq> 0"
      using sm by (auto simp: staged_ok_def split: if_splits)
    have t: "t = (if g_staged_count ?u = 0
        then (free (g_staged_modules ?u) ?u)
               \<lparr>g_staged_modules := 0, g_staged_capacity := 0, g_staged_bytes := 0\<rparr>
        else ?u)"
      using mod m by (simp add: t_def def Some [unfolded m(1)] Let_def u(5))
    have dom: "dom (heap ?u) = owned ?u ?ms"
      using ok(6,7) s'(3) m(1) by simp
    show ?thesis
    proof (cases "g_staged_count ?u = 0")
      case True
      have arr: "heap ?u (g_staged_modules ?u) = Some (Modules ?ms)"
        by (simp add: u)
      have none: "filter module_live ?ms = []"
        using True ok(2) by simp
      then have "(staged_map s)(n := None) = Map.empty"
        using ok(5) m(3) by simp
      with free_empty_array [OF u(1) _ _ ok(3) arr True none dom] s' u(2,3) ok(4) t True show ?thesis
        by simp
    next
      case False
      note oku = ok(1) [OF False]
      have "img_inv ?u"
        unfolding img_inv_def using u(1,2,3) s'(1,2) ok(3) oku dom by auto
      moreover have "staged_map ?u = (staged_map s)(n := None)"
        using staged_map_ok [OF oku u(1)] ok(5) m(3) by simp
      ultimately show ?thesis
        using t False ok(4) by simp
    qed
  qed
qed

subsection \<open>Giving everything back\<close>

lemma discard_staged_result:
  assumes inv: "img_inv s"
  defines "t \<equiv> ps2_drivers_img_discard_staged s"
  shows "img_inv t \<and> staged_map t = Map.empty \<and> remembered t = remembered s \<and>
    ps2_drivers_img_staged_bytes t = 0 \<and> ps2_drivers_img_staged_modules t = 0"
proof -
  obtain ms where s: "heap_wf s" "path_ok s" "staged_ok s ms" and
      s': "\<not> ub s" "opened s = 0" "dom (heap s) = owned s ms"
    using inv by (rule img_invE)
  let ?u = "free_staged_array (g_staged_modules s) (g_staged_capacity s) s"
  let ?gone = "insert (g_staged_modules s) (sm_data ` set ms)"
  note sep = staged_separate [OF s(3,2,1)]
  have u: "evolves s ?u \<and> heap_wf ?u \<and> heap ?u = (\<lambda>a. if a \<in> ?gone then None else heap s a)"
  proof (cases "g_staged_modules s = 0")
    case True
    then have "ms = []"
      using s(3) by (simp add: staged_ok_def)
    with True s(1) show ?thesis
      by (auto simp: free_staged_array_def heap_wf_def)
  next
    case False
    then have arr: "heap s (g_staged_modules s) = Some (Modules ms)" "g_staged_capacity s = length ms"
        and d: "distinct (map sm_data (filter module_live ms))"
        and old: "\<forall>m \<in> set ms. module_live m \<longrightarrow> buffer_ok s m"
      using s(3) by (auto simp: staged_ok_def split: if_splits)
    have "\<forall>m \<in> set ms. module_live m \<longrightarrow> heap s (sm_data m) \<noteq> None \<and> sm_data m \<noteq> g_staged_modules s"
      using old sep by (auto simp: buffer_ok_def)
    from free_staged_array_live [OF arr(1) s(1) d this] show ?thesis
      by (simp add: arr(2) fun_eq_iff)
  qed
  note fs = evolves_statics [OF conjunct1 [OF u]] evolves_fields [OF conjunct1 [OF u]]
  have t: "heap t = heap ?u" "brk t = brk ?u" "ub t = ub s" "opened t = 0" "g_image_path t = g_image_path s"
      "g_last_requirements t = g_last_requirements s" "g_staged_modules t = 0"
      "g_staged_capacity t = 0" "g_staged_count t = 0" "g_staged_bytes t = 0"
    using fs s'(2) by (simp_all add: t_def ps2_drivers_img_discard_staged_def)
  have out: "g_image_path s \<notin> ?gone \<or> g_image_path s = 0"
    using sep by (metis imageE insertE module_live_def)
  then have path: "heap t (g_image_path t) = heap s (g_image_path s)"
    using u s(1) t(1,5) by (auto simp: heap_wf_def)
  have wf: "heap_wf t"
    using heap_wf_eq [OF t(1,2)] u by blast
  have "dom (heap t) = dom (heap s) - ?gone"
    unfolding t(1) conjunct2 [OF conjunct2 [OF u]] by (auto split: if_splits)
  also have "\<dots> = owned t []"
    unfolding s'(3) owned_def t(5,7) using out by auto
  finally have "dom (heap t) = owned t []" .
  moreover have "staged_ok t []" "path_ok t"
    using s(2) path by (simp_all add: staged_ok_def path_ok_def t)
  ultimately have "img_inv t"
    unfolding img_inv_def using wf s'(1) t(3,4) by auto
  then show ?thesis
    using wf path t
    by (auto simp: staged_map_def heap_wf_def ps2_drivers_img_staged_bytes_def
        ps2_drivers_img_staged_modules_def intro: remembered_cong)
qed

lemma forget_source_result:
  assumes inv: "img_inv s"
  defines "t \<equiv> ps2_drivers_img_forget_source s"
  shows "img_inv t \<and> staged_map t = staged_map s \<and> remembered t = None"
proof -
  obtain ms where s: "heap_wf s" "path_ok s" "staged_ok s ms" and
      s': "\<not> ub s" "opened s = 0" "dom (heap s) = owned s ms"
    using inv by (rule img_invE)
  let ?u = "free (g_image_path s) s" and ?p = "g_image_path s"
  note sep = staged_separate [OF s(3,2,1)]
  have u: "evolves s ?u \<and> heap_wf ?u \<and> heap ?u = (heap s)(?p := None)"
  proof (cases "?p = 0")
    case True
    then show ?thesis
      using s(1) by (auto simp: heap_wf_def)
  next
    case False
    then obtain q where "heap s ?p = Some (Path q)"
      using s(2) by (auto simp: path_ok_def)
    from free_live [OF this s(1)] show ?thesis by blast
  qed
  note fs = evolves_statics [OF conjunct1 [OF u]] evolves_fields [OF conjunct1 [OF u]]
  have t: "heap t = (heap s)(?p := None)" "brk t = brk ?u" "ub t = ub s" "opened t = 0" "g_image_path t = 0"
      "g_last_requirements t = 0" "g_staged_modules t = g_staged_modules s"
      "g_staged_capacity t = g_staged_capacity s" "g_staged_count t = g_staged_count s"
      "g_staged_bytes t = g_staged_bytes s"
    using u fs s'(2) by (simp_all add: t_def ps2_drivers_img_forget_source_def)
  have wf: "heap_wf t"
    using heap_wf_eq [of t ?u] t(1,2) u by metis
  have keep: "heap t (sm_data m) = heap s (sm_data m)" if "m \<in> set ms" "module_live m" for m
    using sep(1) [OF that] by (simp add: t)
  have arr: "g_staged_modules s \<noteq> 0 \<Longrightarrow> heap t (g_staged_modules s) = heap s (g_staged_modules s)"
    using sep(2) by (simp add: t)
  have buf: "buffer_ok t m \<longleftrightarrow> buffer_ok s m" if "m \<in> set ms" "module_live m" for m
    using keep [OF that] by (simp add: buffer_ok_def)
  have ok: "staged_ok t ms"
    using s(3) arr buf by (auto simp: staged_ok_def t(7-10))
  have none: "g_image_path s \<notin> sm_data ` set ms \<or> g_image_path s = 0"
    using sep(1) by (metis imageE module_live_def)
  have sets: "({a, p} \<union> D) - {0} - {p} = ({a, 0} \<union> D) - {0}"
    if "p \<notin> D \<or> p = 0" "a \<noteq> 0 \<Longrightarrow> a \<noteq> p" for a p :: nat and D
    using that by auto
  have "dom (heap t) = dom (heap s) - {?p}"
    by (simp add: t(1))
  also have "\<dots> = owned t ms"
    unfolding s'(3) owned_def t(5,7) by (rule sets) (use none sep(2) in blast)+
  finally have "dom (heap t) = owned t ms" .
  with ok have "img_inv t"
    unfolding img_inv_def using wf s'(1) t by (auto simp: path_ok_def)
  moreover have "staged_map t = staged_map s"
    unfolding staged_map_ok [OF ok wf] staged_map_ok [OF s(3,1)] using keep
    by (intro arg_cong [of _ _ map_of] map_cong) (simp_all add: payload_def)
  moreover have "remembered t = None"
    using wf by (simp add: remembered_def t(5) heap_wf_def)
  ultimately show ?thesis
    by blast
qed

subsection \<open>The contract of a module store\<close>

text \<open>
  What taking modules from a store relies on: \<open>get\<close> answers what the store holds, and
  \<open>release\<close> takes one module out and leaves the others. Whoever executes modules needs nothing
  else of the provider.
\<close>

locale module_store =
  fixes get :: "'k \<Rightarrow> 's \<Rightarrow> 'v option"
    and release :: "'k \<Rightarrow> 's \<Rightarrow> 's"
    and inv :: "'s \<Rightarrow> bool"
    and lookup :: "'s \<Rightarrow> 'k \<rightharpoonup> 'v"
  assumes get_lookup: "inv s \<Longrightarrow> get k s = lookup s k"
    and release_inv: "inv s \<Longrightarrow> inv (release k s)"
    and release_lookup: "inv s \<Longrightarrow> lookup (release k s) = (lookup s)(k := None)"
begin

lemma get_released: "inv s \<Longrightarrow> get k (release k s) = None"
  by (simp add: get_lookup release_inv release_lookup)

lemma get_other: "inv s \<Longrightarrow> j \<noteq> k \<Longrightarrow> get j (release k s) = get j s"
  by (simp add: get_lookup release_inv release_lookup)

lemma release_all:
  "inv s \<Longrightarrow> inv (fold release ks s) \<and> lookup (fold release ks s) = lookup s |` (- set ks)"
proof (induction ks arbitrary: s)
  case Nil
  then show ?case by simp
next
  case (Cons k ks)
  have "inv (fold release ks (release k s)) \<and>
      lookup (fold release ks (release k s)) = (lookup s)(k := None) |` (- set ks)"
    using Cons.IH [of "release k s"] Cons.prems by (simp only: release_inv release_lookup simp_thms)
  moreover have "(lookup s)(k := None) |` (- set ks) = lookup s |` (- set (k # ks))"
    by (auto simp: restrict_map_def fun_eq_iff)
  ultimately show ?case
    by (simp only: fold.simps o_apply)
qed

lemma release_all_empty:
  "inv s \<Longrightarrow> dom (lookup s) \<subseteq> set ks \<Longrightarrow> lookup (fold release ks s) = Map.empty"
  using release_all [of s ks] by (auto simp: restrict_map_def fun_eq_iff)

lemma release_order:
  "inv s \<Longrightarrow> set ks = set js \<Longrightarrow> lookup (fold release ks s) = lookup (fold release js s)"
  using release_all [of s ks] release_all [of s js] by simp

end

interpretation staged: module_store get_bytes ps2_drivers_img_release_staged img_inv staged_map
  by unfold_locales (simp_all add: get_bytes_staged_map release_staged_result)

text \<open>An empty store has released its array: nothing is allocated but the path.\<close>

lemma staged_map_empty_iff:
  assumes "img_inv s"
  shows "staged_map s = Map.empty \<longleftrightarrow> g_staged_modules s = 0"
  using assms
proof (rule img_invE)
  fix ms
  assume s: "heap_wf s" "staged_ok s ms"
  have "filter module_live ms = [] \<longleftrightarrow> g_staged_modules s = 0"
    using s(2) by (auto simp: staged_ok_def split: if_splits)
  then show ?thesis
    unfolding staged_map_ok [OF s(2,1)] by (simp add: map_of_eq_empty_iff)
qed

end
