(* ===== verification/Img_Api.thy ===== *)
theory Img_Api
  imports Staged_Store
begin

text \<open>
  The staging functions of the image provider (src/ps2_drivers_img.c): staging from a path
  with explicit requirements, with the requirements of a boot device, a path or the current
  directory, from the default image, and again from the remembered source. \<open>stage_result\<close> and
  \<open>restage_result\<close> relate each outcome to what the file's bytes specify; \<open>img_reachable\<close>
  collects every state a program can bring the provider into, whatever it calls and whatever
  fails in between, and each of them satisfies the invariant \<open>img_inv\<close>.
\<close>

definition PS2_DRIVERS_IMG_DEFAULT_PATH :: string where
  "PS2_DRIVERS_IMG_DEFAULT_PATH = ''ps2_drivers.irximg''"

definition ps2_drivers_img_stage :: "string option \<Rightarrow> u32 \<Rightarrow> img_state \<Rightarrow> img_status \<times> img_state" where
  "ps2_drivers_img_stage image_path driver_requirements s =
     (if image_path = None \<or> driver_requirements = 0 \<or> unknown_bits driver_requirements
      then (PS2_DRIVERS_IMG_ERR_ARGUMENT, s)
      else if g_staged_modules s \<noteq> 0 \<or> g_staged_count s \<noteq> 0
      then (PS2_DRIVERS_IMG_ERR_ALREADY_STAGED, s)
      else
      let (image_path_copy, s1) = malloc (Path (the image_path)) s in
      if image_path_copy = 0 then (PS2_DRIVERS_IMG_ERR_MEMORY, s1)
      else
      let (result, s2) = stage_from_path image_path driver_requirements s1 in
      if result \<noteq> PS2_DRIVERS_IMG_OK then (result, free image_path_copy s2)
      else (PS2_DRIVERS_IMG_OK,
            (free (g_image_path s2) s2)
              \<lparr>g_image_path := image_path_copy, g_last_requirements := driver_requirements\<rparr>))"

definition ps2_drivers_img_stage_default :: "u32 \<Rightarrow> img_state \<Rightarrow> img_status \<times> img_state" where
  "ps2_drivers_img_stage_default q s = ps2_drivers_img_stage (Some PS2_DRIVERS_IMG_DEFAULT_PATH) q s"

definition ps2_drivers_img_stage_for_boot_device ::
  "string option \<Rightarrow> BootDeviceIDs \<Rightarrow> u32 \<Rightarrow> img_state \<Rightarrow> img_status \<times> img_state" where
  "ps2_drivers_img_stage_for_boot_device image_path boot_device additional s =
     (if unknown_bits additional then (PS2_DRIVERS_IMG_ERR_ARGUMENT, s)
      else ps2_drivers_img_stage image_path
             (ps2_drivers_img_requirements_for_boot_device boot_device OR additional) s)"

text \<open>Staging with requirements that another function computes.\<close>

definition stage_with ::
  "string option \<Rightarrow> img_status \<times> u32 option \<Rightarrow> img_state \<Rightarrow> img_status \<times> img_state" where
  "stage_with image_path computed s =
     (case computed of
        (PS2_DRIVERS_IMG_OK, Some q) \<Rightarrow> ps2_drivers_img_stage image_path q s
      | (result, _) \<Rightarrow> (result, s))"

definition ps2_drivers_img_stage_for_path ::
  "string option \<Rightarrow> string option \<Rightarrow> u32 \<Rightarrow> img_state \<Rightarrow> img_status \<times> img_state" where
  "ps2_drivers_img_stage_for_path image_path path additional s =
     stage_with image_path (ps2_drivers_img_requirements_for_path path additional True) s"

definition ps2_drivers_img_stage_for_current_boot ::
  "string option \<Rightarrow> u32 \<Rightarrow> img_state \<Rightarrow> img_status \<times> img_state" where
  "ps2_drivers_img_stage_for_current_boot image_path additional s =
     stage_with image_path (ps2_drivers_img_requirements_for_current_boot additional True s) s"

definition ps2_drivers_img_stage_for_all_filesystems ::
  "string option \<Rightarrow> u32 \<Rightarrow> img_state \<Rightarrow> img_status \<times> img_state" where
  "ps2_drivers_img_stage_for_all_filesystems image_path additional s =
     (if unknown_bits additional then (PS2_DRIVERS_IMG_ERR_ARGUMENT, s)
      else ps2_drivers_img_stage image_path (PS2_DRIVER_REQ_FILESYSTEM_ALL OR additional) s)"

definition ps2_drivers_img_stage_default_for_boot_device ::
  "BootDeviceIDs \<Rightarrow> u32 \<Rightarrow> img_state \<Rightarrow> img_status \<times> img_state" where
  "ps2_drivers_img_stage_default_for_boot_device boot_device additional s =
     ps2_drivers_img_stage_for_boot_device (Some PS2_DRIVERS_IMG_DEFAULT_PATH) boot_device additional s"

definition ps2_drivers_img_stage_default_for_path ::
  "string option \<Rightarrow> u32 \<Rightarrow> img_state \<Rightarrow> img_status \<times> img_state" where
  "ps2_drivers_img_stage_default_for_path path additional s =
     ps2_drivers_img_stage_for_path (Some PS2_DRIVERS_IMG_DEFAULT_PATH) path additional s"

definition ps2_drivers_img_stage_default_for_current_boot ::
  "u32 \<Rightarrow> img_state \<Rightarrow> img_status \<times> img_state" where
  "ps2_drivers_img_stage_default_for_current_boot additional s =
     ps2_drivers_img_stage_for_current_boot (Some PS2_DRIVERS_IMG_DEFAULT_PATH) additional s"

definition ps2_drivers_img_stage_default_for_all_filesystems ::
  "u32 \<Rightarrow> img_state \<Rightarrow> img_status \<times> img_state" where
  "ps2_drivers_img_stage_default_for_all_filesystems additional s =
     ps2_drivers_img_stage_for_all_filesystems (Some PS2_DRIVERS_IMG_DEFAULT_PATH) additional s"

definition ps2_drivers_img_restage :: "u32 \<Rightarrow> img_state \<Rightarrow> img_status \<times> img_state" where
  "ps2_drivers_img_restage driver_requirements s =
     (if driver_requirements = 0 \<or> unknown_bits driver_requirements
      then (PS2_DRIVERS_IMG_ERR_ARGUMENT, s)
      else if g_image_path s = 0 then (PS2_DRIVERS_IMG_ERR_NO_SOURCE, s)
      else
      case heap s (g_image_path s) of
        Some (Path path) \<Rightarrow>
          let (result, s1) = stage_from_path (Some path) driver_requirements s in
          if result = PS2_DRIVERS_IMG_OK
          then (result, s1\<lparr>g_last_requirements := driver_requirements\<rparr>)
          else (result, s1)
      | _ \<Rightarrow> (PS2_DRIVERS_IMG_ERR_ARGUMENT, s\<lparr>ub := True\<rparr>))"

definition ps2_drivers_img_restage_last :: "img_state \<Rightarrow> img_status \<times> img_state" where
  "ps2_drivers_img_restage_last s =
     (if g_image_path s = 0 \<or> g_last_requirements s = 0
      then (PS2_DRIVERS_IMG_ERR_NO_SOURCE, s)
      else ps2_drivers_img_restage (g_last_requirements s) s)"

subsection \<open>Specification\<close>

text \<open>
  What staging with a valid source specifies: from the store's contents, the files, the path
  and the requirements to the status or the modules.
\<close>

definition stage_outcome ::
  "(u32 \<rightharpoonup> u8 list) \<Rightarrow> (string \<Rightarrow> u8 list option) \<Rightarrow> string option \<Rightarrow> u32 \<Rightarrow>
   img_status + (u32 \<times> u8 list) list" where
  "stage_outcome held fs path q =
     (if path = None \<or> q = 0 \<or> unknown_bits q then Inl PS2_DRIVERS_IMG_ERR_ARGUMENT
      else if held \<noteq> Map.empty then Inl PS2_DRIVERS_IMG_ERR_ALREADY_STAGED
      else case fs (the path) of
             None \<Rightarrow> Inl PS2_DRIVERS_IMG_ERR_OPEN
           | Some img \<Rightarrow> stage_spec img q)"

text \<open>
  The relation between the state before, the status and the state after: success fills the
  store with exactly the specified modules and remembers the source; a failure changes
  nothing that can be observed, and its status is the specified one unless some call failed.
\<close>

definition stage_effect :: "string option \<Rightarrow> u32 \<Rightarrow> img_state \<Rightarrow> img_status \<Rightarrow> img_state \<Rightarrow> bool" where
  "stage_effect path q s st t \<longleftrightarrow>
     img_inv t \<and> files t = files s \<and> cwd t = cwd s \<and> (all_succeed s \<longrightarrow> all_succeed t) \<and>
     (if st = PS2_DRIVERS_IMG_OK
      then \<exists>ps. stage_outcome (staged_map s) (files s) path q = Inr ps \<and>
             staged_map t = map_of ps \<and> remembered t = Some (the path, q) \<and>
             ps2_drivers_img_staged_modules t = length ps \<and>
             ps2_drivers_img_staged_bytes t = (\<Sum>p \<leftarrow> ps. length (snd p))
      else heap t = heap s \<and> staged_map t = staged_map s \<and> remembered t = remembered s \<and>
        (stage_outcome (staged_map s) (files s) path q = Inl st \<or>
         \<not> all_succeed s \<and> st \<in> {PS2_DRIVERS_IMG_ERR_OPEN, PS2_DRIVERS_IMG_ERR_MEMORY,
                                PS2_DRIVERS_IMG_ERR_IO, PS2_DRIVERS_IMG_ERR_FORMAT}))"

subsection \<open>The states a program can reach\<close>

text \<open>The static variables as the program starts: all zero.\<close>

definition img_initial :: "img_state \<Rightarrow> bool" where
  "img_initial s \<longleftrightarrow>
     heap_wf s \<and> heap s = Map.empty \<and> \<not> ub s \<and> opened s = 0 \<and>
     g_staged_modules s = 0 \<and> g_staged_capacity s = 0 \<and> g_staged_count s = 0 \<and>
     g_staged_bytes s = 0 \<and> g_image_path s = 0 \<and> g_last_requirements s = 0"

datatype img_op =
    Stage "string option" u32
  | Stage_for_boot_device "string option" BootDeviceIDs u32
  | Stage_for_path "string option" "string option" u32
  | Stage_for_current_boot "string option" u32
  | Stage_for_all_filesystems "string option" u32
  | Restage u32
  | Restage_last
  | Discard_staged
  | Forget_source
  | Get_staged u32 bool
  | Release_staged u32

primrec img_call :: "img_op \<Rightarrow> img_state \<Rightarrow> img_state" where
  "img_call (Stage p q) s = snd (ps2_drivers_img_stage p q s)"
| "img_call (Stage_for_boot_device p d q) s = snd (ps2_drivers_img_stage_for_boot_device p d q s)"
| "img_call (Stage_for_path p path q) s = snd (ps2_drivers_img_stage_for_path p path q s)"
| "img_call (Stage_for_current_boot p q) s = snd (ps2_drivers_img_stage_for_current_boot p q s)"
| "img_call (Stage_for_all_filesystems p q) s = snd (ps2_drivers_img_stage_for_all_filesystems p q s)"
| "img_call (Restage q) s = snd (ps2_drivers_img_restage q s)"
| "img_call Restage_last s = snd (ps2_drivers_img_restage_last s)"
| "img_call Discard_staged s = ps2_drivers_img_discard_staged s"
| "img_call Forget_source s = ps2_drivers_img_forget_source s"
| "img_call (Get_staged n out) s = snd (ps2_drivers_img_get_staged n out s)"
| "img_call (Release_staged n) s = ps2_drivers_img_release_staged n s"

text \<open>
  Between two calls the outside world may change: the files, the current directory, and
  which of the calls to come will fail.
\<close>

inductive img_step :: "img_state \<Rightarrow> img_state \<Rightarrow> bool" where
  call: "img_step s (img_call c s)"
| outside: "img_step s (s\<lparr>files := fs, cwd := dir, faults := outcomes\<rparr>)"

inductive img_reachable :: "img_state \<Rightarrow> bool" where
  start: "img_initial s \<Longrightarrow> img_reachable s"
| step: "img_reachable s \<Longrightarrow> img_step s t \<Longrightarrow> img_reachable t"

inductive_cases img_stepE: "img_step s t"

subsection \<open>From the staged state to the invariant\<close>

lemma load_modules_ids: "load_modules img es ids = Inr ps \<Longrightarrow> map fst ps = ids"
  by (induction ids arbitrary: ps) (auto simp: Let_def split: option.splits if_splits sum.splits)

lemma stage_spec_ids:
  assumes "stage_spec img q = Inr ps"
  shows "map fst ps = requested_ids (expand_requirements q no_modules)" and "distinct (map fst ps)"
proof -
  show "map fst ps = requested_ids (expand_requirements q no_modules)"
    using assms by (auto simp: stage_spec_def file_spec_def dest: load_modules_ids split: if_splits option.splits)
  then show "distinct (map fst ps)"
    by (simp add: requested_ids_distinct)
qed

lemma required_modules_nonempty:
  assumes "q \<noteq> 0" and "\<not> unknown_bits q"
  shows "required_modules q \<noteq> {}"
proof -
  obtain r where "bit q (req_bit r)"
    using known_nonzero [OF assms] by blast
  moreover have "hd (driver_closure r) \<in> set (driver_closure r)"
    by (cases r) simp_all
  ultimately show ?thesis
    unfolding required_modules_def by blast
qed

lemma stage_spec_nonempty:
  assumes "stage_spec img q = Inr ps" "q \<noteq> 0" "\<not> unknown_bits q"
  shows "ps \<noteq> []"
  using stage_spec_ids(1) [OF assms(1)] required_modules_nonempty [OF assms(2,3)] set_requested_ids [of q]
  by auto

text \<open>Freeing a block that is older than everything staged.\<close>

lemma staged_state_older:
  assumes "staged_state H b ps s" and "a < b"
    and "heap t = (heap s)(a := None)" "g_staged_modules t = g_staged_modules s"
      "g_staged_capacity t = g_staged_capacity s" "g_staged_count t = g_staged_count s"
      "g_staged_bytes t = g_staged_bytes s"
  shows "staged_state (H(a := None)) b ps t"
proof -
  obtain new where new: "heap s (g_staged_modules s) = Some (Modules new)"
        "g_staged_capacity s = length new" "g_staged_count s = length new"
        "g_staged_bytes s = (\<Sum>m \<leftarrow> new. unat (sm_size m))"
        "map (\<lambda>m. (sm_id m, payload s m)) new = ps"
        "distinct (map sm_data new)" "\<forall>m \<in> set new. b \<le> sm_data m \<and> buffer_ok s m"
        "b \<le> g_staged_modules s" "g_staged_modules s \<notin> sm_data ` set new"
        "\<forall>a. a \<noteq> g_staged_modules s \<longrightarrow> a \<notin> sm_data ` set new \<longrightarrow> heap s a = H a"
    using assms(1) unfolding staged_state_def by blast
  have same: "payload t m = payload s m" "buffer_ok t m = buffer_ok s m" if "m \<in> set new" for m
    using new(7) that assms(2) by (auto simp: payload_def buffer_ok_def assms(3))
  have "map (\<lambda>m. (sm_id m, payload t m)) new = ps"
    unfolding new(5) [symmetric] using same by (intro map_cong) auto
  then show ?thesis
    unfolding staged_state_def assms(4-7)
    using new assms(2) same by (intro exI [of _ new]) (auto simp: assms(3))
qed

lemma staged_state_old: "staged_state H b ps t \<Longrightarrow> a < b \<Longrightarrow> heap t a = H a"
  unfolding staged_state_def by (metis (no_types, lifting) imageE not_le)

lemma staged_state_cong:
  "heap t = heap s \<Longrightarrow> g_staged_modules t = g_staged_modules s \<Longrightarrow>
   g_staged_capacity t = g_staged_capacity s \<Longrightarrow> g_staged_count t = g_staged_count s \<Longrightarrow>
   g_staged_bytes t = g_staged_bytes s \<Longrightarrow> staged_state H b ps t = staged_state H b ps s"
  by (simp add: staged_state_def payload_def buffer_ok_def)

text \<open>Staged modules on top of nothing but the path: the invariant, and what the store holds.\<close>

lemma staged_state_inv:
  assumes "heap_wf t" "\<not> ub t" "opened t = 0" "path_ok t"
    and st: "staged_state H b ps t"
    and H: "dom H = {g_image_path t} - {0}" "g_image_path t < b" "0 < b"
    and ps: "distinct (map fst ps)" "ps \<noteq> []"
  shows "img_inv t" and "staged_map t = map_of ps"
    and "ps2_drivers_img_staged_modules t = length ps"
    and "ps2_drivers_img_staged_bytes t = (\<Sum>p \<leftarrow> ps. length (snd p))"
proof -
  obtain new where new: "heap t (g_staged_modules t) = Some (Modules new)"
        "g_staged_capacity t = length new" "g_staged_count t = length new"
        "g_staged_bytes t = (\<Sum>m \<leftarrow> new. unat (sm_size m))"
        "map (\<lambda>m. (sm_id m, payload t m)) new = ps"
        "distinct (map sm_data new)" "\<forall>m \<in> set new. b \<le> sm_data m \<and> buffer_ok t m"
        "b \<le> g_staged_modules t" "g_staged_modules t \<notin> sm_data ` set new"
        "\<forall>a. a \<noteq> g_staged_modules t \<longrightarrow> a \<notin> sm_data ` set new \<longrightarrow> heap t a = H a"
    using st unfolding staged_state_def by blast
  have live: "filter module_live new = new"
    using new(7) H(3) by (auto simp: filter_id_conv module_live_def)
  have ids: "map sm_id new = map fst ps"
    unfolding new(5) [symmetric] by simp
  have ok: "staged_ok t new"
    unfolding staged_ok_def using new live ids ps H(3)
    by (auto simp: module_live_def)
  have "dom (heap t) = owned t new"
  proof -
    have "a \<in> dom (heap t) \<longleftrightarrow> a \<in> owned t new" for a
    proof (cases "a = g_staged_modules t \<or> a \<in> sm_data ` set new")
      case True
      then have "heap t a \<noteq> None" "b \<le> a"
        using new(1,7,8) by (auto simp: buffer_ok_def)
      with True H(3) show ?thesis
        by (auto simp: owned_def)
    next
      case False
      then have "a \<in> dom (heap t) \<longleftrightarrow> a \<in> dom H"
        using new(10) by (simp add: dom_def)
      with False show ?thesis
        by (auto simp: owned_def H(1))
    qed
    then show ?thesis by blast
  qed
  with ok assms(1-4) show "img_inv t"
    unfolding img_inv_def by blast
  show "staged_map t = map_of ps"
    using staged_map_ok [OF ok assms(1)] live new(5) by simp
  show "ps2_drivers_img_staged_modules t = length ps"
    unfolding ps2_drivers_img_staged_modules_def new(3) new(5) [symmetric] by simp
  have "map (\<lambda>m. unat (sm_size m)) new = map (\<lambda>m. length (payload t m)) new"
    using new(7) by (intro map_cong) (auto simp: buffer_ok_def payload_def)
  then show "ps2_drivers_img_staged_bytes t = (\<Sum>p \<leftarrow> ps. length (snd p))"
    unfolding ps2_drivers_img_staged_bytes_def new(4) new(5) [symmetric] map_map comp_def snd_conv
    by (rule arg_cong)
qed

subsection \<open>Staging\<close>

text \<open>Calls that failed and cleaned up: nothing observable has changed.\<close>

lemma unchanged_inv:
  assumes "img_inv s" "evolves s t" "heap t = heap s" "heap_wf t"
  shows "img_inv t" "staged_map t = staged_map s" "remembered t = remembered s"
proof -
  note f = evolves_statics [OF assms(2)] evolves_fields [OF assms(2)]
  have "buffer_ok t m = buffer_ok s m" "payload t m = payload s m" for m
    by (simp_all add: buffer_ok_def payload_def assms(3))
  then have "staged_ok t ms = staged_ok s ms" "path_ok t = path_ok s" "owned t ms = owned s ms" for ms
    by (simp_all only: staged_ok_def path_ok_def owned_def f assms(3))
  with assms(1,4) show "img_inv t"
    by (simp only: img_inv_def f assms(3) simp_thms)
  have "payload t = payload s"
    by (simp add: payload_def assms(3) fun_eq_iff)
  then show "staged_map t = staged_map s" "remembered t = remembered s"
    by (simp_all only: staged_map_def remembered_def f assms(3))
qed

lemma stage_effect_unchanged:
  assumes "img_inv s" "evolves s t" "heap t = heap s" "heap_wf t" "st \<noteq> PS2_DRIVERS_IMG_OK"
    and "stage_outcome (staged_map s) (files s) path q = Inl st \<or>
         \<not> all_succeed s \<and> st \<in> {PS2_DRIVERS_IMG_ERR_OPEN, PS2_DRIVERS_IMG_ERR_MEMORY,
                                PS2_DRIVERS_IMG_ERR_IO, PS2_DRIVERS_IMG_ERR_FORMAT}"
  shows "stage_effect path q s st t"
  using unchanged_inv [OF assms(1-4)] assms evolves_fields [OF assms(2)]
  by (simp add: stage_effect_def)

lemma stage_effect_argument:
  "img_inv s \<Longrightarrow> path = None \<or> q = 0 \<or> unknown_bits q \<Longrightarrow>
    stage_effect path q s PS2_DRIVERS_IMG_ERR_ARGUMENT s"
  by (rule stage_effect_unchanged) (auto simp: stage_outcome_def elim: img_invE)

text \<open>The owned blocks of an empty store: the path only.\<close>

lemma img_inv_idle:
  assumes "img_inv s" "g_staged_modules s = 0"
  shows "g_staged_count s = 0" "dom (heap s) = {g_image_path s} - {0}" "staged_map s = Map.empty"
proof -
  show "g_staged_count s = 0" "staged_map s = Map.empty"
    using assms img_inv_staged_modules staged_map_empty_iff by auto
  obtain ms where "staged_ok s ms" "dom (heap s) = owned s ms"
    using assms(1) by (rule img_invE)
  then show "dom (heap s) = {g_image_path s} - {0}"
    using assms(2) by (auto simp: staged_ok_def owned_def)
qed

lemma dom_below_brk: "heap_wf s \<Longrightarrow> dom (heap s) = {p} - {0} \<Longrightarrow> p < brk s"
  by (metis DiffI domIff heap_wf_def heap_wf_fresh not_le singletonD singletonI)

lemma stage_from_path_ok:
  assumes run: "stage_from_path (Some path) q s = (PS2_DRIVERS_IMG_OK, t)"
    and s: "heap_wf s" "g_staged_modules s = 0" "g_staged_count s = 0" "q \<noteq> 0" "\<not> unknown_bits q"
  obtains ps where "heap_wf t" "img_frame s t" "staged_state (heap s) (brk s) ps t"
    "stage_outcome Map.empty (files s) (Some path) q = Inr ps" "distinct (map fst ps)" "ps \<noteq> []"
proof -
  from stage_from_path_result [OF run s] obtain img ps where
    "heap_wf t" "img_frame s t" "staged_state (heap s) (brk s) ps t"
    "files s path = Some img" "stage_spec img q = Inr ps"
    by auto
  then show thesis
    using that [of ps] s(4,5) stage_spec_ids(2) stage_spec_nonempty by (simp add: stage_outcome_def)
qed

lemma stage_from_path_fails:
  assumes run: "stage_from_path (Some path) q s = (st, t)" "st \<noteq> PS2_DRIVERS_IMG_OK"
    and s: "heap_wf s" "g_staged_modules s = 0" "g_staged_count s = 0" "q \<noteq> 0" "\<not> unknown_bits q"
  shows "heap_wf t" "evolves s t" "heap t = heap s"
    "stage_outcome Map.empty (files s) (Some path) q = Inl st \<or>
     \<not> all_succeed s \<and> st \<in> {PS2_DRIVERS_IMG_ERR_OPEN, PS2_DRIVERS_IMG_ERR_MEMORY,
                            PS2_DRIVERS_IMG_ERR_IO, PS2_DRIVERS_IMG_ERR_FORMAT}"
  using stage_from_path_result [OF run(1) s] run(2) s(4,5)
  by (auto simp: stage_outcome_def)

lemma remembered_pointer:
  assumes "img_inv s" and "remembered s = Some (path, r)"
  shows "heap s (g_image_path s) = Some (Path path)" "g_image_path s \<noteq> 0"
    "g_last_requirements s = r" "r \<noteq> 0" "\<not> unknown_bits r"
proof -
  show p: "heap s (g_image_path s) = Some (Path path)" and r: "g_last_requirements s = r"
    using assms(2) by (auto simp: remembered_def split: option.splits img_block.splits)
  have "heap_wf s" and ok: "path_ok s"
    using assms(1) by (auto elim: img_invE)
  with p show "g_image_path s \<noteq> 0"
    by (metis heap_wf_def option.distinct(1))
  with ok r show "r \<noteq> 0" "\<not> unknown_bits r"
    by (auto simp: path_ok_def)
qed

lemma restage_result:
  assumes run: "ps2_drivers_img_restage q s = (st, t)" and inv: "img_inv s"
    and src: "remembered s = Some (path, r)"
  shows "stage_effect (Some path) q s st t"
proof -
  have wf: "heap_wf s"
    using inv by (rule img_invE)
  note p = remembered_pointer [OF inv src]
  note def = ps2_drivers_img_restage_def p(1,2)
  show ?thesis
  proof (cases "q = 0 \<or> unknown_bits q \<or> g_staged_modules s \<noteq> 0")
    case True
    have "staged_map s \<noteq> Map.empty" if "g_staged_modules s \<noteq> 0"
      using staged_map_empty_iff [OF inv] that by simp
    with True run have "t = s" "st \<noteq> PS2_DRIVERS_IMG_OK"
        "stage_outcome (staged_map s) (files s) (Some path) q = Inl st"
      by (auto simp: def stage_from_path_def stage_outcome_def Let_def split: if_splits)
    then show ?thesis
      using stage_effect_unchanged [OF inv _ _ wf, of st] by simp
  next
    case False
    then have q: "q \<noteq> 0" "\<not> unknown_bits q" and mod: "g_staged_modules s = 0"
      by simp_all
    note idle = img_inv_idle [OF inv mod]
    obtain u where u: "stage_from_path (Some path) q s = (st, u)"
      using run q by (auto simp: def split: prod.splits if_splits)
    show ?thesis
    proof (cases "st = PS2_DRIVERS_IMG_OK")
      case fails: False
      then have "t = u"
        using run q u by (simp add: def)
      with stage_from_path_fails [OF u fails wf mod idle(1) q] show ?thesis
        by (intro stage_effect_unchanged [OF inv]) (simp_all add: idle(3) fails)
    next
      case True
      then have t: "t = u\<lparr>g_last_requirements := q\<rparr>"
        using run q u by (simp add: def)
      obtain ps where ps: "heap_wf u" "img_frame s u" "staged_state (heap s) (brk s) ps u"
          "stage_outcome Map.empty (files s) (Some path) q = Inr ps" "distinct (map fst ps)" "ps \<noteq> []"
        using stage_from_path_ok [OF u [unfolded True] wf mod idle(1) q] .
      have st: "staged_state (heap s) (brk s) ps t"
        using ps(3) staged_state_cong [of t u] by (simp add: t)
      have frame: "g_image_path t = g_image_path s" "g_last_requirements t = q" "opened t = opened s"
          "ub t = ub s" "files t = files s" "cwd t = cwd s" "all_succeed s \<longrightarrow> all_succeed t" "heap_wf t"
        using ps(1,2) by (simp_all add: t img_frame_def heap_wf_def all_succeed_def)
      have low: "g_image_path s < brk s"
        using wf idle(2) by (rule dom_below_brk)
      have path_t: "heap t (g_image_path t) = Some (Path path)"
        using staged_state_old [OF st low] p(1) frame(1) by simp
      then have path_ok: "path_ok t"
        using q p(2) frame by (simp add: path_ok_def)
      have clean: "\<not> ub t" "opened t = 0" "0 < brk s"
        using inv frame(3,4) wf by (auto simp: heap_wf_def elim: img_invE)
      have dom: "dom (heap s) = {g_image_path t} - {0}" "g_image_path t < brk s"
        using idle(2) low frame(1) by simp_all
      note res = staged_state_inv [OF frame(8) clean(1,2) path_ok st dom clean(3) ps(5,6)]
      show ?thesis
        using res True ps(4) frame path_t by (simp add: stage_effect_def idle(3) remembered_def)
    qed
  qed
qed

text \<open>Staging again with the requirements of the last time.\<close>

lemma restage_last_result:
  assumes run: "ps2_drivers_img_restage_last s = (st, t)" and inv: "img_inv s"
    and src: "remembered s = Some (path, r)"
  shows "stage_effect (Some path) r s st t"
proof -
  note p = remembered_pointer [OF inv src]
  have "ps2_drivers_img_restage r s = (st, t)"
    using run p by (simp add: ps2_drivers_img_restage_last_def)
  then show ?thesis
    using inv src by (rule restage_result)
qed

text \<open>The last lines of a successful staging: the old path is freed and the new one recorded.\<close>

lemma stage_commit:
  assumes inv: "img_inv s" "g_staged_modules s = 0" and q: "q \<noteq> 0" "\<not> unknown_bits q"
    and s1: "heap_wf s1" "evolves s s1" "heap s1 = (heap s)(copy \<mapsto> Path p)" "copy = brk s" "brk s1 = Suc (brk s)"
    and u: "heap_wf u" "img_frame s1 u" "staged_state (heap s1) (brk s1) ps u"
    and ps: "distinct (map fst ps)" "ps \<noteq> []"
    and t: "t = (free (g_image_path u) u)\<lparr>g_image_path := copy, g_last_requirements := q\<rparr>"
  shows "img_inv t" "staged_map t = map_of ps" "remembered t = Some (p, q)"
    "ps2_drivers_img_staged_modules t = length ps"
    "ps2_drivers_img_staged_bytes t = (\<Sum>p \<leftarrow> ps. length (snd p))" "img_frame s u" "evolves u (free (g_image_path u) u)"
proof -
  let ?old = "g_image_path s" and ?H = "(heap s1)(g_image_path s := None)"
  have wf: "heap_wf s" and pok: "path_ok s" and clean: "\<not> ub s" "opened s = 0"
    using inv(1) by (auto elim: img_invE)
  note idle = img_inv_idle [OF inv]
  have low: "?old < brk s"
    using wf idle(2) by (rule dom_below_brk)
  show frame: "img_frame s u"
    using evolves_img_frame [OF s1(2)] u(2) by (auto simp: img_frame_def)
  then have old: "g_image_path u = ?old"
    by (simp add: img_frame_def)
  have hu: "heap u ?old = heap s ?old"
    using staged_state_old [OF u(3), of ?old] low s1(3-5) by simp
  have fr: "evolves u (free ?old u) \<and> heap (free ?old u) = (heap u)(?old := None) \<and>
      brk (free ?old u) = brk u \<and> heap_wf (free ?old u)"
  proof (cases "?old = 0")
    case True
    with u(1) show ?thesis
      by (auto simp: heap_wf_def)
  next
    case False
    then obtain x where "heap u ?old = Some x"
      using pok hu by (auto simp: path_ok_def)
    from free_live [OF this u(1)] show ?thesis .
  qed
  then show "evolves u (free (g_image_path u) u)"
    by (simp add: old)
  note f = evolves_statics [OF conjunct1 [OF fr]] evolves_fields [OF conjunct1 [OF fr]]
  have th: "heap t = (heap u)(?old := None)" "g_image_path t = copy" "g_last_requirements t = q"
      "opened t = 0" "\<not> ub t"
    using fr f frame clean by (simp_all add: t old img_frame_def)
  have "heap t = heap (free ?old u)" "brk t = brk (free ?old u)"
    by (simp_all add: t old)
  then have wft: "heap_wf t"
    using heap_wf_eq fr by metis
  have st: "staged_state ?H (brk s1) ps t"
    using f by (intro staged_state_older [OF u(3) _ th(1)]) (use low s1(5) in \<open>simp_all add: t old\<close>)
  have copy: "copy < brk s1" "0 < brk s1" "0 < copy" "copy \<noteq> ?old"
    using wf s1(4,5) low by (auto simp: heap_wf_def)
  have path_t: "heap t (g_image_path t) = Some (Path p)"
    using staged_state_old [OF u(3) copy(1)] copy(4) s1(3) by (simp add: th)
  then have ok: "path_ok t"
    using copy(3) q th by (simp add: path_ok_def)
  have dom: "dom ?H = {g_image_path t} - {0}" "g_image_path t < brk s1"
    using idle(2) copy s1(3) th(2) by auto
  show "img_inv t" "staged_map t = map_of ps" "ps2_drivers_img_staged_modules t = length ps"
    "ps2_drivers_img_staged_bytes t = (\<Sum>p \<leftarrow> ps. length (snd p))"
    using staged_state_inv [OF wft th(5,4) ok st dom copy(2) ps] .
  show "remembered t = Some (p, q)"
    using path_t th(3) by (simp add: remembered_def)
qed

lemma stage_result:
  assumes run: "ps2_drivers_img_stage path q s = (st, t)" and inv: "img_inv s"
  shows "stage_effect path q s st t"
proof (cases "path = None \<or> q = 0 \<or> unknown_bits q")
  case True
  with run have "st = PS2_DRIVERS_IMG_ERR_ARGUMENT" "t = s"
    by (auto simp: ps2_drivers_img_stage_def)
  with stage_effect_argument [OF inv True] show ?thesis
    by simp
next
  case False
  then obtain p where p: "path = Some p" and q: "q \<noteq> 0" "\<not> unknown_bits q"
    by auto
  have wf: "heap_wf s"
    using inv by (rule img_invE)
  note def = ps2_drivers_img_stage_def p q
  show ?thesis
  proof (cases "g_staged_modules s = 0")
    case False
    then have "stage_outcome (staged_map s) (files s) path q = Inl PS2_DRIVERS_IMG_ERR_ALREADY_STAGED"
      using staged_map_empty_iff [OF inv] p q by (simp add: stage_outcome_def)
    moreover have "st = PS2_DRIVERS_IMG_ERR_ALREADY_STAGED" "t = s"
      using run False by (simp_all add: def)
    ultimately show ?thesis
      using stage_effect_unchanged [OF inv _ _ wf, of st] by simp
  next
    case mod: True
    note idle = img_inv_idle [OF inv mod]
    obtain copy s1 where m: "malloc (Path p) s = (copy, s1)"
      by fastforce
    from m wf show ?thesis
    proof (cases rule: malloc_cases)
      case fail
      then have "st = PS2_DRIVERS_IMG_ERR_MEMORY" "t = s1"
        using run m mod idle(1) by (simp_all add: def)
      with fail malloc_heap_wf [OF m wf] show ?thesis
        by (intro stage_effect_unchanged [OF inv]) simp_all
    next
      case ok
      have wf1: "heap_wf s1"
        using malloc_heap_wf [OF m wf] .
      note f1 = evolves_statics [OF ok(3)] evolves_fields [OF ok(3)]
      have s1: "g_staged_modules s1 = 0" "g_staged_count s1 = 0"
        using f1 mod idle(1) by simp_all
      have fresh: "heap s copy = None"
        using heap_wf_fresh [OF wf, of copy] ok(1) by simp
      obtain u where u: "stage_from_path (Some p) q s1 = (st, u)"
        using run m mod idle(1) ok(2) by (auto simp: def split: prod.splits if_splits)
      show ?thesis
      proof (cases "st = PS2_DRIVERS_IMG_OK")
        case fails: False
        then have t: "t = free copy u"
          using run m mod idle(1) ok(2) u by (auto simp: def)
        note uf = stage_from_path_fails [OF u fails wf1 s1 q]
        have "heap u copy = Some (Path p)"
          using uf(3) ok(4) by simp
        note fr = free_live [OF this uf(1)]
        have "heap t = heap s"
          using fr uf(3) ok(4) fresh by (simp add: t fun_upd_idem)
        moreover have "evolves s t"
          using ok(3) uf(2) fr t by (blast intro: evolves_trans)
        ultimately show ?thesis
          using uf(4) f1 fr fails p
          by (intro stage_effect_unchanged [OF inv]) (auto simp: t idle(3))
      next
        case True
        then have t: "t = (free (g_image_path u) u)\<lparr>g_image_path := copy, g_last_requirements := q\<rparr>"
          using run m mod idle(1) ok(2) u by (simp add: def)
        obtain ps where ps: "heap_wf u" "img_frame s1 u" "staged_state (heap s1) (brk s1) ps u"
            "stage_outcome Map.empty (files s1) (Some p) q = Inr ps" "distinct (map fst ps)" "ps \<noteq> []"
          using stage_from_path_ok [OF u [unfolded True] wf1 s1 q] .
        note c = stage_commit [OF inv mod q wf1 ok(3,4,1,5) ps(1-3,5,6) t]
        have "files t = files s" "cwd t = cwd s" "all_succeed s \<longrightarrow> all_succeed t"
          using c(6) evolves_fields [OF c(7)] by (simp_all add: t img_frame_def all_succeed_def)
        then show ?thesis
          using c True ps(4) f1 p by (simp add: stage_effect_def idle(3))
      qed
    qed
  qed
qed

lemma restage_no_source:
  assumes "img_inv s" and "remembered s = None"
  shows "ps2_drivers_img_restage q s =
      (if q = 0 \<or> unknown_bits q then PS2_DRIVERS_IMG_ERR_ARGUMENT else PS2_DRIVERS_IMG_ERR_NO_SOURCE, s)"
    and "ps2_drivers_img_restage_last s = (PS2_DRIVERS_IMG_ERR_NO_SOURCE, s)"
proof -
  have "path_ok s"
    using assms(1) by (rule img_invE)
  with assms(2) have "g_image_path s = 0"
    by (auto simp: path_ok_def remembered_def split: if_splits)
  then show "ps2_drivers_img_restage q s =
      (if q = 0 \<or> unknown_bits q then PS2_DRIVERS_IMG_ERR_ARGUMENT else PS2_DRIVERS_IMG_ERR_NO_SOURCE, s)"
    "ps2_drivers_img_restage_last s = (PS2_DRIVERS_IMG_ERR_NO_SOURCE, s)"
    by (auto simp: ps2_drivers_img_restage_def ps2_drivers_img_restage_last_def)
qed

subsection \<open>Reachable states\<close>

lemma img_initial_inv: "img_initial s \<Longrightarrow> img_inv s"
  by (simp add: img_initial_def img_inv_def path_ok_def staged_ok_def owned_def exI [of _ "[]"])

lemma stage_inv: "img_inv s \<Longrightarrow> img_inv (snd (ps2_drivers_img_stage path q s))"
  using stage_result [of path q s] by (cases "ps2_drivers_img_stage path q s") (auto simp: stage_effect_def)

lemma stage_with_inv: "img_inv s \<Longrightarrow> img_inv (snd (stage_with path r s))"
  by (auto simp: stage_with_def stage_inv split: prod.split img_status.split option.split)

lemma restage_inv: "img_inv s \<Longrightarrow> img_inv (snd (ps2_drivers_img_restage q s))"
  using restage_result [of q s] restage_no_source(1) [of s q]
  by (cases "ps2_drivers_img_restage q s"; cases "remembered s") (auto simp: stage_effect_def)

lemma img_call_inv: "img_inv s \<Longrightarrow> img_inv (img_call c s)"
  by (cases c)
    (simp_all add: stage_inv stage_with_inv restage_inv discard_staged_result forget_source_result
      release_staged_result get_staged_pure ps2_drivers_img_stage_for_boot_device_def
      ps2_drivers_img_stage_for_path_def ps2_drivers_img_stage_for_current_boot_def
      ps2_drivers_img_stage_for_all_filesystems_def ps2_drivers_img_restage_last_def)

lemma outside_inv:
  assumes "img_inv s"
  shows "img_inv (s\<lparr>files := fs, cwd := dir, faults := outcomes\<rparr>)" (is "img_inv ?t")
proof -
  have "buffer_ok ?t m = buffer_ok s m" for m
    by (simp add: buffer_ok_def)
  then have "staged_ok ?t ms = staged_ok s ms" "path_ok ?t = path_ok s" "owned ?t ms = owned s ms" for ms
    by (simp_all add: staged_ok_def path_ok_def owned_def)
  with assms show ?thesis
    by (simp add: img_inv_def heap_wf_def)
qed

lemma img_step_inv: "img_step s t \<Longrightarrow> img_inv s \<Longrightarrow> img_inv t"
  by (elim img_stepE) (auto intro: img_call_inv outside_inv)

lemma img_reachable_inv: "img_reachable s \<Longrightarrow> img_inv s"
  by (induction rule: img_reachable.induct) (auto intro: img_initial_inv img_step_inv)

text \<open>A provider with nothing staged and nothing remembered owns no memory.\<close>

lemma idle_heap_empty:
  assumes "img_inv s" "staged_map s = Map.empty" "remembered s = None"
  shows "heap s = Map.empty"
proof -
  have "g_staged_modules s = 0"
    using staged_map_empty_iff [OF assms(1)] assms(2) by simp
  moreover have "g_image_path s = 0"
    using assms(1,3) by (auto simp: path_ok_def remembered_def split: if_splits elim!: img_invE)
  ultimately have "dom (heap s) = {}"
    using img_inv_idle(2) [OF assms(1)] by simp
  then show ?thesis by simp
qed

text \<open>The counters report what the store holds.\<close>

lemma staged_modules_card:
  assumes "img_inv s"
  shows "ps2_drivers_img_staged_modules s = card (dom (staged_map s))"
    and "ps2_drivers_img_staged_bytes s = (\<Sum>n \<in> dom (staged_map s). length (the (staged_map s n)))"
proof -
  obtain ms where s: "heap_wf s" "path_ok s" "staged_ok s ms"
    using assms by (rule img_invE)
  let ?live = "filter module_live ms"
  have ids: "distinct (map sm_id ?live)" and ok: "\<forall>m \<in> set ?live. buffer_ok s m"
      and zero: "\<forall>m \<in> set ms. \<not> module_live m \<longrightarrow> sm_size m = 0"
    using s(3) by (auto simp: staged_ok_def intro: distinct_map_filter_fst split: if_splits)
  note map = staged_map_ok [OF s(3,1)]
  have dom: "dom (staged_map s) = sm_id ` set ?live"
    unfolding map by (force simp: dom_map_of_conv_image_fst image_iff)
  then have "card (dom (staged_map s)) = length ?live"
    using distinct_card [OF ids] by simp
  then show "ps2_drivers_img_staged_modules s = card (dom (staged_map s))"
    using s(3) by (simp add: ps2_drivers_img_staged_modules_def staged_ok_def)
  have val: "staged_map s (sm_id m) = Some (payload s m)" if "m \<in> set ?live" for m
    unfolding map using ids that by (rule map_of_map_restrict)
  have "(\<Sum>m \<leftarrow> ms. unat (sm_size m)) = (\<Sum>m \<leftarrow> ?live. unat (sm_size m))"
    using zero by (induction ms) auto
  also have "\<dots> = (\<Sum>m \<leftarrow> ?live. length (payload s m))"
    using ok by (intro arg_cong [of _ _ sum_list] map_cong) (auto simp: buffer_ok_def payload_def)
  also have "\<dots> = (\<Sum>n \<leftarrow> map sm_id ?live. length (the (staged_map s n)))"
    using val by (intro arg_cong [of _ _ sum_list]) (auto simp: comp_def)
  also have "\<dots> = (\<Sum>n \<in> dom (staged_map s). length (the (staged_map s n)))"
    using sum_list_distinct_conv_sum_set [OF ids] dom by simp
  finally show "ps2_drivers_img_staged_bytes s = (\<Sum>n \<in> dom (staged_map s). length (the (staged_map s n)))"
    using s(3) by (simp add: ps2_drivers_img_staged_bytes_def staged_ok_def)
qed

end
