(* ===== verification/Irx_Exec.thy ===== *)
theory Irx_Exec
  imports Img_Api
begin

text \<open>
  Executing an IRX module (include/ps2_irx_module.h, src/ps2_irx_module_descriptor.c,
  src/ps2_irx_module_embedded.c, src/ps2_irx_module_image.c). The library is built in two
  flavours with the same function \<^verbatim>\<open>ps2_irx_exec\<close>: one executes the bytes linked into the
  program, the other takes them from the image provider and gives the buffer back.

  \<^verbatim>\<open>SifExecModuleBuffer\<close> of the PS2SDK is a parameter \<open>sif\<close>: it gets the bytes of the buffer,
  the length of the arguments and the arguments, and acts on a state of its own (the I/O
  processor); it returns the module number or an error, and what it wrote to
  \<^verbatim>\<open>*module_result\<close>, \<open>None\<close> when it wrote nothing.

  The locale \<open>irx_provider\<close> is the contract of the two flavours; \<open>one_shot_provider\<close> adds that
  a module can be executed once only. Everything about the order in which the drivers load
  modules is proved in the locale and holds for both.
\<close>

type_synonym exec_result = "int \<times> int option"
type_synonym irx_args = "u32 \<times> string option"
type_synonym 'i sif_exec = "u8 list \<Rightarrow> int \<Rightarrow> string option \<Rightarrow> 'i \<Rightarrow> exec_result \<times> 'i"

record ps2_irx_module =
  im_id :: u32
  embedded_data :: "u8 list option"
  embedded_size :: "u32 option"

definition no_args :: irx_args where
  "no_args = (0, None)"

text \<open>The descriptor constants \<^verbatim>\<open>ps2_irx_<name>\<close>, without and with embedded bytes.\<close>

definition external_descriptor :: "u32 \<Rightarrow> ps2_irx_module" where
  "external_descriptor module_id = \<lparr>im_id = module_id, embedded_data = None, embedded_size = None\<rparr>"

definition embedded_descriptor :: "u32 \<Rightarrow> u8 list \<Rightarrow> u32 \<Rightarrow> ps2_irx_module" where
  "embedded_descriptor module_id data sz =
     \<lparr>im_id = module_id, embedded_data = Some data, embedded_size = Some sz\<rparr>"

definition ps2_irx_exec_embedded ::
  "'i sif_exec \<Rightarrow> ps2_irx_module option \<Rightarrow> irx_args \<Rightarrow> 'i \<Rightarrow> exec_result \<times> 'i" where
  "ps2_irx_exec_embedded sif module args i =
     (case module of
        None \<Rightarrow> ((-1, None), i)
      | Some m \<Rightarrow>
          case (embedded_data m, embedded_size m) of
            (Some data, Some sz) \<Rightarrow> sif (take (unat sz) data) (sint (fst args)) (snd args) i
          | _ \<Rightarrow> ((-1, None), i))"

definition ps2_irx_exec_image ::
  "'i sif_exec \<Rightarrow> ps2_irx_module option \<Rightarrow> irx_args \<Rightarrow> img_state \<times> 'i \<Rightarrow>
   exec_result \<times> (img_state \<times> 'i)" where
  "ps2_irx_exec_image sif module args s =
     (case module of
        None \<Rightarrow> ((-1, None), s)
      | Some m \<Rightarrow>
          case ps2_drivers_img_get_staged (im_id m) True (fst s) of
            ((r, Some (data, sz)), s1) \<Rightarrow>
              if r \<noteq> 0 then ((-1, None), (s1, snd s))
              else (case heap s1 data of
                      Some (Bytes bytes) \<Rightarrow>
                        let (result, i) = sif (take (unat sz) bytes) (sint (fst args)) (snd args) (snd s)
                        in (result, (ps2_drivers_img_release_staged (im_id m) s1, i))
                    | _ \<Rightarrow> ((-1, None), (s1\<lparr>ub := True\<rparr>, snd s)))
          | ((r, None), s1) \<Rightarrow> ((-1, None), (s1, snd s)))"

text \<open>A list of executions in order, and the same on the bytes alone.\<close>

fun exec_list :: "('m \<Rightarrow> 'a \<Rightarrow> 's \<Rightarrow> 'r \<times> 's) \<Rightarrow> ('m \<times> 'a) list \<Rightarrow> 's \<Rightarrow> 'r list \<times> 's" where
  "exec_list exec [] s = ([], s)"
| "exec_list exec ((m, a) # ms) s =
     (let (r, s1) = exec m a s; (rs, s2) = exec_list exec ms s1 in (r # rs, s2))"

text \<open>The two flavours, by module, with the descriptors the build generates.\<close>

definition image_exec ::
  "'i sif_exec \<Rightarrow> irx \<Rightarrow> irx_args \<Rightarrow> img_state \<times> 'i \<Rightarrow> exec_result \<times> (img_state \<times> 'i)" where
  "image_exec sif m = ps2_irx_exec_image sif (Some (external_descriptor (irx_id m)))"

definition linked_exec ::
  "'i sif_exec \<Rightarrow> (irx \<Rightarrow> u8 list) \<Rightarrow> irx \<Rightarrow> irx_args \<Rightarrow> 'i \<Rightarrow> exec_result \<times> 'i" where
  "linked_exec sif linked m =
     ps2_irx_exec_embedded sif
       (Some (embedded_descriptor (irx_id m) (linked m) (of_nat (length (linked m)))))"

text \<open>The bytes an embedded descriptor hands over.\<close>

definition linked_bytes :: "(irx \<Rightarrow> u8 list) \<Rightarrow> irx \<Rightarrow> u8 list" where
  "linked_bytes linked m = take (length (linked m) mod 4294967296) (linked m)"

text \<open>The raw call, as both flavours make it.\<close>

definition sif_run :: "'i sif_exec \<Rightarrow> u8 list \<Rightarrow> irx_args \<Rightarrow> 'i \<Rightarrow> exec_result \<times> 'i" where
  "sif_run sif bytes args i = sif bytes (sint (fst args)) (snd args) i"

subsection \<open>The contract\<close>

locale irx_provider =
  fixes exec :: "'m \<Rightarrow> 'a \<Rightarrow> 's \<Rightarrow> exec_result \<times> 's"
    and holds :: "'s \<Rightarrow> 'm \<rightharpoonup> u8 list"
    and run :: "u8 list \<Rightarrow> 'a \<Rightarrow> 'i \<Rightarrow> exec_result \<times> 'i"
    and iop :: "'s \<Rightarrow> 'i"
    and inv :: "'s \<Rightarrow> bool"
  assumes exec_missing: "inv s \<Longrightarrow> holds s m = None \<Longrightarrow> exec m a s = ((-1, None), s)"
    and exec_runs: "inv s \<Longrightarrow> holds s m = Some bs \<Longrightarrow>
      fst (exec m a s) = fst (run bs a (iop s)) \<and> iop (snd (exec m a s)) = snd (run bs a (iop s))"
    and exec_inv: "inv s \<Longrightarrow> inv (snd (exec m a s))"
    and exec_others: "inv s \<Longrightarrow> k \<noteq> m \<Longrightarrow> holds (snd (exec m a s)) k = holds s k"
begin

lemma exec_list_runs:
  assumes "inv s" and "distinct (map fst ms)"
    and "\<forall>(m, a) \<in> set ms. holds s m = Some (bytes m)"
  shows "fst (exec_list exec ms s) = fst (exec_list run (map (\<lambda>(m, a). (bytes m, a)) ms) (iop s)) \<and>
    iop (snd (exec_list exec ms s)) = snd (exec_list run (map (\<lambda>(m, a). (bytes m, a)) ms) (iop s)) \<and>
    inv (snd (exec_list exec ms s))"
  using assms
proof (induction ms arbitrary: s)
  case Nil
  then show ?case by simp
next
  case (Cons x ms)
  obtain m a where x: "x = (m, a)" by fastforce
  obtain r s1 where e: "exec m a s = (r, s1)" by fastforce
  have held: "holds s m = Some (bytes m)"
    using Cons.prems(3) x by simp
  have head: "r = fst (run (bytes m) a (iop s))" "iop s1 = snd (run (bytes m) a (iop s))" "inv s1"
    using exec_runs [OF Cons.prems(1) held, of a] exec_inv [OF Cons.prems(1), of m a] e by simp_all
  have "\<forall>(k, b) \<in> set ms. holds s1 k = Some (bytes k)"
  proof clarify
    fix k b
    assume "(k, b) \<in> set ms"
    moreover then have "k \<noteq> m"
      using Cons.prems(2) x by force
    ultimately show "holds s1 k = Some (bytes k)"
      using exec_others [OF Cons.prems(1), of k m a] e Cons.prems(3) by auto
  qed
  with Cons.IH [OF head(3)] Cons.prems(2) head x e show ?case
    by (simp add: case_prod_unfold Let_def)
qed

lemma exec_list_inv: "inv s \<Longrightarrow> inv (snd (exec_list exec ms s))"
proof (induction ms arbitrary: s)
  case Nil
  then show ?case by simp
next
  case (Cons x ms)
  with exec_inv [of s "fst x" "snd x"] show ?case
    by (cases x) (simp add: case_prod_unfold Let_def)
qed

lemma exec_untouched:
  "inv s \<Longrightarrow> k \<notin> fst ` set ms \<Longrightarrow> holds (snd (exec_list exec ms s)) k = holds s k"
proof (induction ms arbitrary: s)
  case Nil
  then show ?case by simp
next
  case (Cons x ms)
  with exec_inv [of s "fst x" "snd x"] exec_others [of s k "fst x" "snd x"] show ?case
    by (cases x) (simp add: case_prod_unfold Let_def)
qed

end

text \<open>A provider that hands out each module once.\<close>

locale one_shot_provider = irx_provider +
  assumes exec_consumes: "inv s \<Longrightarrow> holds (snd (exec m a s)) m = None"
begin

lemma exec_list_consumes:
  "inv s \<Longrightarrow> holds (snd (exec_list exec ms s)) = holds s |` (- fst ` set ms)"
proof (induction ms arbitrary: s)
  case Nil
  then show ?case by simp
next
  case (Cons x ms)
  obtain m a r s1 where x: "x = (m, a)" "exec m a s = (r, s1)"
    by (metis surj_pair)
  have inv1: "inv s1" and gone: "holds s1 m = None"
    using exec_inv [OF Cons.prems, of m a] exec_consumes [OF Cons.prems, of m a] x by simp_all
  have others: "holds s1 k = holds s k" if "k \<noteq> m" for k
    using exec_others [OF Cons.prems that, of a] x by simp
  have "holds (snd (exec_list exec (x # ms) s)) = holds s1 |` (- fst ` set ms)"
    using Cons.IH [OF inv1] x by (simp add: case_prod_unfold Let_def)
  also have "\<dots> = holds s |` (- fst ` set (x # ms))"
  proof
    fix k
    show "(holds s1 |` (- fst ` set ms)) k = (holds s |` (- fst ` set (x # ms))) k"
      using gone others [of k] x by (cases "k = m") (auto simp: restrict_map_def)
  qed
  finally show ?case .
qed

lemma second_exec: "inv s \<Longrightarrow> exec m a (snd (exec m b s)) = ((-1, None), snd (exec m b s))"
  by (intro exec_missing exec_inv exec_consumes)

end

subsection \<open>The image flavour\<close>

lemma get_staged_cases:
  assumes "img_inv s"
  obtains (none) "staged_map s n = None" "ps2_drivers_img_get_staged n True s = ((-1, None), s)"
  | (some) data sz bytes where "ps2_drivers_img_get_staged n True s = ((0, Some (data, sz)), s)"
      "heap s data = Some (Bytes bytes)" "staged_map s n = Some (take (unat sz) bytes)"
proof -
  obtain ms where ok: "staged_ok s ms"
    using assms by (rule img_invE)
  note gb = get_bytes_staged_map [OF assms, of n] and pure = get_staged_pure [OF assms, of n True]
  show thesis
  proof (cases "staged_index n ms")
    case None
    then have "ps2_drivers_img_get_staged n True s = ((-1, None), s)"
      by (simp add: ps2_drivers_img_get_staged_def staged_slots_ok [OF ok])
    with gb none show thesis
      by (simp add: get_bytes_def)
  next
    case (Some i)
    then have get: "ps2_drivers_img_get_staged n True s = ((0, Some (sm_data (ms ! i), sm_size (ms ! i))), s)"
      by (simp add: ps2_drivers_img_get_staged_def staged_slots_ok [OF ok])
    obtain pre m post where m: "ms = pre @ m # post" "i = length pre" "module_live m"
      using staged_index_split [OF Some] by blast
    then have "buffer_ok s m" "ms ! i = m"
      using ok by (auto simp: staged_ok_def split: if_splits)
    then obtain bytes where "heap s (sm_data (ms ! i)) = Some (Bytes bytes)"
      by (auto simp: buffer_ok_def)
    with get gb some show thesis
      by (simp add: get_bytes_def)
  qed
qed

lemma image_exec_result:
  assumes "img_inv s"
  shows "image_exec sif m a (s, i) =
    (case staged_map s (irx_id m) of
       None \<Rightarrow> ((-1, None), (s, i))
     | Some bytes \<Rightarrow>
         let (r, i') = sif_run sif bytes a i in (r, (ps2_drivers_img_release_staged (irx_id m) s, i')))"
  by (rule get_staged_cases [OF assms, of "irx_id m"])
    (simp_all add: image_exec_def ps2_irx_exec_image_def external_descriptor_def sif_run_def)

interpretation image: one_shot_provider "image_exec sif" "\<lambda>s m. staged_map (fst s) (irx_id m)"
    "sif_run sif" snd "\<lambda>s. img_inv (fst s)" for sif :: "'i sif_exec"
proof unfold_locales
  fix s :: "img_state \<times> 'i" and m k a bs
  assume inv: "img_inv (fst s)"
  note ex = image_exec_result [OF inv, of sif m a "snd s", simplified]
  note rel = release_staged_result [OF inv]
  show "staged_map (fst s) (irx_id m) = None \<Longrightarrow> image_exec sif m a s = ((-1, None), s)"
    using ex by simp
  show "staged_map (fst s) (irx_id m) = Some bs \<Longrightarrow>
      fst (image_exec sif m a s) = fst (sif_run sif bs a (snd s)) \<and>
      snd (snd (image_exec sif m a s)) = snd (sif_run sif bs a (snd s))"
    using ex by (simp add: case_prod_unfold Let_def)
  show "img_inv (fst (snd (image_exec sif m a s)))"
    using ex inv rel by (simp add: case_prod_unfold Let_def split: option.splits)
  show "staged_map (fst (snd (image_exec sif m a s))) (irx_id m) = None"
    using ex rel by (simp add: case_prod_unfold Let_def split: option.splits)
  show "k \<noteq> m \<Longrightarrow> staged_map (fst (snd (image_exec sif m a s))) (irx_id k) = staged_map (fst s) (irx_id k)"
    using ex rel by (simp add: case_prod_unfold Let_def split: option.splits)
qed

subsection \<open>The embedded flavour\<close>

text \<open>The size variable has 32 bits, so that many bytes of the buffer are handed over.\<close>

lemma linked_exec_result:
  "linked_exec sif linked m a i = sif_run sif (linked_bytes linked m) a i"
  by (simp add: linked_exec_def ps2_irx_exec_embedded_def embedded_descriptor_def sif_run_def
      linked_bytes_def unat_of_nat)

lemma linked_bytes_all: "length (linked m) < 4294967296 \<Longrightarrow> linked_bytes linked m = linked m"
  by (simp add: linked_bytes_def)

interpretation linked: irx_provider "linked_exec sif linked"
    "\<lambda>i m. Some (linked_bytes linked m)" "sif_run sif" "\<lambda>i. i" "\<lambda>i. True"
  for sif :: "'i sif_exec" and linked
  by unfold_locales (simp_all add: linked_exec_result)

text \<open>
  Whatever the I/O processor does, a list of different modules has the same results and the
  same effect on it in both flavours, when the staged bytes are the linked ones.
\<close>

lemma flavours_agree:
  assumes "img_inv s" and "distinct (map fst ms)"
    and "\<forall>(m, a) \<in> set ms. staged_map s (irx_id m) = Some (linked_bytes linked m)"
  shows "fst (exec_list (image_exec sif) ms (s, i)) = fst (exec_list (linked_exec sif linked) ms i)"
    and "snd (snd (exec_list (image_exec sif) ms (s, i))) = snd (exec_list (linked_exec sif linked) ms i)"
  using image.exec_list_runs [where s = "(s, i)" and ms = ms and bytes = "linked_bytes linked" and sif = sif]
    linked.exec_list_runs [where s = i and ms = ms and bytes = "linked_bytes linked" and sif = sif
      and linked = linked] assms
  by auto

end
