(* ===== verification/Driver_Status.thy ===== *)
theory Driver_Status
  imports Main
begin

text \<open>
  The status enumerations of the drivers (include/ps2_*_driver.h), each with the numeric
  values of its enumerators: the code tests them with \<^verbatim>\<open>< 0\<close>.
\<close>

datatype SIO2MAN_INIT_STATUS =
    SIO2MAN_INIT_STATUS_IRX_ERROR
  | SIO2MAN_INIT_STATUS_UNKNOWN
  | SIO2MAN_INIT_STATUS_OK

datatype FILEXIO_INIT_STATUS =
    FILEXIO_INIT_STATUS_DEPENDENCY_IRX_ERROR
  | FILEXIO_INIT_STATUS_FILEXIO_IRX_ERROR
  | FILEXIO_INIT_STATUS_IOMANX_IRX_ERROR
  | FILEXIO_INIT_STATUS_UNKNOWN
  | FILEXIO_INIT_STATUS_OK
  | FILEXIO_INIT_STATUS_IRX_OK

datatype MEMCARD_INIT_STATUS =
    MEMCARD_INIT_STATUS_DEPENDENCY_IRX_ERROR
  | MEMCARD_INIT_STATUS_MCSERV_IRX_ERROR
  | MEMCARD_INIT_STATUS_MCMAN_IRX_ERROR
  | MEMCARD_INIT_STATUS_UNKNOWN
  | MEMCARD_INIT_STATUS_OK
  | MEMCARD_INIT_STATUS_IRX_OK

datatype BDM_INIT_STATUS =
    BDM_INIT_STATUS_IRX_FATFS_ERROR
  | BDM_INIT_STATUS_IRX_ERROR
  | BDM_INIT_STATUS_UNKNOWN
  | BDM_INIT_STATUS_OK

datatype USBD_INIT_STATUS =
    USBD_INIT_STATUS_IRX_ERROR
  | USBD_INIT_STATUS_UNKNOWN
  | USBD_INIT_STATUS_OK

datatype USB_INIT_STATUS =
    USB_INIT_STATUS_DEPENDENCY_USBD_ERROR
  | USB_INIT_STATUS_DEPENDENCY_BMD_ERROR
  | USB_INIT_STATUS_USBMASS_BD_IRX_ERROR
  | USB_INIT_STATUS_BDMFS_FATFS_IRX_ERROR
  | USB_INIT_STATUS_UNKNOWN
  | USB_INIT_STATUS_OK
  | USB_INIT_STATUS_IRX_OK

datatype MX4SIO_INIT_STATUS =
    MX4SIO_INIT_STATUS_IRX_NOT_SUPPORTED
  | MX4SIO_INIT_STATUS_DEPENDENCY_BDM_ERROR
  | MX4SIO_INIT_STATUS_DEPENDENCY_SIO2MAN_ERROR
  | MX4SIO_INIT_STATUS_IRX_ERROR
  | MX4SIO_INIT_STATUS_UNKNOWN
  | MX4SIO_INIT_STATUS_OK

datatype CDFS_INIT_STATUS =
    CDFS_INIT_STATUS_IRX_ERROR
  | CDFS_INIT_STATUS_UNKNOWN
  | CDFS_INIT_STATUS_IRX_OK

datatype DEV9_INIT_STATUS =
    DEV9_INIT_STATUS_IRX_ERROR
  | DEV9_INIT_STATUS_UNKNOWN
  | DEV9_INIT_STATUS_OK

datatype HDD_INIT_STATUS =
    HDD_INIT_STATUS_DEPENDENCY_IRX_ERROR
  | HDD_INIT_STATUS_HDD_NOT_READY_ERROR
  | HDD_INIT_STATUS_PS2FS_IRX_ERROR
  | HDD_INIT_STATUS_PS2HDD_IRX_ERROR
  | HDD_INIT_STATUS_PS2ATAD_IRX_ERROR
  | HDD_INIT_WRONG_CWD
  | HDD_INIT_STATUS_UNKNOWN
  | HDD_INIT_STATUS_IRX_OK

datatype HDD_MOUNT_STATUS =
    HDD_MOUNT_STATUS_ERROR
  | HDD_MOUNT_STATUS_INFO_ERROR
  | HDD_MOUNT_STATUS_WRONG_CWD
  | HDD_MOUNT_STATUS_UKNOWN
  | HDD_MOUNT_INIT_STATUS_NOT_READY
  | HDD_MOUNT_STATUS_OK

datatype JOYSTICK_INIT_STATUS =
    JOYSTICK_INIT_STATUS_DEPENDENCY_IRX_ERROR
  | JOYSTICK_INIT_STATUS_PAD_IRX_ERROR
  | JOYSTICK_INIT_STATUS_MTAP_IRX_ERROR
  | JOYSTICK_INIT_STATUS_PAD_ERROR
  | JOYSTICK_INIT_STATUS_MTAP_ERROR
  | JOYSTICK_INIT_STATUS_UNKNOWN
  | JOYSTICK_INIT_STATUS_OK
  | JOYSTICK_INIT_STATUS_IRX_OK

datatype AUDIO_INIT_STATUS =
    AUDIO_INIT_STATUS_AUDSRV_IRX_ERROR
  | AUDIO_INIT_STATUS_LIBSD_IRX_ERROR
  | AUDIO_INIT_STATUS_EEAUDSRV_ERROR
  | AUDIO_INIT_STATUS_UNKNOWN
  | AUDIO_INIT_STATUS_OK
  | AUDIO_INIT_STATUS_IRX_OK

datatype POWEROFF_INIT_STATUS =
    POWEROFF_INIT_STATUS_IRX_ERROR
  | POWEROFF_INIT_STATUS_EERPC_ERROR
  | POWEROFF_INIT_STATUS_UNKNOWN
  | POWEROFF_INIT_STATUS_OK
  | POWEROFF_INIT_STATUS_IRX_OK

datatype MOUSE_INIT_STATUS =
    MOUSE_INIT_STATUS_DEPENDENCY_ERROR
  | MOUSE_INIT_STATUS_IRX_ERROR
  | MOUSE_INIT_STATUS_EERPC_ERROR
  | MOUSE_INIT_STATUS_UNKNOWN
  | MOUSE_INIT_STATUS_OK
  | MOUSE_INIT_STATUS_IRX_OK

datatype KEYBOARD_INIT_STATUS =
    KEYBOARD_INIT_STATUS_DEPENDENCY_ERROR
  | KEYBOARD_INIT_STATUS_IRX_ERROR
  | KEYBOARD_INIT_STATUS_EERPC_ERROR
  | KEYBOARD_INIT_STATUS_UNKNOWN
  | KEYBOARD_INIT_STATUS_OK
  | KEYBOARD_INIT_STATUS_IRX_OK

datatype CAMERA_INIT_STATUS =
    CAMERA_INIT_STATUS_DEPENDENCY_ERROR
  | CAMERA_INIT_STATUS_IRX_ERROR
  | CAMERA_INIT_STATUS_EERPC_ERROR
  | CAMERA_INIT_STATUS_UNKNOWN
  | CAMERA_INIT_STATUS_OK
  | CAMERA_INIT_STATUS_IRX_OK

datatype NETMAN_INIT_STATUS =
    NETMAN_INIT_STATUS_EE_ERROR
  | NETMAN_INIT_STATUS_IRX_ERROR
  | NETMAN_INIT_STATUS_UNKNOWN
  | NETMAN_INIT_STATUS_OK
  | NETMAN_INIT_STATUS_IRX_OK

datatype SMAP_INIT_STATUS =
    SMAP_INIT_STATUS_IRX_ERROR
  | SMAP_INIT_STATUS_UNKNOWN
  | SMAP_INIT_STATUS_OK

datatype EEIP_INIT_STATUS =
    EEIP_INIT_STATUS_DEPENDENCY_IRX_ERROR
  | EEIP_INIT_STATUS_UNKNOWN
  | EEIP_INIT_STATUS_OK

datatype EEIP_PROGRESS_EVENT =
    EEIP_PROGRESS_SETTING_LINK_MODE
  | EEIP_PROGRESS_TCPIP_INIT
  | EEIP_PROGRESS_APPLYING_IP_CONFIG
  | EEIP_PROGRESS_WAITING_LINK_UP
  | EEIP_PROGRESS_LINK_UP
  | EEIP_PROGRESS_WAITING_DHCP
  | EEIP_PROGRESS_DHCP_BOUND
  | EEIP_PROGRESS_READY

datatype EEIP_NET_STATUS =
    EEIP_NET_STATUS_OK
  | EEIP_NET_STATUS_LINK_MODE_ERROR
  | EEIP_NET_STATUS_LINK_TIMEOUT
  | EEIP_NET_STATUS_DHCP_TIMEOUT
  | EEIP_NET_STATUS_CONFIG_ERROR

datatype IOPIP_INIT_STATUS =
    IOPIP_INIT_STATUS_DEPENDENCY_IRX_ERROR
  | IOPIP_INIT_STATUS_PS2IP_NM_IRX_ERROR
  | IOPIP_INIT_STATUS_PS2IPS_IRX_ERROR
  | IOPIP_INIT_STATUS_PS2IPS_ERROR
  | IOPIP_INIT_STATUS_UNKNOWN
  | IOPIP_INIT_STATUS_OK

datatype IOPIP_PROGRESS_EVENT =
    IOPIP_PROGRESS_SETTING_LINK_MODE
  | IOPIP_PROGRESS_APPLYING_IP_CONFIG
  | IOPIP_PROGRESS_WAITING_LINK_UP
  | IOPIP_PROGRESS_LINK_UP
  | IOPIP_PROGRESS_READY

datatype IOPIP_NET_STATUS =
    IOPIP_NET_STATUS_OK
  | IOPIP_NET_STATUS_LINK_MODE_ERROR
  | IOPIP_NET_STATUS_LINK_TIMEOUT
  | IOPIP_NET_STATUS_CONFIG_ERROR

primrec sio2man_init_val :: "SIO2MAN_INIT_STATUS \<Rightarrow> int" where
  "sio2man_init_val SIO2MAN_INIT_STATUS_IRX_ERROR = -2"
| "sio2man_init_val SIO2MAN_INIT_STATUS_UNKNOWN = -1"
| "sio2man_init_val SIO2MAN_INIT_STATUS_OK = 0"

primrec filexio_init_val :: "FILEXIO_INIT_STATUS \<Rightarrow> int" where
  "filexio_init_val FILEXIO_INIT_STATUS_DEPENDENCY_IRX_ERROR = -4"
| "filexio_init_val FILEXIO_INIT_STATUS_FILEXIO_IRX_ERROR = -3"
| "filexio_init_val FILEXIO_INIT_STATUS_IOMANX_IRX_ERROR = -2"
| "filexio_init_val FILEXIO_INIT_STATUS_UNKNOWN = -1"
| "filexio_init_val FILEXIO_INIT_STATUS_OK = 0"
| "filexio_init_val FILEXIO_INIT_STATUS_IRX_OK = 1"

primrec memcard_init_val :: "MEMCARD_INIT_STATUS \<Rightarrow> int" where
  "memcard_init_val MEMCARD_INIT_STATUS_DEPENDENCY_IRX_ERROR = -4"
| "memcard_init_val MEMCARD_INIT_STATUS_MCSERV_IRX_ERROR = -3"
| "memcard_init_val MEMCARD_INIT_STATUS_MCMAN_IRX_ERROR = -2"
| "memcard_init_val MEMCARD_INIT_STATUS_UNKNOWN = -1"
| "memcard_init_val MEMCARD_INIT_STATUS_OK = 0"
| "memcard_init_val MEMCARD_INIT_STATUS_IRX_OK = 1"

primrec bdm_init_val :: "BDM_INIT_STATUS \<Rightarrow> int" where
  "bdm_init_val BDM_INIT_STATUS_IRX_FATFS_ERROR = -3"
| "bdm_init_val BDM_INIT_STATUS_IRX_ERROR = -2"
| "bdm_init_val BDM_INIT_STATUS_UNKNOWN = -1"
| "bdm_init_val BDM_INIT_STATUS_OK = 0"

primrec usbd_init_val :: "USBD_INIT_STATUS \<Rightarrow> int" where
  "usbd_init_val USBD_INIT_STATUS_IRX_ERROR = -2"
| "usbd_init_val USBD_INIT_STATUS_UNKNOWN = -1"
| "usbd_init_val USBD_INIT_STATUS_OK = 0"

primrec usb_init_val :: "USB_INIT_STATUS \<Rightarrow> int" where
  "usb_init_val USB_INIT_STATUS_DEPENDENCY_USBD_ERROR = -5"
| "usb_init_val USB_INIT_STATUS_DEPENDENCY_BMD_ERROR = -4"
| "usb_init_val USB_INIT_STATUS_USBMASS_BD_IRX_ERROR = -3"
| "usb_init_val USB_INIT_STATUS_BDMFS_FATFS_IRX_ERROR = -2"
| "usb_init_val USB_INIT_STATUS_UNKNOWN = -1"
| "usb_init_val USB_INIT_STATUS_OK = 0"
| "usb_init_val USB_INIT_STATUS_IRX_OK = 1"

primrec mx4sio_init_val :: "MX4SIO_INIT_STATUS \<Rightarrow> int" where
  "mx4sio_init_val MX4SIO_INIT_STATUS_IRX_NOT_SUPPORTED = -5"
| "mx4sio_init_val MX4SIO_INIT_STATUS_DEPENDENCY_BDM_ERROR = -4"
| "mx4sio_init_val MX4SIO_INIT_STATUS_DEPENDENCY_SIO2MAN_ERROR = -3"
| "mx4sio_init_val MX4SIO_INIT_STATUS_IRX_ERROR = -2"
| "mx4sio_init_val MX4SIO_INIT_STATUS_UNKNOWN = -1"
| "mx4sio_init_val MX4SIO_INIT_STATUS_OK = 0"

primrec cdfs_init_val :: "CDFS_INIT_STATUS \<Rightarrow> int" where
  "cdfs_init_val CDFS_INIT_STATUS_IRX_ERROR = -2"
| "cdfs_init_val CDFS_INIT_STATUS_UNKNOWN = -1"
| "cdfs_init_val CDFS_INIT_STATUS_IRX_OK = 0"

primrec dev9_init_val :: "DEV9_INIT_STATUS \<Rightarrow> int" where
  "dev9_init_val DEV9_INIT_STATUS_IRX_ERROR = -2"
| "dev9_init_val DEV9_INIT_STATUS_UNKNOWN = -1"
| "dev9_init_val DEV9_INIT_STATUS_OK = 0"

primrec hdd_init_val :: "HDD_INIT_STATUS \<Rightarrow> int" where
  "hdd_init_val HDD_INIT_STATUS_DEPENDENCY_IRX_ERROR = -7"
| "hdd_init_val HDD_INIT_STATUS_HDD_NOT_READY_ERROR = -6"
| "hdd_init_val HDD_INIT_STATUS_PS2FS_IRX_ERROR = -5"
| "hdd_init_val HDD_INIT_STATUS_PS2HDD_IRX_ERROR = -4"
| "hdd_init_val HDD_INIT_STATUS_PS2ATAD_IRX_ERROR = -3"
| "hdd_init_val HDD_INIT_WRONG_CWD = -2"
| "hdd_init_val HDD_INIT_STATUS_UNKNOWN = -1"
| "hdd_init_val HDD_INIT_STATUS_IRX_OK = 0"

primrec hdd_mount_val :: "HDD_MOUNT_STATUS \<Rightarrow> int" where
  "hdd_mount_val HDD_MOUNT_STATUS_ERROR = -5"
| "hdd_mount_val HDD_MOUNT_STATUS_INFO_ERROR = -4"
| "hdd_mount_val HDD_MOUNT_STATUS_WRONG_CWD = -3"
| "hdd_mount_val HDD_MOUNT_STATUS_UKNOWN = -2"
| "hdd_mount_val HDD_MOUNT_INIT_STATUS_NOT_READY = -1"
| "hdd_mount_val HDD_MOUNT_STATUS_OK = 0"

primrec joystick_init_val :: "JOYSTICK_INIT_STATUS \<Rightarrow> int" where
  "joystick_init_val JOYSTICK_INIT_STATUS_DEPENDENCY_IRX_ERROR = -6"
| "joystick_init_val JOYSTICK_INIT_STATUS_PAD_IRX_ERROR = -5"
| "joystick_init_val JOYSTICK_INIT_STATUS_MTAP_IRX_ERROR = -4"
| "joystick_init_val JOYSTICK_INIT_STATUS_PAD_ERROR = -3"
| "joystick_init_val JOYSTICK_INIT_STATUS_MTAP_ERROR = -2"
| "joystick_init_val JOYSTICK_INIT_STATUS_UNKNOWN = -1"
| "joystick_init_val JOYSTICK_INIT_STATUS_OK = 0"
| "joystick_init_val JOYSTICK_INIT_STATUS_IRX_OK = 1"

primrec audio_init_val :: "AUDIO_INIT_STATUS \<Rightarrow> int" where
  "audio_init_val AUDIO_INIT_STATUS_AUDSRV_IRX_ERROR = -4"
| "audio_init_val AUDIO_INIT_STATUS_LIBSD_IRX_ERROR = -3"
| "audio_init_val AUDIO_INIT_STATUS_EEAUDSRV_ERROR = -2"
| "audio_init_val AUDIO_INIT_STATUS_UNKNOWN = -1"
| "audio_init_val AUDIO_INIT_STATUS_OK = 0"
| "audio_init_val AUDIO_INIT_STATUS_IRX_OK = 1"

primrec poweroff_init_val :: "POWEROFF_INIT_STATUS \<Rightarrow> int" where
  "poweroff_init_val POWEROFF_INIT_STATUS_IRX_ERROR = -3"
| "poweroff_init_val POWEROFF_INIT_STATUS_EERPC_ERROR = -2"
| "poweroff_init_val POWEROFF_INIT_STATUS_UNKNOWN = -1"
| "poweroff_init_val POWEROFF_INIT_STATUS_OK = 0"
| "poweroff_init_val POWEROFF_INIT_STATUS_IRX_OK = 1"

primrec mouse_init_val :: "MOUSE_INIT_STATUS \<Rightarrow> int" where
  "mouse_init_val MOUSE_INIT_STATUS_DEPENDENCY_ERROR = -4"
| "mouse_init_val MOUSE_INIT_STATUS_IRX_ERROR = -3"
| "mouse_init_val MOUSE_INIT_STATUS_EERPC_ERROR = -2"
| "mouse_init_val MOUSE_INIT_STATUS_UNKNOWN = -1"
| "mouse_init_val MOUSE_INIT_STATUS_OK = 0"
| "mouse_init_val MOUSE_INIT_STATUS_IRX_OK = 1"

primrec keyboard_init_val :: "KEYBOARD_INIT_STATUS \<Rightarrow> int" where
  "keyboard_init_val KEYBOARD_INIT_STATUS_DEPENDENCY_ERROR = -4"
| "keyboard_init_val KEYBOARD_INIT_STATUS_IRX_ERROR = -3"
| "keyboard_init_val KEYBOARD_INIT_STATUS_EERPC_ERROR = -2"
| "keyboard_init_val KEYBOARD_INIT_STATUS_UNKNOWN = -1"
| "keyboard_init_val KEYBOARD_INIT_STATUS_OK = 0"
| "keyboard_init_val KEYBOARD_INIT_STATUS_IRX_OK = 1"

primrec camera_init_val :: "CAMERA_INIT_STATUS \<Rightarrow> int" where
  "camera_init_val CAMERA_INIT_STATUS_DEPENDENCY_ERROR = -4"
| "camera_init_val CAMERA_INIT_STATUS_IRX_ERROR = -3"
| "camera_init_val CAMERA_INIT_STATUS_EERPC_ERROR = -2"
| "camera_init_val CAMERA_INIT_STATUS_UNKNOWN = -1"
| "camera_init_val CAMERA_INIT_STATUS_OK = 0"
| "camera_init_val CAMERA_INIT_STATUS_IRX_OK = 1"

primrec netman_init_val :: "NETMAN_INIT_STATUS \<Rightarrow> int" where
  "netman_init_val NETMAN_INIT_STATUS_EE_ERROR = -3"
| "netman_init_val NETMAN_INIT_STATUS_IRX_ERROR = -2"
| "netman_init_val NETMAN_INIT_STATUS_UNKNOWN = -1"
| "netman_init_val NETMAN_INIT_STATUS_OK = 0"
| "netman_init_val NETMAN_INIT_STATUS_IRX_OK = 1"

primrec smap_init_val :: "SMAP_INIT_STATUS \<Rightarrow> int" where
  "smap_init_val SMAP_INIT_STATUS_IRX_ERROR = -2"
| "smap_init_val SMAP_INIT_STATUS_UNKNOWN = -1"
| "smap_init_val SMAP_INIT_STATUS_OK = 0"

primrec eeip_init_val :: "EEIP_INIT_STATUS \<Rightarrow> int" where
  "eeip_init_val EEIP_INIT_STATUS_DEPENDENCY_IRX_ERROR = -2"
| "eeip_init_val EEIP_INIT_STATUS_UNKNOWN = -1"
| "eeip_init_val EEIP_INIT_STATUS_OK = 0"

primrec eeip_progress_val :: "EEIP_PROGRESS_EVENT \<Rightarrow> int" where
  "eeip_progress_val EEIP_PROGRESS_SETTING_LINK_MODE = 0"
| "eeip_progress_val EEIP_PROGRESS_TCPIP_INIT = 1"
| "eeip_progress_val EEIP_PROGRESS_APPLYING_IP_CONFIG = 2"
| "eeip_progress_val EEIP_PROGRESS_WAITING_LINK_UP = 3"
| "eeip_progress_val EEIP_PROGRESS_LINK_UP = 4"
| "eeip_progress_val EEIP_PROGRESS_WAITING_DHCP = 5"
| "eeip_progress_val EEIP_PROGRESS_DHCP_BOUND = 6"
| "eeip_progress_val EEIP_PROGRESS_READY = 7"

primrec eeip_net_val :: "EEIP_NET_STATUS \<Rightarrow> int" where
  "eeip_net_val EEIP_NET_STATUS_OK = 0"
| "eeip_net_val EEIP_NET_STATUS_LINK_MODE_ERROR = -1"
| "eeip_net_val EEIP_NET_STATUS_LINK_TIMEOUT = -2"
| "eeip_net_val EEIP_NET_STATUS_DHCP_TIMEOUT = -3"
| "eeip_net_val EEIP_NET_STATUS_CONFIG_ERROR = -4"

primrec iopip_init_val :: "IOPIP_INIT_STATUS \<Rightarrow> int" where
  "iopip_init_val IOPIP_INIT_STATUS_DEPENDENCY_IRX_ERROR = -5"
| "iopip_init_val IOPIP_INIT_STATUS_PS2IP_NM_IRX_ERROR = -4"
| "iopip_init_val IOPIP_INIT_STATUS_PS2IPS_IRX_ERROR = -3"
| "iopip_init_val IOPIP_INIT_STATUS_PS2IPS_ERROR = -2"
| "iopip_init_val IOPIP_INIT_STATUS_UNKNOWN = -1"
| "iopip_init_val IOPIP_INIT_STATUS_OK = 0"

primrec iopip_progress_val :: "IOPIP_PROGRESS_EVENT \<Rightarrow> int" where
  "iopip_progress_val IOPIP_PROGRESS_SETTING_LINK_MODE = 0"
| "iopip_progress_val IOPIP_PROGRESS_APPLYING_IP_CONFIG = 1"
| "iopip_progress_val IOPIP_PROGRESS_WAITING_LINK_UP = 2"
| "iopip_progress_val IOPIP_PROGRESS_LINK_UP = 3"
| "iopip_progress_val IOPIP_PROGRESS_READY = 4"

primrec iopip_net_val :: "IOPIP_NET_STATUS \<Rightarrow> int" where
  "iopip_net_val IOPIP_NET_STATUS_OK = 0"
| "iopip_net_val IOPIP_NET_STATUS_LINK_MODE_ERROR = -1"
| "iopip_net_val IOPIP_NET_STATUS_LINK_TIMEOUT = -2"
| "iopip_net_val IOPIP_NET_STATUS_CONFIG_ERROR = -3"

end
