(* ===== verification/Driver_Core.thy ===== *)
theory Driver_Core
  imports Irx_Exec Driver_Status
begin

text \<open>
  What all drivers share (include/irx_common_macros.h): the pair of variables
  \<^verbatim>\<open>__<irx>_id\<close> and \<^verbatim>\<open>__<irx>_ret\<close> of every module and the macros that test and reset
  them, the calls into the libraries of the PS2SDK, and the idiom in which every
  \<^verbatim>\<open>loadIRXs\<close> and \<^verbatim>\<open>unloadIRXs\<close> is written.

  The PS2SDK is a parameter: \<open>answer\<close> gives the result of a call from everything that
  happened before, so a theorem about all environments is one about all behaviours of the
  libraries and of the I/O processor. \<open>irx_exec\<close> is \<^verbatim>\<open>ps2_irx_exec\<close> on the module's
  descriptor, in one of the flavours of \<open>Irx_Exec\<close>, acting on the provider's state
  \<open>prov\<close>. \<open>events\<close> records the executions and the calls, in order.
\<close>

subsection \<open>State\<close>

record irx_slot =
  slot_id :: int
  slot_ret :: int

text \<open>Addresses are in network order; \<open>ip_info\<close> has the fields of \<^verbatim>\<open>t_ip_info\<close> the code uses.\<close>

record ip_info =
  ipaddr :: u32
  netmask :: u32
  gw :: u32
  dhcp_enabled :: int
  dhcp_status :: int

datatype poweroff_handler = Handler_all | Handler_only_boot | Handler_program

datatype lib_call =
    SifUnloadModule int
  | FileXioInit
  | FileXioExit
  | FileXioDevctl string string
  | FileXioMount string string
  | FileXioUmount string
  | MtapInit
  | PadInit int
  | PadEnd
  | Audsrv_init
  | Audsrv_quit
  | PoweroffInit
  | PoweroffSetCallback poweroff_handler
  | PoweroffShutdown
  | PS2MouseInit
  | PS2MouseReset
  | PS2KbdInit
  | PS2KbdClose
  | PS2CamInit int
  | NetManInit
  | NetManDeinit
  | NetManGetLinkStatus
  | NetManSetLinkMode int
  | Ps2ip_init
  | Ps2ip_deinit
  | Ps2ipInit u32 u32 u32
  | Ps2ip_getconfig string
  | Ps2ip_setconfig ip_info
  | Usleep nat
  | Stat string
  | Nopdelay
  | Chdir string
  | COP2Pipelined
  | EEIP_progress EEIP_PROGRESS_EVENT
  | IOPIP_progress IOPIP_PROGRESS_EVENT
  | SifInitRpc
  | SifIopReset
  | SifIopSync
  | Sbv_patch_enable_lmb
  | Sbv_patch_disable_prefix_check
  | Sleep nat
  | SleepThread

datatype event =
    Exec irx irx_args exec_result
  | Lib lib_call int

record 'p drv_env =
  irx_exec :: "irx \<Rightarrow> irx_args \<Rightarrow> 'p \<Rightarrow> exec_result \<times> 'p"
  answer :: "event list \<Rightarrow> lib_call \<Rightarrow> int"
  ipconfig :: "event list \<Rightarrow> ip_info"

text \<open>
  The static variables: the slots of the modules and the status of each driver, with what
  the mounting of the hard disk keeps. \<open>cwd_path\<close> is the current directory.
\<close>

record 'p drv =
  prov :: 'p
  slots :: "irx \<Rightarrow> irx_slot"
  events :: "event list"
  cwd_path :: string
  sio2man_init_status :: SIO2MAN_INIT_STATUS
  fileXio_init_status :: FILEXIO_INIT_STATUS
  memcard_init_status :: MEMCARD_INIT_STATUS
  bdm_init_status :: BDM_INIT_STATUS
  usbd_init_status :: USBD_INIT_STATUS
  usb_init_status :: USB_INIT_STATUS
  mx4sio_init_status :: MX4SIO_INIT_STATUS
  cdfs_init_status :: CDFS_INIT_STATUS
  dev9_init_status :: DEV9_INIT_STATUS
  hdd_init_status :: HDD_INIT_STATUS
  joystick_init_status :: JOYSTICK_INIT_STATUS
  audio_init_status :: AUDIO_INIT_STATUS
  poweroff_init_status :: POWEROFF_INIT_STATUS
  mouse_init_status :: MOUSE_INIT_STATUS
  keyboard_init_status :: KEYBOARD_INIT_STATUS
  camera_init_status :: CAMERA_INIT_STATUS
  netman_init_status :: NETMAN_INIT_STATUS
  smap_init_status :: SMAP_INIT_STATUS
  eeip_init_status :: EEIP_INIT_STATUS
  iopip_init_status :: IOPIP_INIT_STATUS
  mountString :: string
  mount_status :: HDD_MOUNT_STATUS
  boot_device_id :: BootDeviceIDs

subsection \<open>The macros\<close>

text \<open>\<^verbatim>\<open>DECL_IRX_VARS\<close> and \<^verbatim>\<open>RESET_IRX_VARS\<close>: both variables are -1.\<close>

definition reset_slot :: irx_slot where
  "reset_slot = \<lparr>slot_id = -1, slot_ret = -1\<rparr>"

definition CHECK_IRX_LOAD :: "irx_slot \<Rightarrow> bool" where
  "CHECK_IRX_LOAD v \<longleftrightarrow> slot_id v = -1 \<and> slot_ret v = -1"

definition CHECK_IRX_ERR :: "irx_slot \<Rightarrow> bool" where
  "CHECK_IRX_ERR v \<longleftrightarrow> slot_id v < 0 \<or> slot_ret v = 1"

definition CHECK_IRX_UNLOAD :: "irx_slot \<Rightarrow> bool" where
  "CHECK_IRX_UNLOAD v \<longleftrightarrow> slot_id v \<ge> 0 \<and> (slot_ret v = 0 \<or> slot_ret v = 2)"

subsection \<open>Library calls, loading and unloading\<close>

definition lib :: "'p drv_env \<Rightarrow> lib_call \<Rightarrow> 'p drv \<Rightarrow> int \<times> 'p drv" where
  "lib env c s = (let r = answer env (events s) c in (r, s\<lparr>events := events s @ [Lib c r]\<rparr>))"

text \<open>
  \<^verbatim>\<open>if (CHECK_IRX_LOAD(m)) { id = ps2_irx_exec(..., &ret); if (CHECK_IRX_ERR(m)) return ...; }\<close>;
  true when the error status is returned.
\<close>

definition load_irx :: "'p drv_env \<Rightarrow> irx \<Rightarrow> irx_args \<Rightarrow> 'p drv \<Rightarrow> bool \<times> 'p drv" where
  "load_irx env m args s =
     (if CHECK_IRX_LOAD (slots s m) then
        let (res, p) = irx_exec env m args (prov s);
            v = \<lparr>slot_id = fst res,
                 slot_ret = (case snd res of None \<Rightarrow> slot_ret (slots s m) | Some r \<Rightarrow> r)\<rparr>
        in (CHECK_IRX_ERR v,
            s\<lparr>prov := p, slots := (slots s)(m := v), events := events s @ [Exec m args res]\<rparr>)
      else (False, s))"

text \<open>A whole \<^verbatim>\<open>loadIRXs\<close>: the modules with their error statuses, and the final status.\<close>

fun load_irxs ::
  "'p drv_env \<Rightarrow> (irx \<times> irx_args \<times> 'st) list \<Rightarrow> 'st \<Rightarrow> 'p drv \<Rightarrow> 'st \<times> 'p drv" where
  "load_irxs env [] ok s = (ok, s)"
| "load_irxs env ((m, args, err) # rest) ok s =
     (let (bad, s1) = load_irx env m args s in
      if bad then (err, s1) else load_irxs env rest ok s1)"

definition unload_irx :: "'p drv_env \<Rightarrow> irx \<Rightarrow> 'p drv \<Rightarrow> 'p drv" where
  "unload_irx env m s =
     (if CHECK_IRX_UNLOAD (slots s m) then
        let s1 = snd (lib env (SifUnloadModule (slot_id (slots s m))) s)
        in s1\<lparr>slots := (slots s1)(m := reset_slot)\<rparr>
      else s)"

definition unload_irxs :: "'p drv_env \<Rightarrow> irx list \<Rightarrow> 'p drv \<Rightarrow> 'p drv" where
  "unload_irxs env ms s = fold (unload_irx env) ms s"

subsection \<open>For the statements: what an operation did\<close>

text \<open>The executions among the events.\<close>

fun execs :: "event list \<Rightarrow> (irx \<times> irx_args) list" where
  "execs [] = []"
| "execs (Exec m a r # es) = (m, a) # execs es"
| "execs (Lib c r # es) = execs es"

fun calls :: "event list \<Rightarrow> (lib_call \<times> int) list" where
  "calls [] = []"
| "calls (Exec m a r # es) = calls es"
| "calls (Lib c r # es) = (c, r) # calls es"

text \<open>
  From one state to a later one: events are only added, only modules of \<open>M\<close> were executed,
  the provider went through exactly those executions, and only slots of \<open>U\<close> changed.
\<close>

definition ran :: "'p drv_env \<Rightarrow> irx set \<Rightarrow> irx set \<Rightarrow> 'p drv \<Rightarrow> 'p drv \<Rightarrow> bool" where
  "ran env M U s t \<longleftrightarrow>
     (\<exists>es. events t = events s @ es \<and> fst ` set (execs es) \<subseteq> M \<and>
        prov t = snd (exec_list (irx_exec env) (execs es) (prov s))) \<and>
     (\<forall>m. m \<notin> U \<longrightarrow> slots t m = slots s m)"

text \<open>A slot after \<^verbatim>\<open>DECL_IRX_VARS\<close>, after a load that worked, and after one that did not.\<close>

definition slot_loaded :: "irx_slot \<Rightarrow> bool" where
  "slot_loaded v \<longleftrightarrow> \<not> CHECK_IRX_LOAD v \<and> \<not> CHECK_IRX_ERR v"

subsection \<open>Lemmas on the shared operations\<close>

lemmas slot_defs = CHECK_IRX_LOAD_def CHECK_IRX_ERR_def CHECK_IRX_UNLOAD_def slot_loaded_def reset_slot_def

lemma execs_append [simp]: "execs (xs @ ys) = execs xs @ execs ys"
  by (induction xs rule: execs.induct) simp_all

lemma calls_append [simp]: "calls (xs @ ys) = calls xs @ calls ys"
  by (induction xs rule: calls.induct) simp_all

lemma exec_list_append:
  "snd (exec_list f (xs @ ys) s) = snd (exec_list f ys (snd (exec_list f xs s)))"
  by (induction xs arbitrary: s) (auto simp: case_prod_unfold Let_def)

lemma ran_refl [simp, intro]: "ran env M U s s"
  by (auto simp: ran_def intro: exI [of _ "[]"])

lemma ran_trans [trans]:
  assumes "ran env M U s t" "ran env M U t u"
  shows "ran env M U s u"
proof -
  obtain es fs where e: "events t = events s @ es" "fst ` set (execs es) \<subseteq> M"
      "prov t = snd (exec_list (irx_exec env) (execs es) (prov s))"
    and f: "events u = events t @ fs" "fst ` set (execs fs) \<subseteq> M"
      "prov u = snd (exec_list (irx_exec env) (execs fs) (prov t))"
    using assms by (auto simp: ran_def)
  then have "events u = events s @ (es @ fs) \<and> fst ` set (execs (es @ fs)) \<subseteq> M \<and>
      prov u = snd (exec_list (irx_exec env) (execs (es @ fs)) (prov s))"
    by (auto simp: exec_list_append)
  moreover have "\<forall>m. m \<notin> U \<longrightarrow> slots u m = slots s m"
    using assms by (simp add: ran_def)
  ultimately show ?thesis
    unfolding ran_def by blast
qed

lemma ran_mono: "ran env M U s t \<Longrightarrow> M \<subseteq> M' \<Longrightarrow> U \<subseteq> U' \<Longrightarrow> ran env M' U' s t"
  by (auto simp: ran_def)

text \<open>A change of other variables than the provider, the slots and the events.\<close>

lemma ran_cong:
  "prov t = prov u \<Longrightarrow> slots t = slots u \<Longrightarrow> events t = events u \<Longrightarrow> ran env M U s t = ran env M U s u"
  by (simp add: ran_def)

lemma ran_lib: "ran env M U s (snd (lib env c s))"
  by (auto simp: ran_def lib_def Let_def)

lemma ran_load: "m \<in> M \<Longrightarrow> m \<in> U \<Longrightarrow> ran env M U s (snd (load_irx env m a s))"
  by (auto simp: ran_def load_irx_def case_prod_unfold Let_def)

lemma ran_loads:
  "(fst ` set ms) \<subseteq> M \<Longrightarrow> M \<subseteq> U \<Longrightarrow> ran env M U s (snd (load_irxs env ms ok s))"
proof (induction env ms ok s rule: load_irxs.induct)
  case (1 env ok s)
  then show ?case by simp
next
  case (2 env m args err rest ok s)
  obtain bad s1 where l: "load_irx env m args s = (bad, s1)" by fastforce
  have "ran env M U s s1"
    using ran_load [of m M U env s args] 2(2,3) l by auto
  then show ?case
    using 2(1) [OF l [symmetric] refl] 2(2,3) l by (auto intro: ran_trans)
qed

lemma ran_unload: "m \<in> U \<Longrightarrow> ran env M U s (unload_irx env m s)"
  by (auto simp: ran_def unload_irx_def lib_def Let_def)

lemma ran_unloads: "set ms \<subseteq> U \<Longrightarrow> ran env M U s (unload_irxs env ms s)"
  unfolding unload_irxs_def
  by (induction ms arbitrary: s) (auto intro: ran_trans ran_unload)

subsection \<open>The life of a slot\<close>

text \<open>After a load that is not reported as an error the module counts as loaded ...\<close>

lemma load_irx_ok:
  assumes "load_irx env m a s = (False, t)" and "CHECK_IRX_LOAD (slots s m)"
  shows "slot_loaded (slots t m)"
  using assms by (auto simp: load_irx_def slot_defs case_prod_unfold Let_def)

text \<open>... and loading it again does nothing.\<close>

lemma load_irx_again: "\<not> CHECK_IRX_LOAD (slots s m) \<Longrightarrow> load_irx env m a s = (False, s)"
  by (simp add: load_irx_def)

lemma load_irxs_again:
  "\<forall>x \<in> set ms. \<not> CHECK_IRX_LOAD (slots s (fst x)) \<Longrightarrow> load_irxs env ms ok s = (ok, s)"
  by (induction env ms ok s rule: load_irxs.induct) (auto simp: load_irx_again)

text \<open>
  A load is only attempted when both variables are -1. When the call failed with another
  number, or the module asked not to stay resident, they are not, so the module is never
  tried again and the next initialisation reports no error.
\<close>

lemma failed_load_sticks:
  assumes "load_irx env m a s = (True, t)" and "slots t m \<noteq> reset_slot"
  shows "load_irx env m b t = (False, t)" and "\<not> CHECK_IRX_UNLOAD (slots t m)"
proof -
  show "load_irx env m b t = (False, t)"
    using assms(2) by (auto simp: load_irx_def slot_defs)
  show "\<not> CHECK_IRX_UNLOAD (slots t m)"
    using assms(1) by (auto simp: load_irx_def slot_defs case_prod_unfold Let_def split: if_splits)
qed

lemma unload_irx_slot:
  "slots (unload_irx env m s) k = (if k = m \<and> CHECK_IRX_UNLOAD (slots s m) then reset_slot else slots s k)"
  by (simp add: unload_irx_def lib_def Let_def)

lemma unload_irxs_slot:
  "slots (unload_irxs env ms s) k =
     (if k \<in> set ms \<and> CHECK_IRX_UNLOAD (slots s k) then reset_slot else slots s k)"
  unfolding unload_irxs_def
proof (induction ms arbitrary: s)
  case Nil
  then show ?case by simp
next
  case (Cons m ms)
  have "\<not> CHECK_IRX_UNLOAD reset_slot"
    by (simp add: slot_defs)
  with Cons show ?case
    by (auto simp: unload_irx_slot)
qed

end
