(* ===== verification/Drivers.thy ===== *)
theory Drivers
  imports Driver_Core
begin

text \<open>
  The drivers (src/ps2_*_driver.c): for each of them \<^verbatim>\<open>loadIRXs\<close>,
  \<^verbatim>\<open>initLibraries\<close>, \<^verbatim>\<open>init_*_driver\<close>, \<^verbatim>\<open>unloadIRXs\<close> and
  \<^verbatim>\<open>deinit_*_driver\<close> in the order of the source, and the wrappers of
  include/ps2_network_driver.h. A function that releases the expansion bay waits in a loop
  for the hardware; the loop may not end, so it and its callers return an option, \<open>None\<close>
  when they do not return.

  The lemmas say which modules an initialisation executes: never any other than those of
  \<open>driver_closure\<close>, whatever the environment does; exactly those, each once, when it starts
  with nothing loaded and everything works; none when all of them are loaded already.
\<close>

text \<open>
  \<^verbatim>\<open>if (init_dependencies && init_x_driver() ...) return ...;\<close>: true when the dependency
  failed.
\<close>

definition dependency ::
  "bool \<Rightarrow> ('p drv \<Rightarrow> 'st \<times> 'p drv) \<Rightarrow> ('st \<Rightarrow> bool) \<Rightarrow> 'p drv \<Rightarrow> bool \<times> 'p drv" where
  "dependency needed init failed s =
     (if needed then let (st, s1) = init s in (failed st, s1) else (False, s))"

subsection \<open>SIO2MAN\<close>

definition loadIRXs_sio2man :: "'p drv_env \<Rightarrow> 'p drv \<Rightarrow> SIO2MAN_INIT_STATUS \<times> 'p drv" where
  "loadIRXs_sio2man env s =
     load_irxs env
       [(SIO2MAN, no_args, SIO2MAN_INIT_STATUS_IRX_ERROR)]
       SIO2MAN_INIT_STATUS_OK s"

definition init_sio2man_driver :: "'p drv_env \<Rightarrow> 'p drv \<Rightarrow> SIO2MAN_INIT_STATUS \<times> 'p drv" where
  "init_sio2man_driver env s =
     (let (st, s1) = loadIRXs_sio2man env s in (st, s1\<lparr>sio2man_init_status := st\<rparr>))"

definition unloadIRXs_sio2man :: "'p drv_env \<Rightarrow> 'p drv \<Rightarrow> 'p drv" where
  "unloadIRXs_sio2man env s =
     unload_irxs env [SIO2MAN] s"

definition deinit_sio2man_driver :: "'p drv_env \<Rightarrow> 'p drv \<Rightarrow> 'p drv" where
  "deinit_sio2man_driver env s =
     unloadIRXs_sio2man env s"

subsection \<open>fileXio\<close>

definition loadIRXs_fileXio :: "'p drv_env \<Rightarrow> 'p drv \<Rightarrow> FILEXIO_INIT_STATUS \<times> 'p drv" where
  "loadIRXs_fileXio env s =
     load_irxs env
       [(IOMANX, no_args, FILEXIO_INIT_STATUS_IOMANX_IRX_ERROR), (FILEXIO, no_args, FILEXIO_INIT_STATUS_FILEXIO_IRX_ERROR)]
       FILEXIO_INIT_STATUS_IRX_OK s"

definition initLibraries_fileXio :: "'p drv_env \<Rightarrow> 'p drv \<Rightarrow> FILEXIO_INIT_STATUS \<times> 'p drv" where
  "initLibraries_fileXio env s =
     (FILEXIO_INIT_STATUS_OK, snd (lib env FileXioInit s))"

definition init_fileXio_driver :: "'p drv_env \<Rightarrow> 'p drv \<Rightarrow> FILEXIO_INIT_STATUS \<times> 'p drv" where
  "init_fileXio_driver env s =
     (let (st, s1) = loadIRXs_fileXio env s;
          s2 = s1\<lparr>fileXio_init_status := st\<rparr>
      in if filexio_init_val st < 0 then (st, s2)
         else let (st', s3) = initLibraries_fileXio env s2 in (st', s3\<lparr>fileXio_init_status := st'\<rparr>))"

definition unloadIRXs_fileXio :: "'p drv_env \<Rightarrow> 'p drv \<Rightarrow> 'p drv" where
  "unloadIRXs_fileXio env s =
     unload_irxs env [FILEXIO, IOMANX] s"

definition deinit_fileXio_driver :: "'p drv_env \<Rightarrow> 'p drv \<Rightarrow> 'p drv" where
  "deinit_fileXio_driver env s =
     unloadIRXs_fileXio env (snd (lib env FileXioExit s))"

subsection \<open>Memory cards\<close>

definition loadIRXs_memcard :: "'p drv_env \<Rightarrow> 'p drv \<Rightarrow> MEMCARD_INIT_STATUS \<times> 'p drv" where
  "loadIRXs_memcard env s =
     load_irxs env
       [(MCMAN, no_args, MEMCARD_INIT_STATUS_MCMAN_IRX_ERROR), (MCSERV, no_args, MEMCARD_INIT_STATUS_MCSERV_IRX_ERROR)]
       MEMCARD_INIT_STATUS_IRX_OK s"

definition init_memcard_driver :: "'p drv_env \<Rightarrow> bool \<Rightarrow> 'p drv \<Rightarrow> MEMCARD_INIT_STATUS \<times> 'p drv" where
  "init_memcard_driver env init_dependencies s =
     (let (failed, s1) = dependency init_dependencies (init_sio2man_driver env)
                           (\<lambda>st. sio2man_init_val st < 0) s in
      if failed then (MEMCARD_INIT_STATUS_DEPENDENCY_IRX_ERROR, s1)
      else let (st, s2) = loadIRXs_memcard env s1 in (st, s2\<lparr>memcard_init_status := st\<rparr>))"

definition unloadIRXs_memcard :: "'p drv_env \<Rightarrow> 'p drv \<Rightarrow> 'p drv" where
  "unloadIRXs_memcard env s =
     unload_irxs env [MCMAN, MCSERV] s"

definition deinit_memcard_driver :: "'p drv_env \<Rightarrow> bool \<Rightarrow> 'p drv \<Rightarrow> 'p drv" where
  "deinit_memcard_driver env deinit_dependencies s =
     (let s1 = unloadIRXs_memcard env s in
      if deinit_dependencies then deinit_sio2man_driver env s1 else s1)"

subsection \<open>Block device manager\<close>

definition loadIRXs_bdm :: "'p drv_env \<Rightarrow> 'p drv \<Rightarrow> BDM_INIT_STATUS \<times> 'p drv" where
  "loadIRXs_bdm env s =
     load_irxs env
       [(BDM, no_args, BDM_INIT_STATUS_IRX_ERROR), (BDMFS_FATFS, no_args, BDM_INIT_STATUS_IRX_FATFS_ERROR)]
       BDM_INIT_STATUS_OK s"

definition init_bdm_driver :: "'p drv_env \<Rightarrow> 'p drv \<Rightarrow> BDM_INIT_STATUS \<times> 'p drv" where
  "init_bdm_driver env s =
     (let (st, s1) = loadIRXs_bdm env s in (st, s1\<lparr>bdm_init_status := st\<rparr>))"

definition unloadIRXs_bdm :: "'p drv_env \<Rightarrow> 'p drv \<Rightarrow> 'p drv" where
  "unloadIRXs_bdm env s =
     unload_irxs env [BDMFS_FATFS, BDM] s"

definition deinit_bdm_driver :: "'p drv_env \<Rightarrow> 'p drv \<Rightarrow> 'p drv" where
  "deinit_bdm_driver env s =
     unloadIRXs_bdm env s"

subsection \<open>USB host\<close>

definition loadIRXs_usbd :: "'p drv_env \<Rightarrow> 'p drv \<Rightarrow> USBD_INIT_STATUS \<times> 'p drv" where
  "loadIRXs_usbd env s =
     load_irxs env
       [(USBD, no_args, USBD_INIT_STATUS_IRX_ERROR)]
       USBD_INIT_STATUS_OK s"

definition init_usbd_driver :: "'p drv_env \<Rightarrow> 'p drv \<Rightarrow> USBD_INIT_STATUS \<times> 'p drv" where
  "init_usbd_driver env s =
     (let (st, s1) = loadIRXs_usbd env s in (st, s1\<lparr>usbd_init_status := st\<rparr>))"

definition unloadIRXs_usbd :: "'p drv_env \<Rightarrow> 'p drv \<Rightarrow> 'p drv" where
  "unloadIRXs_usbd env s =
     unload_irxs env [USBD] s"

definition deinit_usbd_driver :: "'p drv_env \<Rightarrow> 'p drv \<Rightarrow> 'p drv" where
  "deinit_usbd_driver env s =
     unloadIRXs_usbd env s"

subsection \<open>USB mass storage\<close>

definition loadIRXs_usb :: "'p drv_env \<Rightarrow> 'p drv \<Rightarrow> USB_INIT_STATUS \<times> 'p drv" where
  "loadIRXs_usb env s =
     load_irxs env
       [(USBMASS_BD, no_args, USB_INIT_STATUS_USBMASS_BD_IRX_ERROR)]
       USB_INIT_STATUS_IRX_OK s"

definition init_usb_driver :: "'p drv_env \<Rightarrow> bool \<Rightarrow> 'p drv \<Rightarrow> USB_INIT_STATUS \<times> 'p drv" where
  "init_usb_driver env init_dependencies s =
     (let (failed, s1) = dependency init_dependencies (init_bdm_driver env) (\<lambda>st. bdm_init_val st < 0) s in
      if failed then (USB_INIT_STATUS_DEPENDENCY_BMD_ERROR, s1)
      else
      let (failed, s2) = dependency init_dependencies (init_usbd_driver env) (\<lambda>st. usbd_init_val st < 0) s1 in
      if failed then (USB_INIT_STATUS_DEPENDENCY_USBD_ERROR, s2)
      else let (st, s3) = loadIRXs_usb env s2 in (st, s3\<lparr>usb_init_status := st\<rparr>))"

definition unloadIRXs_usb :: "'p drv_env \<Rightarrow> 'p drv \<Rightarrow> 'p drv" where
  "unloadIRXs_usb env s =
     unload_irxs env [USBMASS_BD] s"

definition deinit_usb_driver :: "'p drv_env \<Rightarrow> bool \<Rightarrow> 'p drv \<Rightarrow> 'p drv" where
  "deinit_usb_driver env deinit_dependencies s =
     (let s1 = unloadIRXs_usb env s in
      if deinit_dependencies then deinit_bdm_driver env (deinit_usbd_driver env s1) else s1)"

subsection \<open>SD cards on a memory card slot\<close>

text \<open>\<^verbatim>\<open>isCOP2Pipelined\<close> is assembler; its result is one of the answers.\<close>

definition loadIRXs_mx4sio :: "'p drv_env \<Rightarrow> 'p drv \<Rightarrow> MX4SIO_INIT_STATUS \<times> 'p drv" where
  "loadIRXs_mx4sio env s =
     (let (pipelined, s1) = lib env COP2Pipelined s in
      if pipelined = 0 then (MX4SIO_INIT_STATUS_IRX_NOT_SUPPORTED, s1)
      else load_irxs env [(MX4SIO_BD, no_args, MX4SIO_INIT_STATUS_IRX_ERROR)] MX4SIO_INIT_STATUS_OK s1)"

definition init_mx4sio_driver :: "'p drv_env \<Rightarrow> bool \<Rightarrow> 'p drv \<Rightarrow> MX4SIO_INIT_STATUS \<times> 'p drv" where
  "init_mx4sio_driver env init_dependencies s =
     (let (failed, s1) = dependency init_dependencies (init_sio2man_driver env)
                           (\<lambda>st. sio2man_init_val st < 0) s in
      if failed then (MX4SIO_INIT_STATUS_DEPENDENCY_SIO2MAN_ERROR, s1)
      else
      let (failed, s2) = dependency init_dependencies (init_bdm_driver env) (\<lambda>st. bdm_init_val st < 0) s1 in
      if failed then (MX4SIO_INIT_STATUS_DEPENDENCY_BDM_ERROR, s2)
      else let (st, s3) = loadIRXs_mx4sio env s2 in (st, s3\<lparr>mx4sio_init_status := st\<rparr>))"

definition unloadIRXs_mx4sio :: "'p drv_env \<Rightarrow> 'p drv \<Rightarrow> 'p drv" where
  "unloadIRXs_mx4sio env s =
     unload_irxs env [MX4SIO_BD] s"

definition deinit_mx4sio_driver :: "'p drv_env \<Rightarrow> bool \<Rightarrow> 'p drv \<Rightarrow> 'p drv" where
  "deinit_mx4sio_driver env deinit_dependencies s =
     (let s1 = unloadIRXs_mx4sio env s in
      if deinit_dependencies then deinit_sio2man_driver env (deinit_bdm_driver env s1) else s1)"

subsection \<open>CD file system\<close>

definition loadIRXs_cdfs :: "'p drv_env \<Rightarrow> 'p drv \<Rightarrow> CDFS_INIT_STATUS \<times> 'p drv" where
  "loadIRXs_cdfs env s =
     load_irxs env
       [(CDFS, no_args, CDFS_INIT_STATUS_IRX_ERROR)]
       CDFS_INIT_STATUS_IRX_OK s"

definition init_cdfs_driver :: "'p drv_env \<Rightarrow> 'p drv \<Rightarrow> CDFS_INIT_STATUS \<times> 'p drv" where
  "init_cdfs_driver env s =
     (let (st, s1) = loadIRXs_cdfs env s in (st, s1\<lparr>cdfs_init_status := st\<rparr>))"

definition unloadIRXs_cdfs :: "'p drv_env \<Rightarrow> 'p drv \<Rightarrow> 'p drv" where
  "unloadIRXs_cdfs env s =
     unload_irxs env [CDFS] s"

definition deinit_cdfs_driver :: "'p drv_env \<Rightarrow> 'p drv \<Rightarrow> 'p drv" where
  "deinit_cdfs_driver env s =
     unloadIRXs_cdfs env s"

subsection \<open>Expansion bay\<close>

definition loadIRXs_dev9 :: "'p drv_env \<Rightarrow> 'p drv \<Rightarrow> DEV9_INIT_STATUS \<times> 'p drv" where
  "loadIRXs_dev9 env s =
     load_irxs env
       [(PS2DEV9, no_args, DEV9_INIT_STATUS_IRX_ERROR)]
       DEV9_INIT_STATUS_OK s"

definition init_dev9_driver :: "'p drv_env \<Rightarrow> 'p drv \<Rightarrow> DEV9_INIT_STATUS \<times> 'p drv" where
  "init_dev9_driver env s =
     (let (st, s1) = loadIRXs_dev9 env s in (st, s1\<lparr>dev9_init_status := st\<rparr>))"

definition unloadIRXs_dev9 :: "'p drv_env \<Rightarrow> 'p drv \<Rightarrow> 'p drv" where
  "unloadIRXs_dev9 env s =
     unload_irxs env [PS2DEV9] s"

text \<open>\<^verbatim>\<open>while (fileXioDevctl("dev9x:", DDIOC_OFF, NULL, 0, NULL, 0) < 0) {};\<close>\<close>

partial_function (option) dev9_off_loop :: "'p drv_env \<Rightarrow> 'p drv \<Rightarrow> 'p drv option" where
  "dev9_off_loop env s =
     (let (ret, s1) = lib env (FileXioDevctl ''dev9x:'' ''DDIOC_OFF'') s in
      if ret < 0 then dev9_off_loop env s1 else Some s1)"

definition deinit_dev9_driver :: "'p drv_env \<Rightarrow> 'p drv \<Rightarrow> 'p drv option" where
  "deinit_dev9_driver env s =
     map_option (unloadIRXs_dev9 env)
       (if dev9_init_status s = DEV9_INIT_STATUS_OK then dev9_off_loop env s else Some s)"

subsection \<open>Hard disk\<close>

definition cwd_is_hdd :: "'p drv \<Rightarrow> bool" where
  "cwd_is_hdd s =
     (let cwd = cwd_path s in
      take (length ''hdd:'') cwd = ''hdd:'' \<or> take (length ''hdd0:'') cwd = ''hdd0:'')"

definition hddCheck :: "'p drv_env \<Rightarrow> 'p drv \<Rightarrow> int \<times> 'p drv" where
  "hddCheck env s =
     (let (ret, s1) = lib env (FileXioDevctl ''hdd0:'' ''HDIOC_STATUS'') s in
      if ret \<ge> 3 \<or> ret < 0 then (-1, s1) else (ret, s1))"

text \<open>The argument vector, with the zero at its end, and its \<^verbatim>\<open>sizeof\<close>.\<close>

definition hddarg :: string where
  "hddarg = ''-o'' @ [CHR 0x00] @ ''4'' @ [CHR 0x00] @ ''-n'' @ [CHR 0x00] @ ''20'' @ [CHR 0x00]"

definition hdd_args :: irx_args where
  "hdd_args = (of_nat (length hddarg), Some hddarg)"

definition loadIRXs_hdd :: "'p drv_env \<Rightarrow> 'p drv \<Rightarrow> HDD_INIT_STATUS \<times> 'p drv" where
  "loadIRXs_hdd env s =
     (let (st, s1) = load_irxs env
            [(PS2ATAD, no_args, HDD_INIT_STATUS_PS2ATAD_IRX_ERROR),
             (PS2HDD, hdd_args, HDD_INIT_STATUS_PS2HDD_IRX_ERROR)] HDD_INIT_STATUS_IRX_OK s in
      if st \<noteq> HDD_INIT_STATUS_IRX_OK then (st, s1)
      else
      let (ret, s2) = hddCheck env s1 in
      if ret < 0 then (HDD_INIT_STATUS_HDD_NOT_READY_ERROR, s2)
      else load_irxs env [(PS2FS, hdd_args, HDD_INIT_STATUS_PS2FS_IRX_ERROR)] HDD_INIT_STATUS_IRX_OK s2)"

definition init_hdd_driver :: "'p drv_env \<Rightarrow> bool \<Rightarrow> bool \<Rightarrow> 'p drv \<Rightarrow> HDD_INIT_STATUS \<times> 'p drv" where
  "init_hdd_driver env init_dependencies only_if_booted_from_hdd s =
     (if only_if_booted_from_hdd \<and> \<not> cwd_is_hdd s
      then (HDD_INIT_WRONG_CWD, s\<lparr>hdd_init_status := HDD_INIT_WRONG_CWD\<rparr>)
      else
      let failing = (\<lambda>s. (HDD_INIT_STATUS_DEPENDENCY_IRX_ERROR,
                          s\<lparr>hdd_init_status := HDD_INIT_STATUS_DEPENDENCY_IRX_ERROR\<rparr>));
          (failed, s1) = dependency init_dependencies (init_fileXio_driver env)
                           (\<lambda>st. st \<noteq> FILEXIO_INIT_STATUS_OK) s in
      if failed then failing s1
      else
      let (failed, s2) = dependency init_dependencies (init_dev9_driver env)
                           (\<lambda>st. st \<noteq> DEV9_INIT_STATUS_OK) s1 in
      if failed then failing s2
      else
      let (failed, s3) = dependency init_dependencies (init_bdm_driver env)
                           (\<lambda>st. st \<noteq> BDM_INIT_STATUS_OK) s2 in
      if failed then failing s3
      else let (st, s4) = loadIRXs_hdd env s3 in (st, s4\<lparr>hdd_init_status := st\<rparr>))"

definition unloadIRXs_hdd :: "'p drv_env \<Rightarrow> 'p drv \<Rightarrow> 'p drv" where
  "unloadIRXs_hdd env s =
     unload_irxs env [PS2FS, PS2HDD, PS2ATAD] s"

definition deinit_hdd_driver :: "'p drv_env \<Rightarrow> bool \<Rightarrow> 'p drv \<Rightarrow> 'p drv option" where
  "deinit_hdd_driver env deinit_dependencies s =
     (let s1 = unloadIRXs_hdd env s in
      if deinit_dependencies
      then map_option (deinit_fileXio_driver env) (deinit_dev9_driver env (deinit_bdm_driver env s1))
      else Some s1)"

subsection \<open>Joysticks\<close>

definition loadIRXs_joystick :: "'p drv_env \<Rightarrow> 'p drv \<Rightarrow> JOYSTICK_INIT_STATUS \<times> 'p drv" where
  "loadIRXs_joystick env s =
     load_irxs env
       [(MTAPMAN, no_args, JOYSTICK_INIT_STATUS_MTAP_IRX_ERROR), (PADMAN, no_args, JOYSTICK_INIT_STATUS_PAD_IRX_ERROR)]
       JOYSTICK_INIT_STATUS_IRX_OK s"

definition initLibraries_joystick :: "'p drv_env \<Rightarrow> 'p drv \<Rightarrow> JOYSTICK_INIT_STATUS \<times> 'p drv" where
  "initLibraries_joystick env s =
     (let (r, s1) = lib env MtapInit s in
      if r \<noteq> 1 then (JOYSTICK_INIT_STATUS_MTAP_ERROR, s1)
      else
      let (r, s2) = lib env (PadInit 0) s1 in
      if r \<noteq> 1 then (JOYSTICK_INIT_STATUS_PAD_ERROR, s2) else (JOYSTICK_INIT_STATUS_OK, s2))"

definition init_joystick_driver :: "'p drv_env \<Rightarrow> bool \<Rightarrow> 'p drv \<Rightarrow> JOYSTICK_INIT_STATUS \<times> 'p drv" where
  "init_joystick_driver env init_dependencies s =
     (let (failed, s1) = dependency init_dependencies (init_sio2man_driver env)
                           (\<lambda>st. st \<noteq> SIO2MAN_INIT_STATUS_OK) s in
      if failed then (JOYSTICK_INIT_STATUS_DEPENDENCY_IRX_ERROR, s1)
      else
      let (st, s2) = loadIRXs_joystick env s1;
          s3 = s2\<lparr>joystick_init_status := st\<rparr>
      in if joystick_init_val st < 0 then (st, s3)
         else let (st', s4) = initLibraries_joystick env s3 in (st', s4\<lparr>joystick_init_status := st'\<rparr>))"

definition deinitLibraries_joystick :: "'p drv_env \<Rightarrow> 'p drv \<Rightarrow> 'p drv" where
  "deinitLibraries_joystick env s =
     snd (lib env PadEnd s)"

definition unloadIRXs_joystick :: "'p drv_env \<Rightarrow> 'p drv \<Rightarrow> 'p drv" where
  "unloadIRXs_joystick env s =
     unload_irxs env [MTAPMAN, PADMAN] s"

definition deinit_joystick_driver :: "'p drv_env \<Rightarrow> bool \<Rightarrow> 'p drv \<Rightarrow> 'p drv" where
  "deinit_joystick_driver env deinit_dependencies s =
     (let s1 = unloadIRXs_joystick env (deinitLibraries_joystick env s) in
      if deinit_dependencies then deinit_sio2man_driver env s1 else s1)"

subsection \<open>Audio\<close>

definition loadIRXs_audio :: "'p drv_env \<Rightarrow> 'p drv \<Rightarrow> AUDIO_INIT_STATUS \<times> 'p drv" where
  "loadIRXs_audio env s =
     load_irxs env
       [(LIBSD, no_args, AUDIO_INIT_STATUS_LIBSD_IRX_ERROR), (AUDSRV, no_args, AUDIO_INIT_STATUS_AUDSRV_IRX_ERROR)]
       AUDIO_INIT_STATUS_IRX_OK s"

definition initLibraries_audio :: "'p drv_env \<Rightarrow> 'p drv \<Rightarrow> AUDIO_INIT_STATUS \<times> 'p drv" where
  "initLibraries_audio env s =
     (let (r, s1) = lib env Audsrv_init s in
      if r \<noteq> 0 then (AUDIO_INIT_STATUS_EEAUDSRV_ERROR, s1) else (AUDIO_INIT_STATUS_OK, s1))"

definition init_audio_driver :: "'p drv_env \<Rightarrow> 'p drv \<Rightarrow> AUDIO_INIT_STATUS \<times> 'p drv" where
  "init_audio_driver env s =
     (let (st, s1) = loadIRXs_audio env s;
          s2 = s1\<lparr>audio_init_status := st\<rparr>
      in if audio_init_val st < 0 then (st, s2)
         else let (st', s3) = initLibraries_audio env s2 in (st', s3\<lparr>audio_init_status := st'\<rparr>))"

definition deinitLibraries_audio :: "'p drv_env \<Rightarrow> 'p drv \<Rightarrow> 'p drv" where
  "deinitLibraries_audio env s =
     snd (lib env Audsrv_quit s)"

definition unloadIRXs_audio :: "'p drv_env \<Rightarrow> 'p drv \<Rightarrow> 'p drv" where
  "unloadIRXs_audio env s =
     unload_irxs env [AUDSRV, LIBSD] s"

definition deinit_audio_driver :: "'p drv_env \<Rightarrow> 'p drv \<Rightarrow> 'p drv" where
  "deinit_audio_driver env s =
     unloadIRXs_audio env (deinitLibraries_audio env s)"

subsection \<open>Power off\<close>

definition loadIRXs_poweroff :: "'p drv_env \<Rightarrow> 'p drv \<Rightarrow> POWEROFF_INIT_STATUS \<times> 'p drv" where
  "loadIRXs_poweroff env s =
     load_irxs env
       [(POWEROFF, no_args, POWEROFF_INIT_STATUS_IRX_ERROR)]
       POWEROFF_INIT_STATUS_IRX_OK s"

definition initLibraries_poweroff :: "'p drv_env \<Rightarrow> 'p drv \<Rightarrow> POWEROFF_INIT_STATUS \<times> 'p drv" where
  "initLibraries_poweroff env s =
     (let (r, s1) = lib env PoweroffInit s in
      if r \<noteq> 0 then (POWEROFF_INIT_STATUS_EERPC_ERROR, s1) else (POWEROFF_INIT_STATUS_OK, s1))"

definition init_poweroff_driver :: "'p drv_env \<Rightarrow> 'p drv \<Rightarrow> POWEROFF_INIT_STATUS \<times> 'p drv" where
  "init_poweroff_driver env s =
     (let (st, s1) = loadIRXs_poweroff env s;
          s2 = s1\<lparr>poweroff_init_status := st\<rparr>
      in if poweroff_init_val st < 0 then (st, s2)
         else let (st', s3) = initLibraries_poweroff env s2 in (st', s3\<lparr>poweroff_init_status := st'\<rparr>))"

definition unloadIRXs_poweroff :: "'p drv_env \<Rightarrow> 'p drv \<Rightarrow> 'p drv" where
  "unloadIRXs_poweroff env s =
     unload_irxs env [POWEROFF] s"

definition deinit_poweroff_driver :: "'p drv_env \<Rightarrow> 'p drv \<Rightarrow> 'p drv" where
  "deinit_poweroff_driver env s =
     unloadIRXs_poweroff env s"

subsection \<open>Mouse\<close>

definition loadIRXs_mouse :: "'p drv_env \<Rightarrow> bool \<Rightarrow> 'p drv \<Rightarrow> MOUSE_INIT_STATUS \<times> 'p drv" where
  "loadIRXs_mouse env init_dependencies s =
     (let (failed, s1) = dependency init_dependencies (init_usbd_driver env) (\<lambda>st. usbd_init_val st < 0) s in
      if failed then (MOUSE_INIT_STATUS_DEPENDENCY_ERROR, s1)
      else load_irxs env [(PS2MOUSE, no_args, MOUSE_INIT_STATUS_IRX_ERROR)] MOUSE_INIT_STATUS_IRX_OK s1)"

definition initLibraries_mouse :: "'p drv_env \<Rightarrow> 'p drv \<Rightarrow> MOUSE_INIT_STATUS \<times> 'p drv" where
  "initLibraries_mouse env s =
     (let (r, s1) = lib env PS2MouseInit s in
      if r < 0 then (MOUSE_INIT_STATUS_EERPC_ERROR, s1) else (MOUSE_INIT_STATUS_OK, snd (lib env PS2MouseReset s1)))"

definition init_mouse_driver :: "'p drv_env \<Rightarrow> bool \<Rightarrow> 'p drv \<Rightarrow> MOUSE_INIT_STATUS \<times> 'p drv" where
  "init_mouse_driver env init_dependencies s =
     (let (st, s1) = loadIRXs_mouse env init_dependencies s;
          s2 = s1\<lparr>mouse_init_status := st\<rparr>
      in if mouse_init_val st < 0 then (st, s2)
         else let (st', s3) = initLibraries_mouse env s2 in (st', s3\<lparr>mouse_init_status := st'\<rparr>))"

definition unloadIRXs_mouse :: "'p drv_env \<Rightarrow> bool \<Rightarrow> 'p drv \<Rightarrow> 'p drv" where
  "unloadIRXs_mouse env deinit_dependencies s =
     (let s1 = unload_irxs env [PS2MOUSE] s in
      if deinit_dependencies then deinit_usbd_driver env s1 else s1)"

definition deinit_mouse_driver :: "'p drv_env \<Rightarrow> bool \<Rightarrow> 'p drv \<Rightarrow> 'p drv" where
  "deinit_mouse_driver env deinit_dependencies s =
     unloadIRXs_mouse env deinit_dependencies s"

subsection \<open>Keyboard\<close>

definition loadIRXs_keyboard :: "'p drv_env \<Rightarrow> bool \<Rightarrow> 'p drv \<Rightarrow> KEYBOARD_INIT_STATUS \<times> 'p drv" where
  "loadIRXs_keyboard env init_dependencies s =
     (let (failed, s1) = dependency init_dependencies (init_usbd_driver env) (\<lambda>st. usbd_init_val st < 0) s in
      if failed then (KEYBOARD_INIT_STATUS_DEPENDENCY_ERROR, s1)
      else load_irxs env [(PS2KBD, no_args, KEYBOARD_INIT_STATUS_IRX_ERROR)] KEYBOARD_INIT_STATUS_IRX_OK s1)"

definition initLibraries_keyboard :: "'p drv_env \<Rightarrow> 'p drv \<Rightarrow> KEYBOARD_INIT_STATUS \<times> 'p drv" where
  "initLibraries_keyboard env s =
     (let (r, s1) = lib env PS2KbdInit s in
      if r < 0 then (KEYBOARD_INIT_STATUS_EERPC_ERROR, s1) else (KEYBOARD_INIT_STATUS_OK, s1))"

definition init_keyboard_driver :: "'p drv_env \<Rightarrow> bool \<Rightarrow> 'p drv \<Rightarrow> KEYBOARD_INIT_STATUS \<times> 'p drv" where
  "init_keyboard_driver env init_dependencies s =
     (let (st, s1) = loadIRXs_keyboard env init_dependencies s;
          s2 = s1\<lparr>keyboard_init_status := st\<rparr>
      in if keyboard_init_val st < 0 then (st, s2)
         else let (st', s3) = initLibraries_keyboard env s2 in (st', s3\<lparr>keyboard_init_status := st'\<rparr>))"

definition unloadIRXs_keyboard :: "'p drv_env \<Rightarrow> bool \<Rightarrow> 'p drv \<Rightarrow> 'p drv" where
  "unloadIRXs_keyboard env deinit_dependencies s =
     (let s1 = unload_irxs env [PS2KBD] s in
      if deinit_dependencies then deinit_usbd_driver env s1 else s1)"

definition deinit_keyboard_driver :: "'p drv_env \<Rightarrow> bool \<Rightarrow> 'p drv \<Rightarrow> 'p drv" where
  "deinit_keyboard_driver env deinit_dependencies s =
     unloadIRXs_keyboard env deinit_dependencies (snd (lib env PS2KbdClose s))"

subsection \<open>Camera\<close>

definition loadIRXs_camera :: "'p drv_env \<Rightarrow> bool \<Rightarrow> 'p drv \<Rightarrow> CAMERA_INIT_STATUS \<times> 'p drv" where
  "loadIRXs_camera env init_dependencies s =
     (let (failed, s1) = dependency init_dependencies (init_usbd_driver env) (\<lambda>st. usbd_init_val st < 0) s in
      if failed then (CAMERA_INIT_STATUS_DEPENDENCY_ERROR, s1)
      else load_irxs env [(PS2CAM, no_args, CAMERA_INIT_STATUS_IRX_ERROR)] CAMERA_INIT_STATUS_IRX_OK s1)"

definition initLibraries_camera :: "'p drv_env \<Rightarrow> 'p drv \<Rightarrow> CAMERA_INIT_STATUS \<times> 'p drv" where
  "initLibraries_camera env s =
     (let (r, s1) = lib env (PS2CamInit 0) s in
      if r < 0 then (CAMERA_INIT_STATUS_EERPC_ERROR, s1) else (CAMERA_INIT_STATUS_OK, s1))"

definition init_camera_driver :: "'p drv_env \<Rightarrow> bool \<Rightarrow> 'p drv \<Rightarrow> CAMERA_INIT_STATUS \<times> 'p drv" where
  "init_camera_driver env init_dependencies s =
     (let (st, s1) = loadIRXs_camera env init_dependencies s;
          s2 = s1\<lparr>camera_init_status := st\<rparr>
      in if camera_init_val st < 0 then (st, s2)
         else let (st', s3) = initLibraries_camera env s2 in (st', s3\<lparr>camera_init_status := st'\<rparr>))"

definition unloadIRXs_camera :: "'p drv_env \<Rightarrow> bool \<Rightarrow> 'p drv \<Rightarrow> 'p drv" where
  "unloadIRXs_camera env deinit_dependencies s =
     (let s1 = unload_irxs env [PS2CAM] s in
      if deinit_dependencies then deinit_usbd_driver env s1 else s1)"

definition deinit_camera_driver :: "'p drv_env \<Rightarrow> bool \<Rightarrow> 'p drv \<Rightarrow> 'p drv" where
  "deinit_camera_driver env deinit_dependencies s =
     unloadIRXs_camera env deinit_dependencies s"

subsection \<open>Network manager\<close>

definition loadIRXs_netman :: "'p drv_env \<Rightarrow> 'p drv \<Rightarrow> NETMAN_INIT_STATUS \<times> 'p drv" where
  "loadIRXs_netman env s =
     load_irxs env
       [(NETMAN, no_args, NETMAN_INIT_STATUS_IRX_ERROR)]
       NETMAN_INIT_STATUS_IRX_OK s"

definition initLibraries_netman :: "'p drv_env \<Rightarrow> 'p drv \<Rightarrow> NETMAN_INIT_STATUS \<times> 'p drv" where
  "initLibraries_netman env s =
     (let (r, s1) = lib env NetManInit s in
      (if r \<noteq> 0 then NETMAN_INIT_STATUS_EE_ERROR else NETMAN_INIT_STATUS_OK, s1))"

definition init_netman_driver :: "'p drv_env \<Rightarrow> 'p drv \<Rightarrow> NETMAN_INIT_STATUS \<times> 'p drv" where
  "init_netman_driver env s =
     (let (st, s1) = loadIRXs_netman env s;
          s2 = s1\<lparr>netman_init_status := st\<rparr>
      in if netman_init_val st < 0 then (st, s2)
         else let (st', s3) = initLibraries_netman env s2 in (st', s3\<lparr>netman_init_status := st'\<rparr>))"

definition unloadIRXs_netman :: "'p drv_env \<Rightarrow> 'p drv \<Rightarrow> 'p drv" where
  "unloadIRXs_netman env s =
     unload_irxs env [NETMAN] s"

definition deinit_netman_driver :: "'p drv_env \<Rightarrow> 'p drv \<Rightarrow> 'p drv" where
  "deinit_netman_driver env s =
     unloadIRXs_netman env (snd (lib env NetManDeinit s))"

subsection \<open>Network interface\<close>

definition loadIRXs_smap :: "'p drv_env \<Rightarrow> 'p drv \<Rightarrow> SMAP_INIT_STATUS \<times> 'p drv" where
  "loadIRXs_smap env s =
     load_irxs env
       [(SMAP, no_args, SMAP_INIT_STATUS_IRX_ERROR)]
       SMAP_INIT_STATUS_OK s"

definition init_smap_driver :: "'p drv_env \<Rightarrow> 'p drv \<Rightarrow> SMAP_INIT_STATUS \<times> 'p drv" where
  "init_smap_driver env s =
     (let (st, s1) = loadIRXs_smap env s in (st, s1\<lparr>smap_init_status := st\<rparr>))"

definition unloadIRXs_smap :: "'p drv_env \<Rightarrow> 'p drv \<Rightarrow> 'p drv" where
  "unloadIRXs_smap env s =
     unload_irxs env [SMAP] s"

definition deinit_smap_driver :: "'p drv_env \<Rightarrow> 'p drv \<Rightarrow> 'p drv" where
  "deinit_smap_driver env s =
     unloadIRXs_smap env s"

subsection \<open>IP stack on the main processor\<close>

definition init_eeip_driver :: "'p drv_env \<Rightarrow> bool \<Rightarrow> 'p drv \<Rightarrow> EEIP_INIT_STATUS \<times> 'p drv" where
  "init_eeip_driver env init_dependencies s =
     (let (failed, s1) = dependency init_dependencies (init_dev9_driver env)
                           (\<lambda>st. st \<noteq> DEV9_INIT_STATUS_OK) s in
      if failed then (EEIP_INIT_STATUS_DEPENDENCY_IRX_ERROR, s1)
      else
      let (failed, s2) = dependency init_dependencies (init_netman_driver env)
                           (\<lambda>st. st \<noteq> NETMAN_INIT_STATUS_OK) s1 in
      if failed then (EEIP_INIT_STATUS_DEPENDENCY_IRX_ERROR, s2)
      else
      let (failed, s3) = dependency init_dependencies (init_smap_driver env)
                           (\<lambda>st. st \<noteq> SMAP_INIT_STATUS_OK) s2 in
      if failed then (EEIP_INIT_STATUS_DEPENDENCY_IRX_ERROR, s3)
      else (EEIP_INIT_STATUS_OK, s3\<lparr>eeip_init_status := EEIP_INIT_STATUS_OK\<rparr>))"

definition deinit_eeip_driver :: "'p drv_env \<Rightarrow> bool \<Rightarrow> 'p drv \<Rightarrow> 'p drv option" where
  "deinit_eeip_driver env deinit_dependencies s =
     (if deinit_dependencies
      then deinit_dev9_driver env (deinit_netman_driver env (deinit_smap_driver env s))
      else Some s)"

subsection \<open>IP stack on the I/O processor\<close>

definition loadIRXs_iopip :: "'p drv_env \<Rightarrow> 'p drv \<Rightarrow> IOPIP_INIT_STATUS \<times> 'p drv" where
  "loadIRXs_iopip env s =
     load_irxs env
       [(PS2IP_NM, no_args, IOPIP_INIT_STATUS_PS2IP_NM_IRX_ERROR), (PS2IPS, no_args, IOPIP_INIT_STATUS_PS2IPS_IRX_ERROR)]
       IOPIP_INIT_STATUS_OK s"

definition initLibraries_iopip :: "'p drv_env \<Rightarrow> 'p drv \<Rightarrow> IOPIP_INIT_STATUS \<times> 'p drv" where
  "initLibraries_iopip env s =
     (let (r, s1) = lib env Ps2ip_init s in
      if r \<noteq> 0 then (IOPIP_INIT_STATUS_PS2IPS_ERROR, s1) else (IOPIP_INIT_STATUS_OK, s1))"

definition init_iopip_driver :: "'p drv_env \<Rightarrow> bool \<Rightarrow> 'p drv \<Rightarrow> IOPIP_INIT_STATUS \<times> 'p drv" where
  "init_iopip_driver env init_dependencies s =
     (let (failed, s1) = dependency init_dependencies (init_dev9_driver env)
                           (\<lambda>st. st \<noteq> DEV9_INIT_STATUS_OK) s in
      if failed then (IOPIP_INIT_STATUS_DEPENDENCY_IRX_ERROR, s1)
      else
      let (failed, s2) = dependency init_dependencies (init_netman_driver env)
                           (\<lambda>st. st \<noteq> NETMAN_INIT_STATUS_OK) s1 in
      if failed then (IOPIP_INIT_STATUS_DEPENDENCY_IRX_ERROR, s2)
      else
      let (failed, s3) = dependency init_dependencies (init_smap_driver env)
                           (\<lambda>st. st \<noteq> SMAP_INIT_STATUS_OK) s2 in
      if failed then (IOPIP_INIT_STATUS_DEPENDENCY_IRX_ERROR, s3)
      else
      let (st, s4) = loadIRXs_iopip env s3;
          s5 = s4\<lparr>iopip_init_status := st\<rparr>
      in if iopip_init_val st < 0 then (st, s5)
         else let (st', s6) = initLibraries_iopip env s5 in (st', s6\<lparr>iopip_init_status := st'\<rparr>))"

definition deinitLibraries_iopip :: "'p drv_env \<Rightarrow> 'p drv \<Rightarrow> 'p drv" where
  "deinitLibraries_iopip env s =
     snd (lib env Ps2ip_deinit s)"

definition unloadIRXs_iopip :: "'p drv_env \<Rightarrow> 'p drv \<Rightarrow> 'p drv" where
  "unloadIRXs_iopip env s =
     unload_irxs env [PS2IPS, PS2IP_NM] s"

definition deinit_iopip_driver :: "'p drv_env \<Rightarrow> bool \<Rightarrow> 'p drv \<Rightarrow> 'p drv option" where
  "deinit_iopip_driver env deinit_dependencies s =
     (let s1 = unloadIRXs_iopip env (deinitLibraries_iopip env s) in
      if deinit_dependencies
      then deinit_dev9_driver env (deinit_netman_driver env (deinit_smap_driver env s1))
      else Some s1)"

subsection \<open>The network wrappers\<close>

definition init_network_driver :: "'p drv_env \<Rightarrow> bool \<Rightarrow> 'p drv \<Rightarrow> EEIP_INIT_STATUS \<times> 'p drv" where
  "init_network_driver env init_dependencies s =
     init_eeip_driver env init_dependencies s"

definition deinit_network_driver :: "'p drv_env \<Rightarrow> bool \<Rightarrow> 'p drv \<Rightarrow> 'p drv option" where
  "deinit_network_driver env deinit_dependencies s =
     deinit_eeip_driver env deinit_dependencies s"

definition init_network_EE_driver :: "'p drv_env \<Rightarrow> bool \<Rightarrow> 'p drv \<Rightarrow> EEIP_INIT_STATUS \<times> 'p drv" where
  "init_network_EE_driver env init_dependencies s =
     init_eeip_driver env init_dependencies s"

definition deinit_network_EE_driver :: "'p drv_env \<Rightarrow> bool \<Rightarrow> 'p drv \<Rightarrow> 'p drv option" where
  "deinit_network_EE_driver env deinit_dependencies s =
     deinit_eeip_driver env deinit_dependencies s"

definition init_network_IOP_driver :: "'p drv_env \<Rightarrow> bool \<Rightarrow> 'p drv \<Rightarrow> IOPIP_INIT_STATUS \<times> 'p drv" where
  "init_network_IOP_driver env init_dependencies s =
     init_iopip_driver env init_dependencies s"

text \<open>As written, this wrapper calls \<^verbatim>\<open>init_iopip_driver\<close>.\<close>

definition deinit_network_IOP_driver :: "'p drv_env \<Rightarrow> bool \<Rightarrow> 'p drv \<Rightarrow> 'p drv" where
  "deinit_network_IOP_driver env deinit_dependencies s =
     snd (init_iopip_driver env deinit_dependencies s)"

subsection \<open>For the statements: the driver of a requirement\<close>

text \<open>
  The initialisation a requirement bit is meant for, with its dependencies, and whether its
  status is not negative; and the matching release.
\<close>

fun init_requirement :: "'p drv_env \<Rightarrow> ps2_driver_requirement \<Rightarrow> 'p drv \<Rightarrow> bool \<times> 'p drv" where
  "init_requirement env PS2_DRIVER_REQ_SIO2MAN s =
     (let (st, t) = init_sio2man_driver env s in (sio2man_init_val st \<ge> 0, t))"
| "init_requirement env PS2_DRIVER_REQ_FILEXIO s =
     (let (st, t) = init_fileXio_driver env s in (filexio_init_val st \<ge> 0, t))"
| "init_requirement env PS2_DRIVER_REQ_MEMCARD s =
     (let (st, t) = init_memcard_driver env True s in (memcard_init_val st \<ge> 0, t))"
| "init_requirement env PS2_DRIVER_REQ_BDM s =
     (let (st, t) = init_bdm_driver env s in (bdm_init_val st \<ge> 0, t))"
| "init_requirement env PS2_DRIVER_REQ_USBD s =
     (let (st, t) = init_usbd_driver env s in (usbd_init_val st \<ge> 0, t))"
| "init_requirement env PS2_DRIVER_REQ_USB s =
     (let (st, t) = init_usb_driver env True s in (usb_init_val st \<ge> 0, t))"
| "init_requirement env PS2_DRIVER_REQ_MX4SIO s =
     (let (st, t) = init_mx4sio_driver env True s in (mx4sio_init_val st \<ge> 0, t))"
| "init_requirement env PS2_DRIVER_REQ_CDFS s =
     (let (st, t) = init_cdfs_driver env s in (cdfs_init_val st \<ge> 0, t))"
| "init_requirement env PS2_DRIVER_REQ_DEV9 s =
     (let (st, t) = init_dev9_driver env s in (dev9_init_val st \<ge> 0, t))"
| "init_requirement env PS2_DRIVER_REQ_HDD s =
     (let (st, t) = init_hdd_driver env True False s in (hdd_init_val st \<ge> 0, t))"
| "init_requirement env PS2_DRIVER_REQ_JOYSTICK s =
     (let (st, t) = init_joystick_driver env True s in (joystick_init_val st \<ge> 0, t))"
| "init_requirement env PS2_DRIVER_REQ_AUDIO s =
     (let (st, t) = init_audio_driver env s in (audio_init_val st \<ge> 0, t))"
| "init_requirement env PS2_DRIVER_REQ_POWEROFF s =
     (let (st, t) = init_poweroff_driver env s in (poweroff_init_val st \<ge> 0, t))"
| "init_requirement env PS2_DRIVER_REQ_MOUSE s =
     (let (st, t) = init_mouse_driver env True s in (mouse_init_val st \<ge> 0, t))"
| "init_requirement env PS2_DRIVER_REQ_KEYBOARD s =
     (let (st, t) = init_keyboard_driver env True s in (keyboard_init_val st \<ge> 0, t))"
| "init_requirement env PS2_DRIVER_REQ_CAMERA s =
     (let (st, t) = init_camera_driver env True s in (camera_init_val st \<ge> 0, t))"
| "init_requirement env PS2_DRIVER_REQ_NETMAN s =
     (let (st, t) = init_netman_driver env s in (netman_init_val st \<ge> 0, t))"
| "init_requirement env PS2_DRIVER_REQ_SMAP s =
     (let (st, t) = init_smap_driver env s in (smap_init_val st \<ge> 0, t))"
| "init_requirement env PS2_DRIVER_REQ_EEIP s =
     (let (st, t) = init_eeip_driver env True s in (eeip_init_val st \<ge> 0, t))"
| "init_requirement env PS2_DRIVER_REQ_IOPIP s =
     (let (st, t) = init_iopip_driver env True s in (iopip_init_val st \<ge> 0, t))"

fun deinit_requirement :: "'p drv_env \<Rightarrow> ps2_driver_requirement \<Rightarrow> 'p drv \<Rightarrow> 'p drv option" where
  "deinit_requirement env PS2_DRIVER_REQ_SIO2MAN s = Some (deinit_sio2man_driver env s)"
| "deinit_requirement env PS2_DRIVER_REQ_FILEXIO s = Some (deinit_fileXio_driver env s)"
| "deinit_requirement env PS2_DRIVER_REQ_MEMCARD s = Some (deinit_memcard_driver env True s)"
| "deinit_requirement env PS2_DRIVER_REQ_BDM s = Some (deinit_bdm_driver env s)"
| "deinit_requirement env PS2_DRIVER_REQ_USBD s = Some (deinit_usbd_driver env s)"
| "deinit_requirement env PS2_DRIVER_REQ_USB s = Some (deinit_usb_driver env True s)"
| "deinit_requirement env PS2_DRIVER_REQ_MX4SIO s = Some (deinit_mx4sio_driver env True s)"
| "deinit_requirement env PS2_DRIVER_REQ_CDFS s = Some (deinit_cdfs_driver env s)"
| "deinit_requirement env PS2_DRIVER_REQ_DEV9 s = deinit_dev9_driver env s"
| "deinit_requirement env PS2_DRIVER_REQ_HDD s = deinit_hdd_driver env True s"
| "deinit_requirement env PS2_DRIVER_REQ_JOYSTICK s = Some (deinit_joystick_driver env True s)"
| "deinit_requirement env PS2_DRIVER_REQ_AUDIO s = Some (deinit_audio_driver env s)"
| "deinit_requirement env PS2_DRIVER_REQ_POWEROFF s = Some (deinit_poweroff_driver env s)"
| "deinit_requirement env PS2_DRIVER_REQ_MOUSE s = Some (deinit_mouse_driver env True s)"
| "deinit_requirement env PS2_DRIVER_REQ_KEYBOARD s = Some (deinit_keyboard_driver env True s)"
| "deinit_requirement env PS2_DRIVER_REQ_CAMERA s = Some (deinit_camera_driver env True s)"
| "deinit_requirement env PS2_DRIVER_REQ_NETMAN s = Some (deinit_netman_driver env s)"
| "deinit_requirement env PS2_DRIVER_REQ_SMAP s = Some (deinit_smap_driver env s)"
| "deinit_requirement env PS2_DRIVER_REQ_EEIP s = deinit_eeip_driver env True s"
| "deinit_requirement env PS2_DRIVER_REQ_IOPIP s = deinit_iopip_driver env True s"

text \<open>The modules that are in \<open>M\<close>, or outside \<open>U\<close> with a slot that says loaded.\<close>

definition may_load :: "irx set \<Rightarrow> irx set \<Rightarrow> 'p drv \<Rightarrow> irx set" where
  "may_load M U s = M \<union> {m. m \<notin> U \<and> \<not> CHECK_IRX_LOAD (slots s m)}"

subsection \<open>Only the modules of the closure are executed\<close>

lemma ran_status [simp]:
  "ran env M U s (t\<lparr>sio2man_init_status := v1\<rparr>) = ran env M U s t"
  "ran env M U s (t\<lparr>fileXio_init_status := v2\<rparr>) = ran env M U s t"
  "ran env M U s (t\<lparr>memcard_init_status := v3\<rparr>) = ran env M U s t"
  "ran env M U s (t\<lparr>bdm_init_status := v4\<rparr>) = ran env M U s t"
  "ran env M U s (t\<lparr>usbd_init_status := v5\<rparr>) = ran env M U s t"
  "ran env M U s (t\<lparr>usb_init_status := v6\<rparr>) = ran env M U s t"
  "ran env M U s (t\<lparr>mx4sio_init_status := v7\<rparr>) = ran env M U s t"
  "ran env M U s (t\<lparr>cdfs_init_status := v8\<rparr>) = ran env M U s t"
  "ran env M U s (t\<lparr>dev9_init_status := v9\<rparr>) = ran env M U s t"
  "ran env M U s (t\<lparr>hdd_init_status := v10\<rparr>) = ran env M U s t"
  "ran env M U s (t\<lparr>joystick_init_status := v11\<rparr>) = ran env M U s t"
  "ran env M U s (t\<lparr>audio_init_status := v12\<rparr>) = ran env M U s t"
  "ran env M U s (t\<lparr>poweroff_init_status := v13\<rparr>) = ran env M U s t"
  "ran env M U s (t\<lparr>mouse_init_status := v14\<rparr>) = ran env M U s t"
  "ran env M U s (t\<lparr>keyboard_init_status := v15\<rparr>) = ran env M U s t"
  "ran env M U s (t\<lparr>camera_init_status := v16\<rparr>) = ran env M U s t"
  "ran env M U s (t\<lparr>netman_init_status := v17\<rparr>) = ran env M U s t"
  "ran env M U s (t\<lparr>smap_init_status := v18\<rparr>) = ran env M U s t"
  "ran env M U s (t\<lparr>eeip_init_status := v19\<rparr>) = ran env M U s t"
  "ran env M U s (t\<lparr>iopip_init_status := v20\<rparr>) = ran env M U s t"
  by (simp_all add: ran_def)

text \<open>
  What may be asked for after \<open>s\<close>: a module of \<open>M\<close>, or one whose slot is out of reach
  and says that it is loaded.
\<close>

lemma ran_load_may:
  assumes "ran env M U s t" "m \<in> may_load M U s" "M \<subseteq> U"
  shows "ran env M U s (snd (load_irx env m a t))"
proof (cases "m \<in> M")
  case True
  then show ?thesis
    using assms ran_load [of m M U env t a] by (blast intro: ran_trans)
next
  case False
  then have "m \<notin> U" "\<not> CHECK_IRX_LOAD (slots s m)"
    using assms(2) by (auto simp: may_load_def)
  moreover from this(1) have "slots t m = slots s m"
    using assms(1) by (auto simp: ran_def)
  ultimately show ?thesis
    using assms(1) by (simp add: load_irx_again)
qed

lemma ran_loads_may:
  "ran env M U s t \<Longrightarrow> fst ` set ms \<subseteq> may_load M U s \<Longrightarrow> M \<subseteq> U \<Longrightarrow>
     ran env M U s (snd (load_irxs env ms ok t))"
proof (induction env ms ok t rule: load_irxs.induct)
  case (1 env ok t)
  then show ?case by simp
next
  case (2 env m args err rest ok t)
  obtain bad t1 where l: "load_irx env m args t = (bad, t1)" by fastforce
  have "ran env M U s t1"
    using ran_load_may [of env M U s t m args] 2(2-4) l by auto
  then show ?case
    using 2(1) [OF l [symmetric] refl] 2(3,4) l by auto
qed

text \<open>The rules as steps from a state that was reached already.\<close>

lemma ran_intros:
  "ran env M U s t \<Longrightarrow> ran env M U s (snd (lib env c t))"
  "ran env M U s t \<Longrightarrow> set us \<subseteq> U \<Longrightarrow> ran env M U s (unload_irxs env us t)"
  by (blast intro: ran_trans ran_lib ran_unloads)+

lemma ran_dependency:
  "ran env M U s t \<Longrightarrow> (needed \<Longrightarrow> ran env M U s (snd (init t))) \<Longrightarrow>
     ran env M U s (snd (dependency needed init failed t))"
  by (auto simp: dependency_def case_prod_unfold Let_def)

lemmas ran_rules = ran_refl ran_intros ran_load_may ran_loads_may ran_dependency

lemma init_sio2man_ran:
  "ran env M U s t \<Longrightarrow> {SIO2MAN} \<subseteq> may_load M U s \<Longrightarrow> M \<subseteq> U \<Longrightarrow>
     ran env M U s (snd (init_sio2man_driver env t))"
  by (auto simp: init_sio2man_driver_def loadIRXs_sio2man_def case_prod_unfold Let_def simp del: load_irxs.simps intro!: ran_rules)

lemma init_fileXio_ran:
  "ran env M U s t \<Longrightarrow> {IOMANX, FILEXIO} \<subseteq> may_load M U s \<Longrightarrow> M \<subseteq> U \<Longrightarrow>
     ran env M U s (snd (init_fileXio_driver env t))"
  by (auto simp: init_fileXio_driver_def loadIRXs_fileXio_def initLibraries_fileXio_def case_prod_unfold Let_def simp del: load_irxs.simps intro!: ran_rules)

lemma init_bdm_ran:
  "ran env M U s t \<Longrightarrow> {BDM, BDMFS_FATFS} \<subseteq> may_load M U s \<Longrightarrow> M \<subseteq> U \<Longrightarrow>
     ran env M U s (snd (init_bdm_driver env t))"
  by (auto simp: init_bdm_driver_def loadIRXs_bdm_def case_prod_unfold Let_def simp del: load_irxs.simps intro!: ran_rules)

lemma init_usbd_ran:
  "ran env M U s t \<Longrightarrow> {USBD} \<subseteq> may_load M U s \<Longrightarrow> M \<subseteq> U \<Longrightarrow>
     ran env M U s (snd (init_usbd_driver env t))"
  by (auto simp: init_usbd_driver_def loadIRXs_usbd_def case_prod_unfold Let_def simp del: load_irxs.simps intro!: ran_rules)

lemma init_dev9_ran:
  "ran env M U s t \<Longrightarrow> {PS2DEV9} \<subseteq> may_load M U s \<Longrightarrow> M \<subseteq> U \<Longrightarrow>
     ran env M U s (snd (init_dev9_driver env t))"
  by (auto simp: init_dev9_driver_def loadIRXs_dev9_def case_prod_unfold Let_def simp del: load_irxs.simps intro!: ran_rules)

lemma init_netman_ran:
  "ran env M U s t \<Longrightarrow> {NETMAN} \<subseteq> may_load M U s \<Longrightarrow> M \<subseteq> U \<Longrightarrow>
     ran env M U s (snd (init_netman_driver env t))"
  by (auto simp: init_netman_driver_def loadIRXs_netman_def initLibraries_netman_def case_prod_unfold Let_def simp del: load_irxs.simps intro!: ran_rules)

lemma init_smap_ran:
  "ran env M U s t \<Longrightarrow> {SMAP} \<subseteq> may_load M U s \<Longrightarrow> M \<subseteq> U \<Longrightarrow>
     ran env M U s (snd (init_smap_driver env t))"
  by (auto simp: init_smap_driver_def loadIRXs_smap_def case_prod_unfold Let_def simp del: load_irxs.simps intro!: ran_rules)

lemma init_memcard_ran:
  "ran env M U s t \<Longrightarrow> {MCMAN, MCSERV} \<subseteq> may_load M U s \<Longrightarrow> (b \<Longrightarrow> {SIO2MAN} \<subseteq> may_load M U s) \<Longrightarrow> M \<subseteq> U \<Longrightarrow>
     ran env M U s (snd (init_memcard_driver env b t))"
  by (auto simp: init_memcard_driver_def loadIRXs_memcard_def case_prod_unfold Let_def simp del: load_irxs.simps intro!: ran_rules init_sio2man_ran)

lemma init_usb_ran:
  "ran env M U s t \<Longrightarrow> {USBMASS_BD} \<subseteq> may_load M U s \<Longrightarrow> (b \<Longrightarrow> {BDM, BDMFS_FATFS, USBD} \<subseteq> may_load M U s) \<Longrightarrow> M \<subseteq> U \<Longrightarrow>
     ran env M U s (snd (init_usb_driver env b t))"
  by (auto simp: init_usb_driver_def loadIRXs_usb_def case_prod_unfold Let_def simp del: load_irxs.simps intro!: ran_rules init_bdm_ran init_usbd_ran)

lemma init_mx4sio_ran:
  "ran env M U s t \<Longrightarrow> {MX4SIO_BD} \<subseteq> may_load M U s \<Longrightarrow> (b \<Longrightarrow> {SIO2MAN, BDM, BDMFS_FATFS} \<subseteq> may_load M U s) \<Longrightarrow> M \<subseteq> U \<Longrightarrow>
     ran env M U s (snd (init_mx4sio_driver env b t))"
  by (auto simp: init_mx4sio_driver_def loadIRXs_mx4sio_def case_prod_unfold Let_def simp del: load_irxs.simps intro!: ran_rules init_sio2man_ran init_bdm_ran)

lemma init_cdfs_ran:
  "ran env M U s t \<Longrightarrow> {CDFS} \<subseteq> may_load M U s \<Longrightarrow> M \<subseteq> U \<Longrightarrow>
     ran env M U s (snd (init_cdfs_driver env t))"
  by (auto simp: init_cdfs_driver_def loadIRXs_cdfs_def case_prod_unfold Let_def simp del: load_irxs.simps intro!: ran_rules)

lemma init_hdd_ran:
  "ran env M U s t \<Longrightarrow> {PS2ATAD, PS2HDD, PS2FS} \<subseteq> may_load M U s \<Longrightarrow> (b \<Longrightarrow> {IOMANX, FILEXIO, PS2DEV9, BDM, BDMFS_FATFS} \<subseteq> may_load M U s) \<Longrightarrow> M \<subseteq> U \<Longrightarrow>
     ran env M U s (snd (init_hdd_driver env b c t))"
  by (auto simp: init_hdd_driver_def loadIRXs_hdd_def hddCheck_def case_prod_unfold Let_def simp del: load_irxs.simps intro!: ran_rules init_fileXio_ran init_dev9_ran init_bdm_ran)

lemma init_joystick_ran:
  "ran env M U s t \<Longrightarrow> {MTAPMAN, PADMAN} \<subseteq> may_load M U s \<Longrightarrow> (b \<Longrightarrow> {SIO2MAN} \<subseteq> may_load M U s) \<Longrightarrow> M \<subseteq> U \<Longrightarrow>
     ran env M U s (snd (init_joystick_driver env b t))"
  by (auto simp: init_joystick_driver_def loadIRXs_joystick_def initLibraries_joystick_def case_prod_unfold Let_def simp del: load_irxs.simps intro!: ran_rules init_sio2man_ran)

lemma init_audio_ran:
  "ran env M U s t \<Longrightarrow> {LIBSD, AUDSRV} \<subseteq> may_load M U s \<Longrightarrow> M \<subseteq> U \<Longrightarrow>
     ran env M U s (snd (init_audio_driver env t))"
  by (auto simp: init_audio_driver_def loadIRXs_audio_def initLibraries_audio_def case_prod_unfold Let_def simp del: load_irxs.simps intro!: ran_rules)

lemma init_poweroff_ran:
  "ran env M U s t \<Longrightarrow> {POWEROFF} \<subseteq> may_load M U s \<Longrightarrow> M \<subseteq> U \<Longrightarrow>
     ran env M U s (snd (init_poweroff_driver env t))"
  by (auto simp: init_poweroff_driver_def loadIRXs_poweroff_def initLibraries_poweroff_def case_prod_unfold Let_def simp del: load_irxs.simps intro!: ran_rules)

lemma init_mouse_ran:
  "ran env M U s t \<Longrightarrow> {PS2MOUSE} \<subseteq> may_load M U s \<Longrightarrow> (b \<Longrightarrow> {USBD} \<subseteq> may_load M U s) \<Longrightarrow> M \<subseteq> U \<Longrightarrow>
     ran env M U s (snd (init_mouse_driver env b t))"
  by (auto simp: init_mouse_driver_def loadIRXs_mouse_def initLibraries_mouse_def case_prod_unfold Let_def simp del: load_irxs.simps intro!: ran_rules init_usbd_ran)

lemma init_keyboard_ran:
  "ran env M U s t \<Longrightarrow> {PS2KBD} \<subseteq> may_load M U s \<Longrightarrow> (b \<Longrightarrow> {USBD} \<subseteq> may_load M U s) \<Longrightarrow> M \<subseteq> U \<Longrightarrow>
     ran env M U s (snd (init_keyboard_driver env b t))"
  by (auto simp: init_keyboard_driver_def loadIRXs_keyboard_def initLibraries_keyboard_def case_prod_unfold Let_def simp del: load_irxs.simps intro!: ran_rules init_usbd_ran)

lemma init_camera_ran:
  "ran env M U s t \<Longrightarrow> {PS2CAM} \<subseteq> may_load M U s \<Longrightarrow> (b \<Longrightarrow> {USBD} \<subseteq> may_load M U s) \<Longrightarrow> M \<subseteq> U \<Longrightarrow>
     ran env M U s (snd (init_camera_driver env b t))"
  by (auto simp: init_camera_driver_def loadIRXs_camera_def initLibraries_camera_def case_prod_unfold Let_def simp del: load_irxs.simps intro!: ran_rules init_usbd_ran)

lemma init_eeip_ran:
  "ran env M U s t \<Longrightarrow> (b \<Longrightarrow> {PS2DEV9, NETMAN, SMAP} \<subseteq> may_load M U s) \<Longrightarrow> M \<subseteq> U \<Longrightarrow>
     ran env M U s (snd (init_eeip_driver env b t))"
  by (auto simp: init_eeip_driver_def case_prod_unfold Let_def simp del: load_irxs.simps intro!: ran_rules init_dev9_ran init_netman_ran init_smap_ran)

lemma init_iopip_ran:
  "ran env M U s t \<Longrightarrow> {PS2IP_NM, PS2IPS} \<subseteq> may_load M U s \<Longrightarrow> (b \<Longrightarrow> {PS2DEV9, NETMAN, SMAP} \<subseteq> may_load M U s) \<Longrightarrow> M \<subseteq> U \<Longrightarrow>
     ran env M U s (snd (init_iopip_driver env b t))"
  by (auto simp: init_iopip_driver_def loadIRXs_iopip_def initLibraries_iopip_def case_prod_unfold Let_def simp del: load_irxs.simps intro!: ran_rules init_dev9_ran init_netman_ran init_smap_ran)

lemmas init_ran = init_sio2man_ran init_fileXio_ran init_bdm_ran init_usbd_ran init_dev9_ran init_netman_ran init_smap_ran init_memcard_ran init_usb_ran init_mx4sio_ran init_cdfs_ran init_hdd_ran init_joystick_ran init_audio_ran init_poweroff_ran init_mouse_ran init_keyboard_ran init_camera_ran init_eeip_ran init_iopip_ran

text \<open>Only modules of the closure are executed, and only those that count as not loaded.\<close>

lemma init_requirement_ran:
  fixes s :: "'p drv" and r :: ps2_driver_requirement
  defines "M \<equiv> {m \<in> set (driver_closure r). CHECK_IRX_LOAD (slots s m)}"
  shows "ran env M M s (snd (init_requirement env r s))"
proof -
  have may: "m \<in> may_load M M s" if "m \<in> set (driver_closure r)" for m
    using that by (auto simp: may_load_def M_def)
  show ?thesis
    using may by (cases r) (auto simp: case_prod_unfold Let_def intro!: init_ran)
qed

lemma init_requirement_again:
  assumes "\<forall>m \<in> set (driver_closure r). \<not> CHECK_IRX_LOAD (slots s m)"
  shows "ran env {} {} s (snd (init_requirement env r s))"
proof -
  have "{m \<in> set (driver_closure r). CHECK_IRX_LOAD (slots s m)} = {}"
    using assms by auto
  with init_requirement_ran [where r = r and s = s and env = env] show ?thesis
    by simp
qed

end
