(* ===== verification/Hdd_Mount.thy ===== *)
theory Hdd_Mount
  imports Drivers
begin

text \<open>
  Mounting the partition the program was started from (src/ps2_hdd_driver.c): splitting the
  current directory at its colons (\<^verbatim>\<open>str_split\<close>), taking the mount point, the device and the new
  directory from the parts (\<^verbatim>\<open>getMountInfo\<close>), and mounting and unmounting.

  The C heap is a second state of type \<open>mount_world\<close>, with the strings that \<^verbatim>\<open>strdup\<close> makes and
  the array of pointers to them. A function that may end in a failing \<^verbatim>\<open>assert\<close> returns an option,
  None meaning that the program is aborted. Writing past the end of a buffer sets \<open>ub\<close>.
\<close>

datatype mount_block =
    Str string
  | Tokens "nat list"

type_synonym mount_world = "mount_block world"

subsection \<open>Splitting\<close>

text \<open>The loop that counts: how many delimiters, and where the last one is.\<close>

fun count_delims :: "char \<Rightarrow> string \<Rightarrow> nat \<Rightarrow> nat \<times> nat option \<Rightarrow> nat \<times> nat option" where
  "count_delims d [] pos acc = acc"
| "count_delims d (c # cs) pos (count, last_comma) =
     count_delims d cs (Suc pos) (if c = d then (Suc count, Some pos) else (count, last_comma))"

text \<open>\<^verbatim>\<open>last_comma < (a_str + strlen(a_str) - 1)\<close> holds for the null pointer.\<close>

definition element_count :: "char \<Rightarrow> string \<Rightarrow> nat" where
  "element_count d a_str =
     (let (count, last_comma) = count_delims d a_str 0 (0, None);
          trailing = (case last_comma of None \<Rightarrow> True | Some p \<Rightarrow> Suc p < length a_str)
      in Suc (count + (if trailing then 1 else 0)))"

text \<open>One call of \<^verbatim>\<open>strtok\<close>: the token and what is left.\<close>

definition strtok :: "char \<Rightarrow> string \<Rightarrow> (string \<times> string) option" where
  "strtok d rest =
     (let t = dropWhile (\<lambda>c. c = d) rest in
      if t = [] then None
      else Some (takeWhile (\<lambda>c. c \<noteq> d) t, drop 1 (dropWhile (\<lambda>c. c \<noteq> d) t)))"

lemma strtok_shorter:
  assumes "strtok d rest = Some (token, rest')"
  shows "length rest' < length rest"
proof -
  define t where "t = dropWhile (\<lambda>c. c = d) rest"
  have "t \<noteq> []" "rest' = drop 1 (dropWhile (\<lambda>c. c \<noteq> d) t)"
    using assms by (auto simp: strtok_def t_def Let_def split: if_splits)
  moreover have "length t \<le> length rest" "length (dropWhile (\<lambda>c. c \<noteq> d) t) \<le> length t"
    unfolding t_def by (rule length_dropWhile_le)+
  moreover have "0 < length t"
    using \<open>t \<noteq> []\<close> by simp
  ultimately show ?thesis
    by (simp only: length_drop)
qed

text \<open>The loop over the tokens; a failing \<^verbatim>\<open>strdup\<close> stores a null pointer.\<close>

function split_tokens ::
  "char \<Rightarrow> nat \<Rightarrow> string \<Rightarrow> nat list \<Rightarrow> mount_world \<Rightarrow> (nat list \<times> mount_world) option" where
  "split_tokens d count rest result w =
     (case strtok d rest of
        None \<Rightarrow> Some (result, w)
      | Some (token, rest') \<Rightarrow>
          if length result < count
          then let (copy, w1) = malloc (Str token) w in split_tokens d count rest' (result @ [copy]) w1
          else None)"
  by pat_completeness auto
termination
  by (relation "measure (\<lambda>(d, count, rest, result, w). length rest)") (auto dest: strtok_shorter)

declare split_tokens.simps [simp del]

definition str_split :: "string \<Rightarrow> char \<Rightarrow> mount_world \<Rightarrow> (nat \<times> mount_world) option" where
  "str_split a_str a_delim w =
     (let count = element_count a_delim a_str;
          (result, w1) = malloc (Tokens []) w
      in if result = 0 then Some (0, w1)
         else case split_tokens a_delim count a_str [] w1 of
                None \<Rightarrow> None
              | Some (tokens, w2) \<Rightarrow>
                  if length tokens = count - 1
                  then Some (result, store result (Tokens (tokens @ [0])) w2)
                  else None)"

subsection \<open>The parts of the path\<close>

definition string_at :: "mount_world \<Rightarrow> nat \<Rightarrow> string" where
  "string_at w a = (case heap w a of Some (Str s) \<Rightarrow> s | _ \<Rightarrow> '''')"

definition tokens_at :: "mount_world \<Rightarrow> nat \<Rightarrow> nat list" where
  "tokens_at w a = (case heap w a of Some (Tokens ts) \<Rightarrow> ts | _ \<Rightarrow> [])"

text \<open>\<^verbatim>\<open>sprintf\<close> into a buffer of the given size: the string and its end have to fit.\<close>

definition sprintf_into :: "nat \<Rightarrow> string \<Rightarrow> mount_world \<Rightarrow> mount_world" where
  "sprintf_into bufsize s w = (if length s < bufsize then w else w\<lparr>ub := True\<rparr>)"

text \<open>
  The strings for \<^verbatim>\<open>mountString\<close> (10 bytes), \<^verbatim>\<open>mountPoint\<close> (50 bytes) and \<^verbatim>\<open>newCWD\<close>, which is as
  large as the buffer the path is in. The array of tokens is not freed.
\<close>

definition getMountInfo ::
  "string \<Rightarrow> mount_world \<Rightarrow> ((string \<times> string \<times> string) option \<times> mount_world) option" where
  "getMountInfo path w =
     (case str_split path CHR '':'' w of
        None \<Rightarrow> None
      | Some (tokens, w1) \<Rightarrow>
          if tokens = 0 then Some (None, w1)
          else
          let items = takeWhile (\<lambda>a. a \<noteq> 0) (tokens_at w1 tokens);
              w2 = fold free (drop 4 items) w1
          in if length items < 3 then Some (None, w2)
             else
             let mountPoint = string_at w2 (items ! 0) @ '':'' @ string_at w2 (items ! 1);
                 mountString = string_at w2 (items ! 2) @ '':'';
                 newCWD = mountString @ (if length items > 3 then string_at w2 (items ! 3) else '''');
                 w3 = sprintf_into 10 mountString (sprintf_into 50 mountPoint w2);
                 w4 = fold free (take 4 items) w3
             in Some (Some (mountString, mountPoint, newCWD), w4))"

subsection \<open>Mounting and unmounting\<close>

definition mount_hdd_partition ::
  "'p drv_env \<Rightarrow> string \<Rightarrow> string \<Rightarrow> 'p drv \<Rightarrow> HDD_MOUNT_STATUS \<times> 'p drv" where
  "mount_hdd_partition env mountpoint blockdev s =
     (if hdd_init_status s \<noteq> HDD_INIT_STATUS_IRX_OK then (HDD_MOUNT_INIT_STATUS_NOT_READY, s)
      else
      let (r, s1) = lib env (FileXioMount mountpoint blockdev) s in
      if r < 0 then (HDD_MOUNT_STATUS_ERROR, s1) else (HDD_MOUNT_STATUS_OK, s1))"

text \<open>A \<^verbatim>\<open>chdir\<close> that succeeds changes the current directory.\<close>

definition chdir :: "'p drv_env \<Rightarrow> string \<Rightarrow> 'p drv \<Rightarrow> 'p drv" where
  "chdir env path s =
     (let (r, s1) = lib env (Chdir path) s in if r = 0 then s1\<lparr>cwd_path := path\<rparr> else s1)"

definition mount_current_hdd_partition ::
  "'p drv_env \<Rightarrow> mount_world \<Rightarrow> 'p drv \<Rightarrow> (HDD_MOUNT_STATUS \<times> mount_world \<times> 'p drv) option" where
  "mount_current_hdd_partition env w s =
     (if hdd_init_status s \<noteq> HDD_INIT_STATUS_IRX_OK then Some (HDD_MOUNT_INIT_STATUS_NOT_READY, w, s)
      else if \<not> cwd_is_hdd s then Some (HDD_MOUNT_STATUS_WRONG_CWD, w, s)
      else case getMountInfo (cwd_path s) w of
        None \<Rightarrow> None
      | Some (None, w1) \<Rightarrow> Some (HDD_MOUNT_STATUS_INFO_ERROR, w1, s)
      | Some (Some (mount_string, mountPoint, new_cwd), w1) \<Rightarrow>
          let (r, s1) = lib env (FileXioMount mount_string mountPoint) (s\<lparr>mountString := mount_string\<rparr>) in
          if r < 0 then Some (HDD_MOUNT_STATUS_ERROR, w1, s1)
          else Some (HDD_MOUNT_STATUS_OK, w1, (chdir env new_cwd s1)\<lparr>mount_status := HDD_MOUNT_STATUS_OK\<rparr>))"

definition umount_hdd_partition :: "'p drv_env \<Rightarrow> string \<Rightarrow> 'p drv \<Rightarrow> 'p drv" where
  "umount_hdd_partition env mountpoint s =
     (if mount_status s = HDD_MOUNT_STATUS_OK then
        let s1 = snd (lib env (FileXioUmount mountpoint) s);
            s2 = snd (lib env (FileXioDevctl mountpoint ''PDIOC_CLOSEALL'') s1);
            s3 = snd (lib env (FileXioDevctl ''hdd0:'' ''HDIOC_IDLEIMM'') s2)
        in s3\<lparr>mount_status := HDD_MOUNT_STATUS_UKNOWN, mountString := ''''\<rparr>
      else s)"

definition umount_current_hdd_partition :: "'p drv_env \<Rightarrow> 'p drv \<Rightarrow> 'p drv" where
  "umount_current_hdd_partition env s = umount_hdd_partition env (mountString s) s"

text \<open>An empty heap, with the outcomes of the allocations to come.\<close>

definition mount_start :: "bool list \<Rightarrow> mount_world" where
  "mount_start outcomes =
     \<lparr>files = Map.empty, cwd = None, faults = outcomes, heap = Map.empty, brk = 1, opened = 0, ub = False\<rparr>"

subsection \<open>Specification\<close>

text \<open>The tokens of a string: its maximal parts without the delimiter.\<close>

function tokens_of :: "char \<Rightarrow> string \<Rightarrow> string list" where
  "tokens_of d rest =
     (case strtok d rest of None \<Rightarrow> [] | Some (token, rest') \<Rightarrow> token # tokens_of d rest')"
  by pat_completeness auto
termination
  by (relation "measure (length \<circ> snd)") (auto dest: strtok_shorter)

declare tokens_of.simps [simp del]

text \<open>A part of a path: not empty, and without a colon.\<close>

definition part :: "string \<Rightarrow> bool" where
  "part t \<longleftrightarrow> t \<noteq> '''' \<and> CHR '':'' \<notin> set t"

subsection \<open>Tokens\<close>

lemma tokens_of_Nil [simp]: "tokens_of d [] = []"
  by (subst tokens_of.simps) (simp add: strtok_def)

lemma tokens_of_delim: "tokens_of d (d # cs) = tokens_of d cs"
  by (subst (1 2) tokens_of.simps) (simp add: strtok_def)

lemma strtok_last:
  assumes "t \<noteq> []" "d \<notin> set t"
  shows "strtok d t = Some (t, [])"
proof -
  have t: "takeWhile (\<lambda>c. c \<noteq> d) t = t" "dropWhile (\<lambda>c. c = d) t = t"
    using assms by (auto simp: takeWhile_eq_all_conv dropWhile_eq_self_iff)
  have "dropWhile (\<lambda>c. c \<noteq> d) t = []"
    using assms(2) by (auto simp: dropWhile_eq_Nil_conv)
  with assms(1) show ?thesis
    unfolding strtok_def t Let_def by (simp only: if_False drop_Nil simp_thms)
qed

lemma strtok_part:
  assumes "t \<noteq> []" "d \<notin> set t"
  shows "strtok d (t @ d # cs) = Some (t, cs)"
proof -
  have "takeWhile (\<lambda>c. c \<noteq> d) (t @ d # cs) = t" "dropWhile (\<lambda>c. c \<noteq> d) (t @ d # cs) = d # cs"
    using assms(2) by (subst takeWhile_append2 dropWhile_append2; auto)+
  moreover have "dropWhile (\<lambda>c. c = d) (t @ d # cs) = t @ d # cs"
    using assms by (cases t) auto
  ultimately show ?thesis
    using assms(1) by (simp add: strtok_def)
qed

lemma tokens_of_last: "t \<noteq> [] \<Longrightarrow> d \<notin> set t \<Longrightarrow> tokens_of d t = [t]"
  by (subst tokens_of.simps) (simp add: strtok_last)

lemma tokens_of_part: "t \<noteq> [] \<Longrightarrow> d \<notin> set t \<Longrightarrow> tokens_of d (t @ d # cs) = t # tokens_of d cs"
  by (subst tokens_of.simps) (simp add: strtok_part)

lemma count_delims_none:
  "d \<notin> set t \<Longrightarrow> count_delims d (t @ cs) pos (n, l) = count_delims d cs (pos + length t) (n, l)"
  by (induction t arbitrary: pos) auto

text \<open>
  For a path of three parts and whatever follows the third colon, the number of tokens is the
  one that was counted.
\<close>

definition mount_path :: "string \<Rightarrow> string \<Rightarrow> string \<Rightarrow> string \<Rightarrow> string" where
  "mount_path a b c d = a @ '':'' @ b @ '':'' @ c @ '':'' @ d"

lemma mount_path_tokens:
  assumes "part a" "part b" "part c"
  shows "tokens_of CHR '':'' (mount_path a b c d) = a # b # c # tokens_of CHR '':'' d"
  using assms by (simp add: part_def mount_path_def tokens_of_part)

lemma mount_path_count:
  assumes "part a" "part b" "part c" "CHR '':'' \<notin> set d"
  shows "element_count CHR '':'' (mount_path a b c d) = 4 + length (tokens_of CHR '':'' d)"
proof -
  have "count_delims CHR '':'' d pos (n, l) = (n, l)" for pos n l
    using count_delims_none [OF assms(4), of "[]"] by simp
  with assms show ?thesis
    by (cases "d = []")
      (auto simp: element_count_def mount_path_def part_def count_delims_none tokens_of_last Let_def)
qed

subsection \<open>Empty parts\<close>

text \<open>
  The number of empty parts in front of a delimiter, and the number of tokens; the flag says
  that a part may start here.
\<close>

fun empty_parts :: "char \<Rightarrow> bool \<Rightarrow> string \<Rightarrow> nat" where
  "empty_parts d before [] = 0"
| "empty_parts d before (c # cs) = (if c = d \<and> before then 1 else 0) + empty_parts d (c = d) cs"

fun token_starts :: "char \<Rightarrow> bool \<Rightarrow> string \<Rightarrow> nat" where
  "token_starts d before [] = 0"
| "token_starts d before (c # cs) = (if c \<noteq> d \<and> before then 1 else 0) + token_starts d (c = d) cs"

lemma empty_parts_pos:
  "0 < empty_parts d before cs \<longleftrightarrow> before \<and> (\<exists>rest. cs = d # rest) \<or> (\<exists>xs rest. cs = xs @ d # d # rest)"
  by (induction cs arbitrary: before) (auto simp: Cons_eq_append_conv)

lemma token_starts_inside: "token_starts d False cs = token_starts d True (drop 1 (dropWhile (\<lambda>c. c \<noteq> d) cs))"
  by (induction cs) auto

lemma length_tokens_of: "length (tokens_of d cs) = token_starts d True cs"
proof (induction cs rule: length_induct)
  case (1 cs)
  show ?case
  proof (cases cs)
    case Nil
    then show ?thesis by simp
  next
    case (Cons c cs')
    show ?thesis
    proof (cases "c = d")
      case True
      with 1 Cons show ?thesis
        by (simp add: tokens_of_delim)
    next
      case False
      then have p: "strtok d cs = Some (takeWhile (\<lambda>c. c \<noteq> d) cs, drop 1 (dropWhile (\<lambda>c. c \<noteq> d) cs))"
        using Cons by (simp add: strtok_def)
      have "length (tokens_of d cs) = Suc (length (tokens_of d (drop 1 (dropWhile (\<lambda>c. c \<noteq> d) cs))))"
        by (subst tokens_of.simps) (simp add: p)
      with 1 strtok_shorter [OF p] False Cons show ?thesis
        by (simp add: token_starts_inside)
    qed
  qed
qed

text \<open>What the counting loop finds.\<close>

lemma fst_count_delims: "fst (count_delims d cs pos (n, l)) = n + length (filter (\<lambda>c. c = d) cs)"
  by (induction cs arbitrary: pos n l) auto

lemma snd_count_delims:
  "\<forall>p. l = Some p \<longrightarrow> p < pos \<Longrightarrow> cs \<noteq> [] \<Longrightarrow>
    (\<forall>p. snd (count_delims d cs pos (n, l)) = Some p \<longrightarrow> Suc p < pos + length cs) \<longleftrightarrow> last cs \<noteq> d"
proof (induction cs arbitrary: pos n l)
  case Nil
  then show ?case by simp
next
  case (Cons c cs)
  show ?case
  proof (cases "cs = []")
    case True
    with Cons.prems(1) show ?thesis by auto
  next
    case False
    have "\<forall>p. (if c = d then Some pos else l) = Some p \<longrightarrow> p < Suc pos"
      using Cons.prems(1) by (auto simp: less_SucI)
    from Cons.IH [OF this False] False show ?thesis
      by (cases "c = d") simp_all
  qed
qed

lemma element_count_alt:
  assumes "cs \<noteq> []"
  shows "element_count d cs = Suc (length (filter (\<lambda>c. c = d) cs) + (if last cs \<noteq> d then 1 else 0))"
proof -
  have "(case snd (count_delims d cs 0 (0, None)) of None \<Rightarrow> True | Some p \<Rightarrow> Suc p < length cs) \<longleftrightarrow> last cs \<noteq> d"
    using snd_count_delims [of None 0 cs d 0] assms by (auto split: option.splits)
  then show ?thesis
    by (simp add: element_count_def case_prod_unfold fst_count_delims)
qed

lemma token_starts_count:
  "token_starts d before cs + empty_parts d before cs + (if before then 0 else 1) =
     length (filter (\<lambda>c. c = d) cs) + (if cs = [] then (if before then 0 else 1) else if last cs \<noteq> d then 1 else 0)"
proof (induction cs arbitrary: before)
  case Nil
  then show ?case by simp
next
  case (Cons c cs)
  from Cons.IH [of True] Cons.IH [of False] show ?case
    by (cases "cs = []") auto
qed

text \<open>The count is right for a path that does not start with a delimiter unless two follow each other.\<close>

lemma element_count_tokens:
  assumes "cs \<noteq> []" "hd cs \<noteq> d"
  shows "length (tokens_of d cs) \<noteq> element_count d cs - 1 \<longleftrightarrow> (\<exists>xs rest. cs = xs @ d # d # rest)"
proof -
  have "length (tokens_of d cs) + empty_parts d True cs = element_count d cs - 1"
    using token_starts_count [of d True cs] assms(1) by (simp add: length_tokens_of element_count_alt)
  moreover have "0 < empty_parts d True cs \<longleftrightarrow> (\<exists>xs rest. cs = xs @ d # d # rest)"
    using assms by (auto simp: empty_parts_pos)
  ultimately show ?thesis
    by (metis add_cancel_left_right neq0_conv)
qed

subsection \<open>The loop over the tokens\<close>

text \<open>The copies are new blocks, or null pointers where memory ran out.\<close>

definition copies :: "mount_world \<Rightarrow> mount_world \<Rightarrow> nat list \<Rightarrow> string list \<Rightarrow> bool" where
  "copies w w' new ts \<longleftrightarrow>
     list_all2 (\<lambda>a t. a = 0 \<or> brk w \<le> a \<and> heap w' a = Some (Str t)) new ts \<and>
     distinct (filter (\<lambda>a. a \<noteq> 0) new) \<and>
     (\<forall>a. a \<notin> set new \<or> a = 0 \<longrightarrow> heap w' a = heap w a) \<and>
     (all_succeed w \<longrightarrow> 0 \<notin> set new)"

lemma split_tokens_result:
  "split_tokens d count rest result w = Some (res, w') \<Longrightarrow> heap_wf w \<Longrightarrow>
     \<exists>new. res = result @ new \<and> evolves w w' \<and> heap_wf w' \<and> copies w w' new (tokens_of d rest)"
proof (induction d count rest result w rule: split_tokens.induct)
  case (1 d count rest result w)
  show ?case
  proof (cases "strtok d rest")
    case None
    then show ?thesis
      using 1(2,3) by (simp add: split_tokens.simps [of d count] tokens_of.simps [of d] copies_def)
  next
    case (Some p)
    obtain token rest' where p: "strtok d rest = Some (token, rest')"
      using Some by (cases p) auto
    obtain copy w1 where m: "malloc (Str token) w = (copy, w1)" by fastforce
    have less: "length result < count" and run: "split_tokens d count rest' (result @ [copy]) w1 = Some (res, w')"
      using 1(2) p m by (auto simp: split_tokens.simps [of d count rest] split: if_splits)
    have wf1: "heap_wf w1"
      by (rule malloc_heap_wf [OF m 1(3)])
    from 1(1) [OF p refl less m [symmetric] refl run wf1] obtain new where
      new: "res = (result @ [copy]) @ new" "evolves w1 w'" "heap_wf w'" "copies w1 w' new (tokens_of d rest')"
      by auto
    have tk: "tokens_of d rest = token # tokens_of d rest'"
      by (subst tokens_of.simps) (simp add: p)
    from m 1(3) show ?thesis
    proof (cases rule: malloc_cases)
      case fail
      with new have "copies w w' (copy # new) (tokens_of d rest)"
        by (auto simp: copies_def tk evolves_fields)
      moreover have "evolves w w'"
        using fail(2) new(2) by (rule evolves_trans)
      ultimately show ?thesis
        using new by (intro exI [of _ "copy # new"]) simp
    next
      case ok
      have far: "\<forall>a \<in> set new. a = 0 \<or> Suc (brk w) \<le> a"
        using new(4) ok(5) by (fastforce simp: copies_def list_all2_conv_all_nth in_set_conv_nth)
      then have "copy \<notin> set new"
        using ok(1,2) by auto
      moreover have "list_all2 (\<lambda>a t. a = 0 \<or> brk w \<le> a \<and> heap w' a = Some (Str t)) new (tokens_of d rest')"
        using new(4) ok(5) by (auto simp: copies_def elim!: list_all2_mono)
      ultimately have "copies w w' (copy # new) (tokens_of d rest)"
        using new(4) ok by (auto simp: copies_def tk evolves_fields)
      moreover have "evolves w w'"
        using ok(3) new(2) by (rule evolves_trans)
      ultimately show ?thesis
        using new by (intro exI [of _ "copy # new"]) simp
    qed
  qed
qed

text \<open>The loop never runs into its own assertion when the count is large enough.\<close>

lemma split_tokens_returns:
  "length result + length (tokens_of d rest) \<le> count \<Longrightarrow> split_tokens d count rest result w \<noteq> None"
proof (induction d count rest result w rule: split_tokens.induct)
  case (1 d count rest result w)
  show ?case
  proof (cases "strtok d rest")
    case None
    then show ?thesis
      by (simp add: split_tokens.simps [of d count])
  next
    case (Some p)
    obtain token rest' where p: "strtok d rest = Some (token, rest')"
      using Some by (cases p) auto
    obtain copy w1 where m: "malloc (Str token) w = (copy, w1)" by fastforce
    have tk: "tokens_of d rest = token # tokens_of d rest'"
      by (subst tokens_of.simps) (simp add: p)
    then have less: "length result < count" "length (result @ [copy]) + length (tokens_of d rest') \<le> count"
      using 1(2) by simp_all
    from 1(1) [OF p refl less(1) m [symmetric] refl less(2)] less(1) p m show ?thesis
      by (simp add: split_tokens.simps [of d count rest])
  qed
qed

subsection \<open>Splitting and the parts\<close>

lemma str_split_result:
  assumes run: "str_split path d w = Some (r, w')" and wf: "heap_wf w"
  shows "evolves w w' \<and> heap_wf w' \<and>
    (if r = 0 then heap w' = heap w \<and> \<not> all_succeed w
     else r = brk w \<and> (\<exists>new. heap w' r = Some (Tokens (new @ [0])) \<and>
       list_all2 (\<lambda>a t. a = 0 \<or> r < a \<and> heap w' a = Some (Str t)) new (tokens_of d path) \<and>
       distinct (filter (\<lambda>a. a \<noteq> 0) new) \<and>
       (\<forall>a. a \<noteq> r \<and> (a \<notin> set new \<or> a = 0) \<longrightarrow> heap w' a = heap w a) \<and>
       (all_succeed w \<longrightarrow> 0 \<notin> set new)))"
proof -
  obtain r1 w1 where m: "malloc (Tokens []) w = (r1, w1)" by fastforce
  have wf1: "heap_wf w1"
    by (rule malloc_heap_wf [OF m wf])
  from m wf show ?thesis
  proof (cases rule: malloc_cases)
    case fail
    with run m wf1 show ?thesis
      by (auto simp: str_split_def Let_def)
  next
    case ok
    then obtain new w2 where split: "split_tokens d (element_count d path) path [] w1 = Some (new, w2)"
        and r: "r = r1" "w' = store r1 (Tokens (new @ [0])) w2"
      using run m by (auto simp: str_split_def Let_def split: option.splits if_splits)
    then have c: "evolves w1 w2" "heap_wf w2" "copies w1 w2 new (tokens_of d path)"
      using split_tokens_result [OF split wf1] by auto
    have r1: "r1 \<notin> set new"
      using c(3) ok by (fastforce simp: copies_def list_all2_conv_all_nth in_set_conv_nth)
    then have "heap w2 r1 = Some (Tokens [])"
      using c(3) ok by (simp add: copies_def)
    note st = store_live [OF this c(2), of "Tokens (new @ [0])"]
    have "list_all2 (\<lambda>a t. a = 0 \<or> r1 < a \<and> heap w' a = Some (Str t)) new (tokens_of d path)"
      using c(3) ok r st by (auto simp: copies_def elim!: list_all2_mono)
    moreover have "evolves w w'"
      using ok(3) c(1) st r by (blast intro: evolves_trans)
    ultimately show ?thesis
      using c(3) ok r st by (auto simp: copies_def evolves_fields)
  qed
qed

lemma list_all2_takeWhile_zero:
  "list_all2 P new ts \<Longrightarrow> list_all2 (\<lambda>a t. a \<noteq> (0::nat) \<and> P a t) (takeWhile (\<lambda>a. a \<noteq> 0) new)
     (take (length (takeWhile (\<lambda>a. a \<noteq> 0) new)) ts)"
  by (induction rule: list_all2_induct) auto

text \<open>
  What \<open>getMountInfo\<close> computes and leaves behind, whatever calls of \<^verbatim>\<open>malloc\<close> fail: on success the
  parts of the path, and an overflow exactly when a part is too long.
\<close>

lemma getMountInfo_result:
  assumes run: "getMountInfo path w = Some (Some (ms, mp, dir), w')" and wf: "heap_wf w"
  obtains a b c rest where "tokens_of CHR '':'' path = a # b # c # rest"
      "mp = a @ '':'' @ b" "ms = c @ '':''"
      "all_succeed w \<Longrightarrow> dir = ms @ (case rest of [] \<Rightarrow> [] | d # _ \<Rightarrow> d)"
      "ub w' \<longleftrightarrow> ub w \<or> 50 \<le> length mp \<or> 10 \<le> length ms"
      "heap_wf w'"
      "all_succeed w \<Longrightarrow> dom (heap w') = insert (brk w) (dom (heap w)) \<and> brk w \<notin> dom (heap w)"
proof -
  obtain r w1 where sp: "str_split path CHR '':'' w = Some (r, w1)" and r0: "r \<noteq> 0"
    using run by (auto simp: getMountInfo_def split: option.splits if_splits)
  from str_split_result [OF sp wf] r0 obtain new where
    w1: "evolves w w1" "heap_wf w1" "r = brk w" "heap w1 r = Some (Tokens (new @ [0]))"
      "list_all2 (\<lambda>a t. a = 0 \<or> r < a \<and> heap w1 a = Some (Str t)) new (tokens_of CHR '':'' path)"
      "distinct (filter (\<lambda>a. a \<noteq> 0) new)"
      "\<forall>a. a \<noteq> r \<and> (a \<notin> set new \<or> a = 0) \<longrightarrow> heap w1 a = heap w a"
      "all_succeed w \<longrightarrow> 0 \<notin> set new"
    by auto
  define items where "items = takeWhile (\<lambda>a. a \<noteq> 0) new"
  let ?ts = "tokens_of CHR '':'' path"
  have tk: "takeWhile (\<lambda>a. a \<noteq> 0) (tokens_at w1 r) = items"
    using w1(4) by (simp add: tokens_at_def items_def takeWhile_tail)
  have ts: "list_all2 (\<lambda>a t. a \<noteq> 0 \<and> r < a \<and> heap w1 a = Some (Str t)) items (take (length items) ?ts)"
    unfolding items_def by (rule list_all2_mono [OF list_all2_takeWhile_zero [OF w1(5)]]) auto
  have live: "\<forall>a \<in> set items. a \<noteq> 0 \<and> r < a \<and> heap w1 a \<noteq> None"
    using ts by (auto simp: list_all2_conv_all_nth in_set_conv_nth)
  have "distinct items"
    using w1(6) unfolding items_def
    by (induction new) (auto dest: set_takeWhileD)
  then have dis: "distinct (drop 4 items)" "distinct (take 4 items)" "set (take 4 items) \<inter> set (drop 4 items) = {}"
    by (simp_all add: set_take_disj_set_drop_if_distinct)
  define w2 where "w2 = fold free (drop 4 items) w1"
  have w2: "evolves w1 w2" "heap_wf w2" "brk w2 = brk w1"
      "heap w2 = (\<lambda>a. if a \<in> set (drop 4 items) then None else heap w1 a)"
    using fold_free_live [OF w1(2), of "drop 4 items"] live dis(1) in_set_dropD [of _ 4 items]
    unfolding w2_def by auto
  have three: "3 \<le> length items"
      and mp: "mp = string_at w2 (items ! 0) @ [CHR '':''] @ string_at w2 (items ! 1)"
      and ms: "ms = string_at w2 (items ! 2) @ [CHR '':'']"
      and dir: "dir = ms @ (if length items > 3 then string_at w2 (items ! 3) else [])"
      and w': "w' = fold free (take 4 items) (sprintf_into 10 ms (sprintf_into 50 mp w2))"
    using run sp r0 tk by (auto simp: getMountInfo_def w2_def Let_def split: if_splits)
  have len: "length items \<le> length ?ts"
    using list_all2_lengthD [OF ts] by simp
  have str: "string_at w2 (items ! i) = ?ts ! i" if "i < 4" "i < length items" for i
  proof -
    have "items ! i \<notin> set (drop 4 items)"
      using that \<open>distinct items\<close> by (auto simp: in_set_conv_nth nth_eq_iff_index_eq)
    moreover have "heap w1 (items ! i) = Some (Str (?ts ! i))"
      using ts that by (auto simp: list_all2_conv_all_nth)
    ultimately show ?thesis
      by (simp add: string_at_def w2(4))
  qed
  have "0 < length items" "1 < length items" "2 < length items"
    using three by linarith+
  note first = str [OF _ this(1)] str [OF _ this(2)] str [OF _ this(3)]
  obtain a b c rest where abc: "?ts = a # b # c # rest"
    using three len by (cases ?ts; cases "tl ?ts"; cases "tl (tl ?ts)") auto
  define w3 where "w3 = sprintf_into 10 ms (sprintf_into 50 mp w2)"
  have w3: "heap w3 = heap w2" "heap_wf w3" "ub w3 \<longleftrightarrow> ub w2 \<or> 50 \<le> length mp \<or> 10 \<le> length ms"
    using w2(2) by (auto simp: w3_def sprintf_into_def heap_wf_def)
  have w4: "evolves w3 w'" "heap_wf w'"
      "heap w' = (\<lambda>a. if a \<in> set (take 4 items) then None else heap w3 a)"
  proof -
    have "\<forall>a \<in> set (take 4 items). a \<noteq> 0 \<longrightarrow> heap w3 a \<noteq> None"
      using live dis(3) in_set_takeD [of _ 4 items] unfolding w3(1) w2(4) by fastforce
    with fold_free_live [OF w3(2), of "take 4 items"] dis(2)
    show "evolves w3 w'" "heap_wf w'"
      "heap w' = (\<lambda>a. if a \<in> set (take 4 items) then None else heap w3 a)"
      unfolding w' w3_def [symmetric] by auto
  qed
  show thesis
  proof (rule that [OF abc])
    show "mp = a @ '':'' @ b" "ms = c @ '':''"
      using mp ms first abc by (simp_all add: numeral_2_eq_2)
    show "ub w' \<longleftrightarrow> ub w \<or> 50 \<le> length mp \<or> 10 \<le> length ms"
      using w3(3) evolves_fields(2) [OF w4(1)] evolves_fields(2) [OF w2(1)] evolves_fields(2) [OF w1(1)]
      by simp
    show "heap_wf w'"
      by (rule w4(2))
    assume ok: "all_succeed w"
    with w1(8) have it: "items = new"
      by (auto simp: items_def takeWhile_eq_all_conv intro!: gr0I)
    then have "length items = length ?ts"
      using list_all2_lengthD [OF w1(5)] by simp
    with dir str [of 3] abc show "dir = ms @ (case rest of [] \<Rightarrow> [] | d # _ \<Rightarrow> d)"
      by (auto simp: numeral_3_eq_3 split: list.splits)
    have "heap w' a = (if a = r then heap w1 r else heap w a)" for a
    proof (cases "a \<in> set items")
      case True
      then have "r < a" "a \<in> set (take 4 items) \<union> set (drop 4 items)"
        using live by (auto simp flip: set_append)
      then show ?thesis
        using heap_wf_fresh [OF wf, of a] w1(3) by (auto simp: w4(3) w3(1) w2(4))
    next
      case False
      then show ?thesis
        using w1(7) it in_set_takeD [of a 4 items] in_set_dropD [of a 4 items]
        by (auto simp: w4(3) w3(1) w2(4))
    qed
    then show "dom (heap w') = insert (brk w) (dom (heap w)) \<and> brk w \<notin> dom (heap w)"
      using w1(3,4) heap_wf_fresh [OF wf] by (auto split: if_splits)
  qed
qed

text \<open>
  The program is aborted exactly when the array could be allocated and the number of tokens is
  not the one that was counted, which happens when a part of the path is empty.
\<close>

lemma getMountInfo_aborts:
  assumes "heap_wf w"
  shows "getMountInfo path w = None \<longleftrightarrow> fst (malloc (Tokens []) w) \<noteq> 0 \<and>
    length (tokens_of CHR '':'' path) \<noteq> element_count CHR '':'' path - 1"
proof -
  obtain r w1 where m: "malloc (Tokens []) w = (r, w1)" by fastforce
  have wf1: "heap_wf w1"
    by (rule malloc_heap_wf [OF m assms])
  have none: "getMountInfo path w = None \<longleftrightarrow> str_split path CHR '':'' w = None"
    by (auto simp: getMountInfo_def Let_def split: option.splits)
  show ?thesis
  proof (cases "split_tokens CHR '':'' (element_count CHR '':'' path) path [] w1")
    case None
    then have "\<not> length (tokens_of CHR '':'' path) \<le> element_count CHR '':'' path"
      using split_tokens_returns [of "[]" "CHR '':''" path "element_count CHR '':'' path" w1] by auto
    with None m show ?thesis
      unfolding none by (auto simp: str_split_def Let_def)
  next
    case (Some p)
    then obtain new w2 where p: "split_tokens CHR '':'' (element_count CHR '':'' path) path [] w1 = Some (new, w2)"
      by (cases p) auto
    then have "length new = length (tokens_of CHR '':'' path)"
      using split_tokens_result [OF p wf1] by (auto simp: copies_def dest: list_all2_lengthD)
    with p m show ?thesis
      unfolding none by (auto simp: str_split_def Let_def)
  qed
qed

lemma malloc_succeeds: "heap_wf w \<Longrightarrow> all_succeed w \<Longrightarrow> fst (malloc v w) \<noteq> 0"
  using malloc_cases [of v w "fst (malloc v w)" "snd (malloc v w)"] by fastforce

lemma getMountInfo_too_short:
  assumes run: "getMountInfo path w = Some (None, w')" and wf: "heap_wf w" and ok: "all_succeed w"
  shows "length (tokens_of CHR '':'' path) < 3"
proof -
  obtain r w1 where sp: "str_split path CHR '':'' w = Some (r, w1)"
    using run by (auto simp: getMountInfo_def split: option.splits)
  from str_split_result [OF sp wf] ok obtain new where
    w1: "r \<noteq> 0" "heap w1 r = Some (Tokens (new @ [0]))" "0 \<notin> set new"
      "length new = length (tokens_of CHR '':'' path)"
    by (auto split: if_splits dest: list_all2_lengthD)
  then have "takeWhile (\<lambda>a. a \<noteq> 0) (tokens_at w1 r) = new"
    by (auto simp: tokens_at_def takeWhile_tail takeWhile_eq_all_conv intro!: gr0I)
  with run sp w1 show ?thesis
    by (auto simp: getMountInfo_def Let_def split: if_splits)
qed

text \<open>
  A path of the form the code expects: with memory enough, the program goes on and the parts
  are those of the path.
\<close>

lemma getMountInfo_mount_path:
  assumes "part a" "part b" "part c" "CHR '':'' \<notin> set d" and "heap_wf w" "all_succeed w"
  obtains w' where "getMountInfo (mount_path a b c d) w =
      Some (Some (c @ '':'', a @ '':'' @ b, c @ '':'' @ d), w')"
    "ub w' \<longleftrightarrow> ub w \<or> 50 \<le> length (a @ '':'' @ b) \<or> 10 \<le> length (c @ '':'')"
    "heap_wf w'" "dom (heap w') = insert (brk w) (dom (heap w))" "brk w \<notin> dom (heap w)"
proof -
  have ts: "tokens_of CHR '':'' (mount_path a b c d) = a # b # c # (if d = [] then [] else [d])"
    using assms(4) by (simp add: mount_path_tokens [OF assms(1-3)] tokens_of_last)
  then have "getMountInfo (mount_path a b c d) w \<noteq> None"
    using getMountInfo_aborts [OF assms(5)] mount_path_count [OF assms(1-4)] assms(4)
    by (simp add: tokens_of_last)
  then obtain info w' where run: "getMountInfo (mount_path a b c d) w = Some (info, w')"
    by auto
  have "info \<noteq> None"
    using getMountInfo_too_short [OF _ assms(5,6), of "mount_path a b c d" w'] run ts by (intro notI) simp
  then obtain ms mp dir where "info = Some (ms, mp, dir)"
    by (metis option.exhaust surj_pair)
  with run have run: "getMountInfo (mount_path a b c d) w = Some (Some (ms, mp, dir), w')"
    by simp
  show thesis
    by (rule getMountInfo_result [OF run assms(5)])
      (rule that [of w'], use ts run assms(6) in \<open>auto split: if_splits\<close>)
qed

lemma mount_start_wf: "heap_wf (mount_start outcomes)"
  by (simp add: mount_start_def heap_wf_def)

lemma mount_start_succeeds: "all_succeed (mount_start [])"
  by (simp add: mount_start_def all_succeed_def)

lemma mount_start_fields [simp]:
  "heap (mount_start outcomes) = Map.empty" "brk (mount_start outcomes) = 1" "\<not> ub (mount_start outcomes)"
  by (simp_all add: mount_start_def)

text \<open>Without memory for the array the program goes on.\<close>

lemma mount_without_memory: "mount_current_hdd_partition env (mount_start [False]) s \<noteq> None"
proof -
  have "getMountInfo path (mount_start [False]) = Some (None, mount_start [])" for path
    by (simp add: getMountInfo_def str_split_def malloc_def next_call_def mount_start_def)
  then show ?thesis
    by (simp add: mount_current_hdd_partition_def)
qed

end
