(* ===== verification/Image_Tool.thy ===== *)
theory Image_Tool
  imports Hdd_Mount
begin

text \<open>
  The host tool that builds and checks image files (tools/ps2_irximg.c): reading the manifest,
  packing the modules it names into an image, and validating an image against a manifest.

  The files are those of \<open>Libc_World\<close>, extended with writing; the heap holds the contents of
  the files that were read. A result of None, or the exit status 1, is the error exit the code
  takes after printing a message. Messages and the command line are left out. \<^verbatim>\<open>unsigned long\<close>
  has 64 bits.
\<close>

type_synonym tool_world = "u8 list world"

definition IRXIMG_MAX_FIELD :: nat where "IRXIMG_MAX_FIELD = 128"
definition IRXIMG_PATH_MAX :: nat where "IRXIMG_PATH_MAX = 1024"

record manifest_entry =
  me_id :: u32
  me_filename :: string
  me_symbol :: string
  me_name :: string

record manifest =
  m_entries :: "manifest_entry list"
  m_crc32 :: u32

record payload_file =
  p_data :: nat
  p_size :: u32
  p_crc32 :: u32
  p_offset :: u32

definition align_up_u32 :: "u32 \<Rightarrow> u32 \<Rightarrow> u32" where
  "align_up_u32 value alignment = (value + alignment - 1) AND NOT (alignment - 1)"

subsection \<open>The manifest\<close>

definition is_space :: "char \<Rightarrow> bool" where
  "is_space c \<longleftrightarrow> c \<in> {CHR '' '', CHR 0x09, CHR 0x0A, CHR 0x0B, CHR 0x0C, CHR 0x0D}"

definition is_digit :: "char \<Rightarrow> bool" where
  "is_digit c \<longleftrightarrow> 48 \<le> (of_char c :: nat) \<and> (of_char c :: nat) \<le> 57"

definition digits_value :: "string \<Rightarrow> nat" where
  "digits_value ds = foldl (\<lambda>n c. 10 * n + (of_char c - 48)) 0 ds"

text \<open>
  \<^verbatim>\<open>strtoul\<close> in base 10 accepts blanks and a sign in front of the digits, and negates modulo the
  size of \<^verbatim>\<open>unsigned long\<close>; too large a number sets \<^verbatim>\<open>errno\<close>.
\<close>

definition parse_u32 :: "string \<Rightarrow> u32 option" where
  "parse_u32 text =
     (let t = dropWhile is_space text;
          negative = (t \<noteq> [] \<and> hd t = CHR ''-'');
          t1 = (if t \<noteq> [] \<and> hd t \<in> {CHR ''+'', CHR ''-''} then tl t else t);
          ds = takeWhile is_digit t1;
          end_rest = dropWhile is_digit t1;
          n = digits_value ds;
          parsed = (if negative then (2 ^ 64 - n) mod 2 ^ 64 else n)
      in if ds = [] \<or> n \<ge> 2 ^ 64 \<or> end_rest \<noteq> [] \<or> parsed > 4294967295 then None
         else Some (of_nat parsed))"

definition trim_line :: "string \<Rightarrow> string" where
  "trim_line line =
     (let start = dropWhile (\<lambda>c. c = CHR '' '' \<or> c = CHR 0x09) line
      in rev (dropWhile (\<lambda>c. c \<in> {CHR 0x0A, CHR 0x0D, CHR '' '', CHR 0x09}) (rev start)))"

definition copy_field :: "nat \<Rightarrow> string \<Rightarrow> string option" where
  "copy_field dst_size src = (if length src = 0 \<or> length src \<ge> dst_size then None else Some src)"

text \<open>A string with its zero byte.\<close>

definition c_bytes :: "string \<Rightarrow> u8 list" where
  "c_bytes s = map of_char s @ [0]"

definition manifest_logical_crc :: "manifest_entry list \<Rightarrow> u32" where
  "manifest_logical_crc entries =
     foldl (\<lambda>crc e.
        crc32_update (crc32_update (crc32_update (crc32_update crc (write_u32_le (me_id e)))
          (c_bytes (me_filename e))) (c_bytes (me_symbol e))) (c_bytes (me_name e)))
       0 entries"

text \<open>The loop over the tokens of a line: at most four fields, and the token after them.\<close>

fun take_fields :: "nat \<Rightarrow> string \<Rightarrow> string list \<times> string option" where
  "take_fields 0 rest = ([], map_option fst (strtok CHR ''|'' rest))"
| "take_fields (Suc n) rest =
     (case strtok CHR ''|'' rest of
        None \<Rightarrow> ([], None)
      | Some (token, rest') \<Rightarrow> let (fields, next_token) = take_fields n rest' in (token # fields, next_token))"

text \<open>One line: None is an error, \<open>Some None\<close> a line to skip.\<close>

definition manifest_line :: "manifest_entry list \<Rightarrow> string \<Rightarrow> manifest_entry option option" where
  "manifest_line entries line =
     (let cursor = trim_line line in
      if cursor = [] \<or> hd cursor = CHR ''#'' then Some None
      else
      let (fields, token) = take_fields 4 cursor in
      if length fields \<noteq> 4 \<or> token \<noteq> None then None
      else if length entries \<ge> IRXIMG_MAX_ENTRIES then None
      else
      case parse_u32 (fields ! 0) of
        None \<Rightarrow> None
      | Some n \<Rightarrow>
          if n = 0 then None
          else if list_ex (\<lambda>e. me_id e = n) entries then None
          else
          case copy_field IRXIMG_MAX_FIELD (fields ! 1) of
            None \<Rightarrow> None
          | Some filename \<Rightarrow>
              case copy_field IRXIMG_MAX_FIELD (fields ! 2) of
                None \<Rightarrow> None
              | Some symbol \<Rightarrow>
                  case copy_field IRXIMG_MAX_FIELD (fields ! 3) of
                    None \<Rightarrow> None
                  | Some nam \<Rightarrow>
                      Some (Some \<lparr>me_id = n, me_filename = filename, me_symbol = symbol, me_name = nam\<rparr>))"

text \<open>
  What \<^verbatim>\<open>fgets\<close> puts into a buffer of 512 bytes: at most 511, up to and with the first newline.
\<close>

definition fgets_bytes :: "u8 list \<Rightarrow> u8 list" where
  "fgets_bytes bytes =
     (let n = length (takeWhile (\<lambda>b. b \<noteq> 10) bytes) in take (min 511 (Suc n)) bytes)"

definition c_string :: "u8 list \<Rightarrow> string" where
  "c_string bytes = map (\<lambda>b. char_of (unat b)) (takeWhile (\<lambda>b. b \<noteq> 0) bytes)"

text \<open>The loop over the lines; a failing read ends it, and \<^verbatim>\<open>ferror\<close> reports it.\<close>

function manifest_lines ::
  "u8 list \<Rightarrow> manifest_entry list \<Rightarrow> tool_world \<Rightarrow> manifest_entry list option \<times> tool_world" where
  "manifest_lines bytes entries w =
     (let (ok, w1) = next_call w in
      if \<not> ok then (None, w1)
      else if bytes = [] then (Some entries, w1)
      else
      let line = fgets_bytes bytes in
      case manifest_line entries (c_string line) of
        None \<Rightarrow> (None, w1)
      | Some None \<Rightarrow> manifest_lines (drop (length line) bytes) entries w1
      | Some (Some e) \<Rightarrow> manifest_lines (drop (length line) bytes) (entries @ [e]) w1)"
  by pat_completeness auto
termination
  by (relation "measure (\<lambda>(bytes, entries, w). length bytes)") (auto simp: fgets_bytes_def Let_def)

declare manifest_lines.simps [simp del]

definition load_manifest :: "string \<Rightarrow> tool_world \<Rightarrow> manifest option \<times> tool_world" where
  "load_manifest path w =
     (case fopen path w of
        (None, w1) \<Rightarrow> (None, w1)
      | (Some file, w1) \<Rightarrow>
          (case manifest_lines (f_data file) [] w1 of
             (None, w2) \<Rightarrow> (None, fclose w2)
           | (Some entries, w2) \<Rightarrow>
               let w3 = fclose w2 in
               if length entries = 0 then (None, w3)
               else (Some \<lparr>m_entries = entries, m_crc32 = manifest_logical_crc entries\<rparr>, w3)))"

subsection \<open>Files\<close>

definition read_file :: "string \<Rightarrow> tool_world \<Rightarrow> (nat \<times> u32) option \<times> tool_world" where
  "read_file path w =
     (case fopen path w of
        (None, w1) \<Rightarrow> (None, w1)
      | (Some file, w1) \<Rightarrow>
          let (ok, f2, w2) = fseek_end file w1 in
          if \<not> ok then (None, fclose w2)
          else
          let (size_long, w3) = ftell f2 w2 in
          if size_long \<le> 0 \<or> size_long > 4294967295 then (None, fclose w3)
          else
          let (ok, f4, w4) = fseek_set 0 f2 w3 in
          if \<not> ok then (None, fclose w4)
          else
          let (data, w5) = malloc [] w4 in
          if data = 0 then (None, fclose w5)
          else
          let ((items, bytes), f6, w6) = fread 1 (nat size_long) f4 w5 in
          if items \<noteq> nat size_long then (None, fclose (free data w6))
          else (Some (data, of_int size_long), fclose (store data bytes w6)))"

text \<open>The output file: created empty, and every \<^verbatim>\<open>fwrite\<close> that succeeds appends to it.\<close>

definition create_file :: "string \<Rightarrow> tool_world \<Rightarrow> bool \<times> tool_world" where
  "create_file path w =
     (let (ok, w1) = next_call w in
      if ok then (True, w1\<lparr>files := (files w1)(path \<mapsto> []), opened := Suc (opened w1)\<rparr>) else (False, w1))"

definition fwrite :: "string \<Rightarrow> u8 list \<Rightarrow> tool_world \<Rightarrow> bool \<times> tool_world" where
  "fwrite path bytes w =
     (let (ok, w1) = next_call w in
      if ok then (True, w1\<lparr>files := (files w1)(path := map_option (\<lambda>old. old @ bytes) (files w1 path))\<rparr>)
      else (False, w1))"

definition close_file :: "tool_world \<Rightarrow> bool \<times> tool_world" where
  "close_file w = (let (ok, w1) = next_call w in (ok, fclose w1))"

text \<open>\<^verbatim>\<open>write_zeros\<close> writes at most 64 bytes at a time.\<close>

function write_zeros :: "string \<Rightarrow> nat \<Rightarrow> tool_world \<Rightarrow> bool \<times> tool_world" where
  "write_zeros path count w =
     (if count = 0 then (True, w)
      else
      let chunk = (if count > 64 then 64 else count);
          (ok, w1) = fwrite path (replicate chunk 0) w
      in if \<not> ok then (False, w1) else write_zeros path (count - chunk) w1)"
  by pat_completeness auto
termination
  by (relation "measure (\<lambda>(path, count, w). count)") auto

declare write_zeros.simps [simp del]

definition build_payload_path :: "string \<Rightarrow> string \<Rightarrow> string option" where
  "build_payload_path dir_path filename =
     (let separator = (if dir_path \<noteq> [] \<and> last dir_path = CHR ''/'' then '''' else ''/'');
          path = dir_path @ separator @ filename
      in if length path \<ge> IRXIMG_PATH_MAX then None else Some path)"

definition free_payloads :: "payload_file list \<Rightarrow> tool_world \<Rightarrow> tool_world" where
  "free_payloads payloads w = fold (\<lambda>p. free (p_data p)) payloads w"

subsection \<open>Packing\<close>

text \<open>
  The loop that reads the modules: the entries that are left, the payloads so far and the next
  offset. On an error all payloads read so far are freed.
\<close>

fun read_payloads ::
  "string \<Rightarrow> manifest_entry list \<Rightarrow> payload_file list \<Rightarrow> u32 \<Rightarrow> tool_world \<Rightarrow>
   (payload_file list \<times> u32) option \<times> tool_world" where
  "read_payloads dir_path [] payloads cursor w = (Some (payloads, cursor), w)"
| "read_payloads dir_path (e # es) payloads cursor w =
     (case build_payload_path dir_path (me_filename e) of
        None \<Rightarrow> (None, free_payloads payloads w)
      | Some path \<Rightarrow>
          (case read_file path w of
             (None, w1) \<Rightarrow> (None, free_payloads payloads w1)
           | (Some (data, sz), w1) \<Rightarrow>
               let p = \<lparr>p_data = data, p_size = sz,
                        p_crc32 = tool_crc32_bytes (the (heap w1 data)), p_offset = cursor\<rparr>
               in if sz > UINT32_MAX - cursor then (None, free_payloads (payloads @ [p]) w1)
                  else read_payloads dir_path es (payloads @ [p])
                         (align_up_u32 (cursor + sz) IRXIMG_ALIGNMENT) w1))"

definition image_header :: "u32 \<Rightarrow> u32 \<Rightarrow> u32 \<Rightarrow> u32 \<Rightarrow> u8 list" where
  "image_header count payload_offset file_size manifest_crc =
     IRXIMG_MAGIC @ write_u32_le IRXIMG_VERSION @ write_u32_le IRXIMG_HEADER_SIZE @
     write_u32_le count @ write_u32_le IRXIMG_ENTRY_SIZE @ write_u32_le IRXIMG_HEADER_SIZE @
     write_u32_le payload_offset @ write_u32_le file_size @ write_u32_le 0 @ write_u32_le manifest_crc"

definition entry_bytes :: "u32 \<Rightarrow> payload_file \<Rightarrow> u8 list" where
  "entry_bytes n p =
     write_u32_le n @ write_u32_le (p_offset p) @ write_u32_le (p_size p) @
     write_u32_le (p_crc32 p) @ write_u32_le 0"

fun write_entries :: "string \<Rightarrow> (manifest_entry \<times> payload_file) list \<Rightarrow> tool_world \<Rightarrow> bool \<times> tool_world" where
  "write_entries out [] w = (True, w)"
| "write_entries out ((e, p) # rest) w =
     (let (ok, w1) = fwrite out (entry_bytes (me_id e) p) w in
      if \<not> ok then (False, w1) else write_entries out rest w1)"

fun write_payloads :: "string \<Rightarrow> payload_file list \<Rightarrow> tool_world \<Rightarrow> bool \<times> tool_world" where
  "write_payloads out [] w = (True, w)"
| "write_payloads out (p # rest) w =
     (let end_off = p_offset p + p_size p;
          aligned_end = align_up_u32 end_off IRXIMG_ALIGNMENT;
          (ok, w1) = fwrite out (the (heap w (p_data p))) w
      in if \<not> ok then (False, w1)
         else
         let (ok, w2) = write_zeros out (unat (aligned_end - end_off)) w1 in
         if \<not> ok then (False, w2) else write_payloads out rest w2)"

text \<open>From the open output file on: the whole image, or false after the first failure.\<close>

definition write_image ::
  "string \<Rightarrow> manifest \<Rightarrow> payload_file list \<Rightarrow> u32 \<Rightarrow> u32 \<Rightarrow> tool_world \<Rightarrow> bool \<times> tool_world" where
  "write_image out m payloads payload_offset file_size w =
     (let count = of_nat (length (m_entries m));
          table_end = IRXIMG_HEADER_SIZE + count * IRXIMG_ENTRY_SIZE;
          (ok, w1) = fwrite out (image_header count payload_offset file_size (m_crc32 m)) w
      in if \<not> ok then (False, w1)
         else
         let (ok, w2) = write_entries out (zip (m_entries m) payloads) w1 in
         if \<not> ok then (False, w2)
         else if payload_offset < table_end then (False, w2)
         else
         let (ok, w3) = write_zeros out (unat (payload_offset - table_end)) w2 in
         if \<not> ok then (False, w3) else write_payloads out payloads w3)"

definition pack_image :: "string \<Rightarrow> string \<Rightarrow> string \<Rightarrow> tool_world \<Rightarrow> int \<times> tool_world" where
  "pack_image manifest_path irx_directory output_path w =
     (case load_manifest manifest_path w of
        (None, w1) \<Rightarrow> (1, w1)
      | (Some m, w1) \<Rightarrow>
          if length (m_entries m) > unat ((UINT32_MAX - IRXIMG_HEADER_SIZE) div IRXIMG_ENTRY_SIZE) then (1, w1)
          else
          let payload_offset = align_up_u32
                (IRXIMG_HEADER_SIZE + of_nat (length (m_entries m)) * IRXIMG_ENTRY_SIZE) IRXIMG_ALIGNMENT
          in (case read_payloads irx_directory (m_entries m) [] payload_offset w1 of
                (None, w2) \<Rightarrow> (1, w2)
              | (Some (payloads, file_size), w2) \<Rightarrow>
                  let (ok, w3) = create_file output_path w2 in
                  if \<not> ok then (1, free_payloads payloads w3)
                  else
                  let (ok, w4) = write_image output_path m payloads payload_offset file_size w3 in
                  if \<not> ok then (1, free_payloads payloads (fclose w4))
                  else
                  let (ok, w5) = close_file w4
                  in (if ok then 0 else 1, free_payloads payloads w5)))"

subsection \<open>Validating\<close>

text \<open>
  Reading bytes of the image; outside of it the read is undefined behaviour.
\<close>

definition image_slice :: "nat \<Rightarrow> nat \<Rightarrow> u8 list \<Rightarrow> tool_world \<Rightarrow> u8 list \<times> tool_world" where
  "image_slice off n img w =
     (bytes_at off n img, if off + n \<le> length img then w else w\<lparr>ub := True\<rparr>)"

definition tool_entry_bad :: "u32 \<Rightarrow> u32 \<Rightarrow> u32 \<Rightarrow> irx_image_entry \<Rightarrow> bool" where
  "tool_entry_bad payload_offset previous_end image_size e \<longleftrightarrow>
     e_size e = 0 \<or> e_flags e \<noteq> 0 \<or>
     e_offset e < payload_offset \<or>
     e_offset e AND (IRXIMG_ALIGNMENT - 1) \<noteq> 0 \<or>
     e_offset e < previous_end \<or>
     e_size e > image_size - e_offset e"

text \<open>The loop over the entries: \<open>i\<close> is the position of the next one in the table.\<close>

fun validate_entries ::
  "u8 list \<Rightarrow> u32 \<Rightarrow> u32 \<Rightarrow> manifest_entry list \<Rightarrow> nat \<Rightarrow> u32 \<Rightarrow> tool_world \<Rightarrow> bool \<times> tool_world" where
  "validate_entries img image_size payload_offset [] i previous_end w = (True, w)"
| "validate_entries img image_size payload_offset (m # ms) i previous_end w =
     (let (raw, w1) = image_slice (44 + i * 20) 20 img w;
          e = read_entry raw
      in if e_id e \<noteq> me_id m then (False, w1)
         else if tool_entry_bad payload_offset previous_end image_size e then (False, w1)
         else
         let (data, w2) = image_slice (unat (e_offset e)) (unat (e_size e)) img w1 in
         if tool_crc32_bytes data \<noteq> e_crc32 e then (False, w2)
         else validate_entries img image_size payload_offset ms (Suc i) (e_offset e + e_size e) w2)"

definition tool_header_bad :: "manifest \<Rightarrow> u32 \<Rightarrow> u8 list \<Rightarrow> bool" where
  "tool_header_bad m image_size img \<longleftrightarrow>
     (let h = read_header img in
      h_version h \<noteq> IRXIMG_VERSION \<or> h_header_size h \<noteq> IRXIMG_HEADER_SIZE \<or>
      h_entry_size h \<noteq> IRXIMG_ENTRY_SIZE \<or> h_entry_table_offset h \<noteq> IRXIMG_HEADER_SIZE \<or>
      h_flags h \<noteq> 0 \<or>
      unat (h_entry_count h) \<noteq> length (m_entries m) \<or>
      h_declared_file_size h \<noteq> image_size \<or>
      u32_at 40 img \<noteq> m_crc32 m \<or>
      h_entry_count h > (UINT32_MAX - h_entry_table_offset h) div h_entry_size h \<or>
      h_entry_table_offset h + h_entry_count h * h_entry_size h > image_size \<or>
      h_payload_offset h < h_entry_table_offset h + h_entry_count h * h_entry_size h \<or>
      h_payload_offset h AND (IRXIMG_ALIGNMENT - 1) \<noteq> 0)"

text \<open>The flag \<^verbatim>\<open>inspect\<close> only prints, so it is left out.\<close>

definition validate_image_internal :: "string \<Rightarrow> string \<Rightarrow> tool_world \<Rightarrow> int \<times> tool_world" where
  "validate_image_internal manifest_path image_path w =
     (case load_manifest manifest_path w of
        (None, w1) \<Rightarrow> (1, w1)
      | (Some m, w1) \<Rightarrow>
          (case read_file image_path w1 of
             (None, w2) \<Rightarrow> (1, w2)
           | (Some (data, image_size), w2) \<Rightarrow>
               let img = the (heap w2 data) in
               if image_size < IRXIMG_HEADER_SIZE then (1, free data w2)
               else if take 8 img \<noteq> IRXIMG_MAGIC then (1, free data w2)
               else if tool_header_bad m image_size img then (1, free data w2)
               else
               let payload_offset = h_payload_offset (read_header img);
                   (ok, w3) = validate_entries img image_size payload_offset (m_entries m) 0 payload_offset w2
               in (if ok then 0 else 1, free data w3)))"

text \<open>
  \<^verbatim>\<open>main\<close>, given \<^verbatim>\<open>argv\<close>; \<^verbatim>\<open>inspect\<close> differs from \<^verbatim>\<open>validate\<close> in what it prints only.
\<close>

definition tool_main :: "string list \<Rightarrow> tool_world \<Rightarrow> int \<times> tool_world" where
  "tool_main argv w =
     (if length argv = 5 \<and> argv ! 1 = ''pack'' then pack_image (argv ! 2) (argv ! 3) (argv ! 4) w
      else if length argv = 4 \<and> argv ! 1 = ''validate'' then validate_image_internal (argv ! 2) (argv ! 3) w
      else if length argv = 4 \<and> argv ! 1 = ''inspect'' then validate_image_internal (argv ! 2) (argv ! 3) w
      else (2, w))"

subsection \<open>Specification of the image\<close>

definition up16 :: "nat \<Rightarrow> nat" where
  "up16 n = (n + 15) div 16 * 16"

text \<open>The offsets of the payloads, from a first one, and the size of the file.\<close>

fun place :: "nat \<Rightarrow> u8 list list \<Rightarrow> nat list \<times> nat" where
  "place c [] = ([], c)"
| "place c (d # ds) = (let (offs, e) = place (up16 (c + length d)) ds in (c # offs, e))"

definition payload_start :: "nat \<Rightarrow> nat" where
  "payload_start n = up16 (44 + 20 * n)"

definition payload_entry :: "u32 \<Rightarrow> nat \<Rightarrow> u8 list \<Rightarrow> irx_image_entry" where
  "payload_entry n off d =
     \<lparr>e_id = n, e_offset = of_nat off, e_size = of_nat (length d), e_crc32 = crc32_bytes d, e_flags = 0\<rparr>"

fun payload_entries :: "nat \<Rightarrow> (u32 \<times> u8 list) list \<Rightarrow> irx_image_entry list" where
  "payload_entries c [] = []"
| "payload_entries c ((n, d) # ps) = payload_entry n c d # payload_entries (up16 (c + length d)) ps"

definition entry_raw :: "irx_image_entry \<Rightarrow> u8 list" where
  "entry_raw e =
     write_u32_le (e_id e) @ write_u32_le (e_offset e) @ write_u32_le (e_size e) @
     write_u32_le (e_crc32 e) @ write_u32_le (e_flags e)"

fun payload_area :: "nat \<Rightarrow> u8 list list \<Rightarrow> u8 list" where
  "payload_area c [] = []"
| "payload_area c (d # ds) =
     d @ replicate (up16 (c + length d) - (c + length d)) 0 @ payload_area (up16 (c + length d)) ds"

text \<open>The image of a list of modules, with the checksum of the manifest in its header.\<close>

definition image_of :: "(u32 \<times> u8 list) list \<Rightarrow> u32 \<Rightarrow> u8 list" where
  "image_of ps manifest_crc =
     (let n = length ps; start = payload_start n in
      image_header (of_nat n) (of_nat start) (of_nat (snd (place start (map snd ps)))) manifest_crc @
      concat (map entry_raw (payload_entries start ps)) @
      replicate (start - (44 + 20 * n)) 0 @
      payload_area start (map snd ps))"

definition image_small :: "(u32 \<times> u8 list) list \<Rightarrow> bool" where
  "image_small ps \<longleftrightarrow> snd (place (payload_start (length ps)) (map snd ps)) < 4294967296"

subsection \<open>Bytes of text\<close>

lemma unat_of_char: "unat (of_char c :: u8) = of_char c"
  by (cases c) (auto simp: of_char_def)

lemma of_char_u8_inject: "(of_char c :: u8) = of_char d \<longleftrightarrow> c = d"
  using unat_of_char [of c] unat_of_char [of d] of_char_eq_iff [of c d, where 'a = nat] by metis

subsection \<open>Alignment\<close>

lemma up16_le: "n \<le> up16 n" "up16 n < n + 16" and up16_dvd: "16 dvd up16 n"
  by (simp_all add: up16_def)

lemma up16_less: "up16 n < 4294967296 \<longleftrightarrow> n \<le> 4294967280"
  by (simp add: up16_def) presburger

lemma unat_align_up:
  assumes "unat v \<le> 4294967280"
  shows "unat (align_up_u32 v IRXIMG_ALIGNMENT) = up16 (unat v)"
proof -
  let ?x = "v + 15" and ?m = "mask 4 :: u32"
  have x: "unat ?x = unat v + 15"
    using assms by (simp add: unat_add_u32)
  have "(?x AND NOT ?m) AND (?x AND ?m) = 0" "(?x AND NOT ?m) OR (?x AND ?m) = ?x"
    by (auto simp: bit_eq_iff bit_simps)
  then have sum: "?x = (?x AND NOT ?m) + (?x AND ?m)"
    using word_plus_and_or [of "?x AND NOT ?m" "?x AND ?m"] by simp
  have low: "unat (?x AND ?m) = unat ?x mod 16"
    by (simp add: take_bit_eq_mod unat_mod flip: take_bit_eq_mask)
  have "?x AND NOT ?m = ?x - (?x AND ?m)"
    using sum by (simp add: algebra_simps)
  moreover have "?x AND ?m \<le> ?x"
    using low by (simp add: word_le_nat_alt)
  ultimately have "unat (?x AND NOT ?m) = unat ?x - unat ?x mod 16"
    using unat_sub_u32 [of "?x AND ?m" ?x] low by simp
  moreover have "?m = 15"
    by (simp add: mask_eq_exp_minus_1)
  ultimately have "unat (?x AND NOT 15) = unat ?x - unat ?x mod 16"
    by simp
  then show ?thesis
    using x by (simp add: align_up_u32_def IRXIMG_ALIGNMENT_def up16_def minus_mod_eq_div_mult [symmetric]
        add.commute [of 15 v])
qed

lemma place_mono: "c \<le> snd (place c ds)"
proof (induction ds arbitrary: c)
  case Nil
  then show ?case by simp
next
  case (Cons d ds)
  from Cons.IH [of "up16 (c + length d)"] up16_le(1) [of "c + length d"] show ?case
    by (simp add: case_prod_unfold Let_def)
qed

subsection \<open>The parser accepts the image\<close>

lemma length_entry_raw [simp]: "length (entry_raw e) = 20"
  by (simp add: entry_raw_def)

lemma length_magic [simp]: "length IRXIMG_MAGIC = 8"
  by (simp add: IRXIMG_MAGIC_def)

lemma length_image_header [simp]: "length (image_header c po fs crc) = 44"
  by (simp add: image_header_def)

lemma read_entry_raw: "read_entry (entry_raw e @ rest) = e"
  by (simp add: read_entry_def entry_raw_def)

lemma read_header_image:
  "read_header (image_header c po fs crc) =
     \<lparr>h_version = 1, h_header_size = 44, h_entry_count = c, h_entry_size = 20,
      h_entry_table_offset = 44, h_payload_offset = po, h_declared_file_size = fs, h_flags = 0\<rparr>"
  by (simp add: read_header_def image_header_def format_defs)

lemma magic_image: "take 8 (image_header c po fs crc) = IRXIMG_MAGIC"
  by (simp add: image_header_def)

lemma raw_entries_concat: "raw_entries (concat (map entry_raw es) @ rest) (length es) = es"
proof -
  have drop: "drop (i * 20) (concat (map entry_raw es)) = entry_raw (es ! i) @ concat (map entry_raw (drop (Suc i) es))"
    if "i < length es" for i
    using that
  proof (induction es arbitrary: i)
    case Nil
    then show ?case by simp
  next
    case (Cons e es)
    then show ?case by (cases i) simp_all
  qed
  have len: "length (concat (map entry_raw es)) = 20 * length es" for es
    by (induction es) simp_all
  have "read_entry (drop (i * 20) (concat (map entry_raw es) @ rest)) = es ! i" if "i < length es" for i
    using drop [OF that] len [of es] that by (simp add: read_entry_raw)
  then show ?thesis
    unfolding raw_entries_def by (intro nth_equalityI) simp_all
qed

lemma length_payload_entries [simp]: "length (payload_entries c ps) = length ps"
  by (induction c ps rule: payload_entries.induct) simp_all

lemma ids_payload_entries [simp]: "map e_id (payload_entries c ps) = map fst ps"
  by (induction c ps rule: payload_entries.induct) (simp_all add: payload_entry_def)

lemma length_payload_area: "length (payload_area c ds) = snd (place c ds) - c"
proof (induction ds arbitrary: c)
  case Nil
  then show ?case by simp
next
  case (Cons d ds)
  from Cons.IH [of "up16 (c + length d)"] up16_le(1) [of "c + length d"]
    place_mono [of "up16 (c + length d)" ds] show ?case
    by (simp add: case_prod_unfold Let_def)
qed

text \<open>Every entry is one the parser accepts, and its bytes are at its offset.\<close>

lemma payload_entries_ok:
  assumes "16 dvd c" "snd (place c (map snd ps)) < 4294967296" "start \<le> c" "start < 4294967296"
    and "\<forall>(n, d) \<in> set ps. n \<noteq> 0 \<and> d \<noteq> []" "length pre = c"
    and "fsz = snd (place c (map snd ps))"
  shows "\<not> list_ex (entry_bad (of_nat start) (of_nat fsz)) (payload_entries c ps) \<and>
    (\<forall>i < length ps. bytes_at (unat (e_offset (payload_entries c ps ! i))) (unat (e_size (payload_entries c ps ! i)))
        (pre @ payload_area c (map snd ps)) = snd (ps ! i) \<and>
      e_crc32 (payload_entries c ps ! i) = crc32_bytes (snd (ps ! i)))"
  using assms
proof (induction c ps arbitrary: pre rule: payload_entries.induct)
  case (1 c)
  then show ?case by simp
next
  case (2 c n d ps)
  let ?c = "up16 (c + length d)" and ?e = "payload_entry n c d"
  have fsz: "snd (place ?c (map snd ps)) = fsz"
    using 2(8) by (simp add: case_prod_unfold Let_def)
  have le: "c + length d \<le> ?c" "?c \<le> fsz" "fsz < 4294967296"
    using up16_le(1) place_mono [of ?c "map snd ps"] fsz 2(3,8) by auto
  have nat: "unat (of_nat c :: u32) = c" "unat (of_nat (length d) :: u32) = length d"
      "unat (of_nat start :: u32) = start" "unat (of_nat fsz :: u32) = fsz"
    using le 2(5) by (auto intro!: unat_of_nat_u32)
  have "unat (of_nat fsz - of_nat c :: u32) = fsz - c"
    using unat_sub_u32 [of "of_nat c" "of_nat fsz"] nat le by (simp add: word_le_nat_alt)
  moreover have "of_nat c AND 15 = (0 :: u32)"
    using 2(2) nat(1) by (simp add: and_15_eq_0)
  moreover have "of_nat (length d) \<noteq> (0 :: u32)"
    using 2(6) nat(2) by auto
  ultimately have ok: "\<not> entry_bad (of_nat start) (of_nat fsz) ?e"
    using 2(4,6) nat le
    by (simp add: entry_bad_def payload_entry_def word_less_nat_alt IRXIMG_ALIGNMENT_def)
  let ?pad = "replicate (?c - (c + length d)) (0 :: u8)"
  have len: "length (pre @ d @ ?pad) = ?c"
    using 2(7) le by simp
  have IH: "\<not> list_ex (entry_bad (of_nat start) (of_nat fsz)) (payload_entries ?c ps) \<and>
    (\<forall>i < length ps. bytes_at (unat (e_offset (payload_entries ?c ps ! i))) (unat (e_size (payload_entries ?c ps ! i)))
        ((pre @ d @ ?pad) @ payload_area ?c (map snd ps)) = snd (ps ! i) \<and>
      e_crc32 (payload_entries ?c ps ! i) = crc32_bytes (snd (ps ! i)))"
    by (rule 2(1) [OF up16_dvd _ _ 2(5) _ len]) (use 2(4,6) le fsz in simp_all)
  have first: "bytes_at (unat (e_offset ?e)) (unat (e_size ?e)) (pre @ payload_area c (map snd ((n, d) # ps))) = d"
    using nat 2(7) by (simp add: payload_entry_def bytes_at_middle)
  have same: "(pre @ d @ ?pad) @ payload_area ?c (map snd ps) = pre @ payload_area c (map snd ((n, d) # ps))"
    by simp
  show ?case
  proof (intro conjI allI impI)
    show "\<not> list_ex (entry_bad (of_nat start) (of_nat fsz)) (payload_entries c ((n, d) # ps))"
      using IH ok by simp
    fix i
    assume i: "i < length ((n, d) # ps)"
    show "bytes_at (unat (e_offset (payload_entries c ((n, d) # ps) ! i)))
        (unat (e_size (payload_entries c ((n, d) # ps) ! i))) (pre @ payload_area c (map snd ((n, d) # ps))) =
        snd (((n, d) # ps) ! i)"
      using IH [unfolded same] first i by (cases i) (simp_all only: payload_entries.simps nth_Cons_0 nth_Cons_Suc
          snd_conv length_Cons Suc_less_eq simp_thms)
    show "e_crc32 (payload_entries c ((n, d) # ps) ! i) = crc32_bytes (snd (((n, d) # ps) ! i))"
      using IH i by (cases i) (simp_all add: payload_entry_def)
  qed
qed

definition packable :: "(u32 \<times> u8 list) list \<Rightarrow> bool" where
  "packable ps \<longleftrightarrow> image_small ps \<and> ps \<noteq> [] \<and> length ps \<le> 128 \<and> distinct (map fst ps) \<and>
     (\<forall>(n, d) \<in> set ps. n \<noteq> 0 \<and> d \<noteq> [])"

lemma payload_start_bounds: "44 + 20 * n \<le> payload_start n" "payload_start n < 60 + 20 * n"
  using up16_le [of "44 + 20 * n"] by (simp_all add: payload_start_def)

lemma length_entry_table: "length (concat (map entry_raw es)) = 20 * length es"
  by (induction es) simp_all

text \<open>The table and what is in front of it: everything up to the first payload.\<close>

definition image_front :: "(u32 \<times> u8 list) list \<Rightarrow> u32 \<Rightarrow> u8 list" where
  "image_front ps crc =
     (let n = length ps; start = payload_start n in
      image_header (of_nat n) (of_nat start) (of_nat (snd (place start (map snd ps)))) crc @
      concat (map entry_raw (payload_entries start ps)) @ replicate (start - (44 + 20 * n)) 0)"

lemma image_of_front: "image_of ps crc = image_front ps crc @ payload_area (payload_start (length ps)) (map snd ps)"
  by (simp add: image_of_def image_front_def Let_def)

lemma length_image_front: "length (image_front ps crc) = payload_start (length ps)"
  using payload_start_bounds [of "length ps"] by (simp add: image_front_def Let_def length_entry_table)

lemma length_image_of: "length (image_of ps crc) = snd (place (payload_start (length ps)) (map snd ps))"
  using place_mono [of "payload_start (length ps)" "map snd ps"]
  by (simp add: image_of_front length_image_front length_payload_area)

lemma image_of_header:
  "take 44 (image_of ps crc) = image_header (of_nat (length ps)) (of_nat (payload_start (length ps)))
     (of_nat (length (image_of ps crc))) crc"
  unfolding length_image_of by (simp add: image_of_front image_front_def Let_def)

lemma image_of_header_ok:
  assumes "packable ps"
  shows "header_ok (take 44 (image_of ps crc)) (of_nat (length (image_of ps crc)))"
proof -
  let ?n = "length ps" and ?start = "payload_start (length ps)" and ?fsz = "length (image_of ps crc)"
  have n: "1 \<le> ?n" "?n \<le> 128" and fsz: "?fsz < 4294967296" and small: "?start \<le> ?fsz"
    using assms place_mono by (auto simp: packable_def image_small_def length_image_of Suc_le_eq)
  have un: "unat (of_nat ?n :: u32) = ?n" "unat (of_nat ?start :: u32) = ?start" "unat (of_nat ?fsz :: u32) = ?fsz"
    using n fsz small by (auto intro!: unat_of_nat_u32)
  have table: "unat (44 + of_nat ?n * 20 :: u32) = 44 + 20 * ?n"
    using n un(1) by (simp add: unat_add_u32 unat_mult_u32)
  have "(of_nat ?start :: u32) AND 15 = 0"
    using un(2) up16_dvd by (simp add: and_15_eq_0 payload_start_def)
  moreover have "(of_nat ?n :: u32) \<noteq> 0" "\<not> 128 < (of_nat ?n :: u32)"
    using n un(1) by (auto simp: word_less_nat_alt)
  moreover have "\<not> (4294967251 :: u32) div 20 < of_nat ?n"
    using n un(1) by (simp add: word_less_nat_alt unat_div)
  ultimately show ?thesis
    using un table payload_start_bounds(1) [of ?n] small
    unfolding image_of_header
    by (simp add: header_ok_def read_header_image magic_image format_defs word_less_nat_alt)
qed

lemma image_of_directory:
  assumes "packable ps"
  shows "image_directory (image_of ps crc) = Some (payload_entries (payload_start (length ps)) ps)"
    and "\<forall>i < length ps. bytes_at
        (unat (e_offset (payload_entries (payload_start (length ps)) ps ! i)))
        (unat (e_size (payload_entries (payload_start (length ps)) ps ! i))) (image_of ps crc) = snd (ps ! i) \<and>
      e_crc32 (payload_entries (payload_start (length ps)) ps ! i) = crc32_bytes (snd (ps ! i))"
proof -
  let ?n = "length ps" and ?start = "payload_start (length ps)" and ?fsz = "length (image_of ps crc)"
  let ?es = "payload_entries ?start ps"
  have n: "?n \<le> 128" and fsz: "?fsz < 4294967296" "?start \<le> ?fsz"
    using assms place_mono by (auto simp: packable_def image_small_def length_image_of)
  have ok: "\<not> list_ex (entry_bad (of_nat ?start) (of_nat ?fsz)) ?es \<and>
    (\<forall>i < length ps. bytes_at (unat (e_offset (?es ! i))) (unat (e_size (?es ! i)))
        (image_front ps crc @ payload_area ?start (map snd ps)) = snd (ps ! i) \<and>
      e_crc32 (?es ! i) = crc32_bytes (snd (ps ! i)))"
    using assms fsz up16_dvd
    by (intro payload_entries_ok) (auto simp: packable_def length_image_of length_image_front payload_start_def)
  then show "\<forall>i < length ps. bytes_at (unat (e_offset (?es ! i))) (unat (e_size (?es ! i))) (image_of ps crc) =
      snd (ps ! i) \<and> e_crc32 (?es ! i) = crc32_bytes (snd (ps ! i))"
    unfolding image_of_front by blast
  have "bytes_at 44 (20 * ?n) (image_of ps crc) = concat (map entry_raw ?es)"
    by (simp add: image_of_front image_front_def Let_def bytes_at_def length_entry_table)
  then have "raw_entries (bytes_at 44 (20 * ?n) (image_of ps crc)) ?n = ?es"
    using raw_entries_concat [of ?es "[]"] by simp
  moreover have "unat (of_nat ?n :: u32) = ?n"
    using n by (intro unat_of_nat_u32) simp
  moreover have "44 \<le> ?fsz"
    using payload_start_bounds(1) [of ?n] fsz(2) by simp
  moreover have "distinct (map e_id ?es)"
    using assms by (simp add: packable_def)
  ultimately show "image_directory (image_of ps crc) = Some ?es"
    using image_of_header_ok [OF assms, of crc] ok image_of_header [of ps crc]
    by (simp add: image_directory_def read_header_image Let_def)
qed

end
