(* ===== verification/Tool_Files.thy ===== *)
theory Tool_Files
  imports Image_Tool
begin

text \<open>
  What the image tool reads: the entries of a manifest, and the files it names, with the memory
  they take. Every result holds for every pattern of failing calls.
\<close>

subsection \<open>Reading the manifest\<close>

text \<open>A manifest that is accepted: 1 to 128 entries with different numbers that are not 0.\<close>

definition manifest_ok :: "manifest_entry list \<Rightarrow> bool" where
  "manifest_ok es \<longleftrightarrow> es \<noteq> [] \<and> length es \<le> 128 \<and> distinct (map me_id es) \<and> 0 \<notin> me_id ` set es"

lemma manifest_line_entry:
  "manifest_line es line = Some (Some e) \<Longrightarrow> length es < 128 \<and> me_id e \<noteq> 0 \<and> me_id e \<notin> me_id ` set es"
  by (auto simp: manifest_line_def Let_def list_ex_iff IRXIMG_MAX_ENTRIES_def
      split: prod.splits if_splits option.splits)

lemma manifest_lines_result:
  "manifest_lines bytes es w = (r, w') \<Longrightarrow> length es \<le> 128 \<Longrightarrow> distinct (map me_id es) \<Longrightarrow> 0 \<notin> me_id ` set es \<Longrightarrow>
     calls_only w w' \<and>
     (\<forall>es'. r = Some es' \<longrightarrow> length es' \<le> 128 \<and> distinct (map me_id es') \<and> 0 \<notin> me_id ` set es')"
proof (induction bytes es w rule: manifest_lines.induct)
  case (1 bytes es w)
  obtain ok w1 where call: "next_call w = (ok, w1)" by fastforce
  note w1 = next_call_calls [OF call, THEN conjunct1]
  show ?case
  proof (cases "\<not> ok \<or> bytes = []")
    case True
    then show ?thesis
      using 1(3-) call w1 by (auto simp: manifest_lines.simps [of bytes] split: if_splits)
  next
    case False
    then have go: "\<not> \<not> ok" "bytes \<noteq> []" by auto
    let ?line = "fgets_bytes bytes"
    show ?thesis
    proof (cases "manifest_line es (c_string ?line)")
      case None
      then show ?thesis
        using 1(3-) call w1 go by (auto simp: manifest_lines.simps [of bytes] Let_def)
    next
      case (Some l)
      show ?thesis
      proof (cases l)
        case None
        then have "manifest_lines (drop (length ?line) bytes) es w1 = (r, w')"
          using 1(3) call go Some by (simp add: manifest_lines.simps [of bytes] Let_def)
        from 1(1) [OF call [symmetric] refl go refl Some None this 1(4-)] w1 show ?thesis
          by (auto intro: calls_only_trans)
      next
        case (Some e)
        note l = \<open>manifest_line es (c_string ?line) = Some l\<close>
        have "manifest_lines (drop (length ?line) bytes) (es @ [e]) w1 = (r, w')"
          using 1(3) call go Some l by (simp add: manifest_lines.simps [of bytes] Let_def)
        from 1(2) [OF call [symmetric] refl go refl l Some this] manifest_line_entry [OF l [unfolded Some]] 1(4-) w1
        show ?thesis
          by (auto intro: calls_only_trans)
      qed
    qed
  qed
qed

text \<open>Which entries are read does not depend on the calls, as long as they succeed.\<close>

lemma manifest_lines_again:
  "manifest_lines bytes es w = (Some es', w') \<Longrightarrow> all_succeed v \<Longrightarrow> fst (manifest_lines bytes es v) = Some es'"
proof (induction bytes es w arbitrary: v rule: manifest_lines.induct)
  case (1 bytes es w)
  obtain ok w1 where call: "next_call w = (ok, w1)" by fastforce
  obtain v1 where v1: "next_call v = (True, v1)" "all_succeed v1"
    using next_call_calls [of v] 1(4) by (metis (full_types) calls_only_def prod.exhaust)
  have ok: "\<not> \<not> ok"
    using 1(3) call by (simp add: manifest_lines.simps [of bytes] split: if_splits)
  show ?case
  proof (cases "bytes = []")
    case True
    then show ?thesis
      using 1(3) call v1 ok by (simp add: manifest_lines.simps [of "[]"])
  next
    case False
    let ?line = "fgets_bytes bytes"
    obtain l where l: "manifest_line es (c_string ?line) = Some l"
      using 1(3) call ok False by (auto simp: manifest_lines.simps [of bytes] Let_def split: option.splits)
    show ?thesis
    proof (cases l)
      case None
      with 1(3) call ok False l have "manifest_lines (drop (length ?line) bytes) es w1 = (Some es', w')"
        by (simp add: manifest_lines.simps [of bytes] Let_def)
      from 1(1) [OF call [symmetric] refl ok False refl l None this v1(2)] show ?thesis
        using v1(1) False l None by (simp add: manifest_lines.simps [of bytes] Let_def)
    next
      case (Some e)
      with 1(3) call ok False l have "manifest_lines (drop (length ?line) bytes) (es @ [e]) w1 = (Some es', w')"
        by (simp add: manifest_lines.simps [of bytes] Let_def)
      from 1(2) [OF call [symmetric] refl ok False refl l Some this v1(2)] show ?thesis
        using v1(1) False l Some by (simp add: manifest_lines.simps [of bytes] Let_def)
    qed
  qed
qed

text \<open>Opening a stream, with the calls on it and closing it again.\<close>

lemma opened_stream:
  assumes "fopen path w = (r, w1)"
  obtains (no) "r = None" "calls_only w w1" "\<not> all_succeed w \<or> files w path = None"
  | (yes) bytes w0 where "files w path = Some bytes" "r = Some \<lparr>f_data = bytes, f_pos = 0\<rparr>" "calls_only w w0"
      "w1 = w0\<lparr>opened := Suc (opened w0)\<rparr>"
proof -
  obtain ok w0 where call: "next_call w = (ok, w0)" by fastforce
  note c = next_call_calls [OF call]
  show thesis
    using assms call c calls_only_fields(5) [of w w0] no yes
    by (auto simp: fopen_def split: option.splits if_splits)
qed

lemma closed_stream:
  assumes "calls_only w w0" "evolves (w0\<lparr>opened := Suc (opened w0)\<rparr>) w2"
  shows "evolves w (fclose w2)"
  using assms by (auto simp: evolves_def fclose_def calls_only_def all_succeed_def)

lemma fclose_fields [simp]:
  "heap (fclose w) = heap w" "brk (fclose w) = brk w" "ub (fclose w) = ub w" "files (fclose w) = files w"
  "all_succeed (fclose w) = all_succeed w" "heap_wf (fclose w) = heap_wf w"
  by (simp_all add: fclose_def all_succeed_def heap_wf_def)

lemma load_manifest_result:
  assumes "load_manifest path w = (r, w')"
  shows "evolves w w' \<and> heap w' = heap w \<and> brk w' = brk w \<and>
    (\<forall>m. r = Some m \<longrightarrow> manifest_ok (m_entries m) \<and> m_crc32 m = manifest_logical_crc (m_entries m))"
proof -
  obtain f w1 where o: "fopen path w = (f, w1)" by fastforce
  then show ?thesis
  proof (cases rule: opened_stream)
    case no
    then show ?thesis
      using assms o by (auto simp: load_manifest_def dest: calls_only_evolves)
  next
    case (yes bytes w0)
    obtain es w2 where l: "manifest_lines bytes [] w1 = (es, w2)" by fastforce
    note res = manifest_lines_result [OF l]
    then have c: "calls_only w1 w2" by simp
    have "evolves w (fclose w2)"
      using yes calls_only_evolves [OF c] by (auto intro: closed_stream)
    moreover have "heap w2 = heap w" "brk w2 = brk w"
      using calls_only_fields [OF c] calls_only_fields [OF yes(3)] yes(4) by simp_all
    ultimately show ?thesis
      using assms o l yes res
      by (auto simp: load_manifest_def manifest_ok_def Let_def split: option.splits if_splits)
  qed
qed

lemma load_manifest_again:
  assumes "load_manifest path w = (Some m, w')" "files v path = files w path" "all_succeed v"
  shows "fst (load_manifest path v) = Some m"
proof -
  obtain f w1 where o: "fopen path w = (f, w1)" by fastforce
  then show ?thesis
  proof (cases rule: opened_stream)
    case no
    then show ?thesis
      using assms o by (simp add: load_manifest_def)
  next
    case (yes bytes w0)
    obtain es w2 where l: "manifest_lines bytes [] w1 = (Some es, w2)" "es \<noteq> []"
        "m = \<lparr>m_entries = es, m_crc32 = manifest_logical_crc es\<rparr>"
      using assms(1) o yes by (auto simp: load_manifest_def Let_def split: prod.splits option.splits if_splits)
    obtain g v1 where "fopen path v = (g, v1)" by fastforce
    then show ?thesis
    proof (cases rule: opened_stream)
      case no
      then show ?thesis
        using assms(2,3) yes(1) by simp
    next
      case 2: (yes bytes' v0)
      have "all_succeed v1"
        using 2(3,4) assms(3) by (auto simp: calls_only_def all_succeed_def)
      from manifest_lines_again [OF l(1) this] l 2 yes assms(2) \<open>fopen path v = (g, v1)\<close> show ?thesis
        by (auto simp: load_manifest_def case_prod_unfold Let_def split: option.splits)
    qed
  qed
qed

subsection \<open>Reading files\<close>

text \<open>
  A file that is read ends up in one new block, with its whole content; otherwise nothing is
  left. Without failing calls every file that is not empty and not too large is read.
\<close>

lemma read_file_result:
  assumes "read_file path w = (r, w')" and "heap_wf w"
  shows "evolves w w' \<and> heap_wf w' \<and>
    (case r of
       None \<Rightarrow> heap w' = heap w \<and>
         (all_succeed w \<longrightarrow> (\<forall>bytes. files w path = Some bytes \<longrightarrow> bytes = [] \<or> 4294967295 < length bytes))
     | Some (a, n) \<Rightarrow> a = brk w \<and> brk w' = Suc a \<and>
         (\<exists>bytes. files w path = Some bytes \<and> bytes \<noteq> [] \<and> length bytes \<le> 4294967295 \<and>
            n = of_nat (length bytes) \<and> heap w' = (heap w)(a \<mapsto> bytes)))"
proof -
  obtain f w1 where o: "fopen path w = (f, w1)" by fastforce
  then show ?thesis
  proof (cases rule: opened_stream)
    case no
    then show ?thesis
      using assms o calls_only_evolves [OF no(2)] by (auto simp: read_file_def heap_wf_def)
  next
    case (yes bytes w0)
    let ?f = "\<lparr>f_data = bytes, f_pos = 0\<rparr>"
    obtain ok1 f2 w2 where s1: "fseek_end ?f w1 = (ok1, f2, w2)" by (metis prod_cases3)
    obtain n w3 where s2: "ftell f2 w2 = (n, w3)" by fastforce
    obtain ok2 f4 w4 where s3: "fseek_set 0 f2 w3 = (ok2, f4, w4)" by (metis prod_cases3)
    obtain a w5 where s4: "malloc [] w4 = (a, w5)" by fastforce
    obtain items bs f6 w6 where s5: "fread 1 (nat n) f4 w5 = ((items, bs), f6, w6)" by (metis prod.exhaust)
    note e1 = fseek_end_effect [OF s1] and e2 = ftell_effect [OF s2] and e3 = fseek_set_effect [OF s3]
      and e5 = fread_effect [OF s5]
    have c4: "calls_only w1 w4"
      using e1 e2 e3 by (blast intro: calls_only_trans)
    have run: "(r, w') =
        (if \<not> ok1 then (None, fclose w2)
         else if n \<le> 0 \<or> n > 4294967295 then (None, fclose w3)
         else if \<not> ok2 then (None, fclose w4)
         else if a = 0 then (None, fclose w5)
         else if items \<noteq> nat n then (None, fclose (free a w6))
         else (Some (a, of_int n), fclose (store a bs w6)))"
      unfolding assms(1) [symmetric] by (simp add: read_file_def o yes(2) s1 s2 s3 s4 s5 [simplified] cong: if_cong)
    have h1: "heap w1 = heap w" "brk w1 = brk w" "all_succeed w \<longrightarrow> all_succeed w1"
      using calls_only_fields [OF yes(3)] yes(3,4) by (auto simp: calls_only_def all_succeed_def)
    have wf4: "heap_wf w4" and h4: "heap w4 = heap w" "brk w4 = brk w"
      using assms(2) calls_only_fields [OF c4] h1 by (simp_all add: heap_wf_def)
    have close: "evolves w1 v \<Longrightarrow> evolves w (fclose v)" for v
      using yes closed_stream by blast
    have block: "evolves w1 w6 \<and> heap_wf w6 \<and> heap w6 = (heap w)(a \<mapsto> []) \<and> a = brk w \<and> brk w6 = Suc a" if "a \<noteq> 0"
    proof -
      from s4 wf4 that have m: "a = brk w" "evolves w4 w5" "heap w5 = (heap w)(a \<mapsto> [])" "brk w5 = Suc a" "heap_wf w5"
        using malloc_heap_wf [OF s4 wf4] h4 by (auto elim!: malloc_cases)
      moreover have "calls_only w5 w6"
        using e5 by simp
      ultimately show ?thesis
        using calls_only_evolves [OF c4] calls_only_evolves [of w5 w6]
        by (auto simp: heap_wf_def intro: evolves_trans)
    qed
    have whole: "f_data f4 = bytes \<and> f_pos f4 = 0 \<and> n = int (length bytes)" if "ok1" "0 < n" "ok2"
      using that e1 e2 e3 by auto
    consider (early) "\<not> ok1 \<or> n \<le> 0 \<or> n > 4294967295 \<or> \<not> ok2"
      | (memory) "ok1" "0 < n" "n \<le> 4294967295" "ok2" "a = 0"
      | (short) "ok1" "0 < n" "n \<le> 4294967295" "ok2" "a \<noteq> 0" "items \<noteq> nat n"
      | (full) "ok1" "0 < n" "n \<le> 4294967295" "ok2" "a \<noteq> 0" "items = nat n"
      by linarith
    then show ?thesis
    proof cases
      case early
      then obtain v where v: "(r, w') = (None, fclose v)" "calls_only w1 v"
        using run e1 e2 e3 by (cases "\<not> ok1"; cases "n \<le> 0 \<or> n > 4294967295") (auto intro: calls_only_trans)
      have "all_succeed w \<Longrightarrow> length bytes = 0 \<or> 4294967295 < length bytes"
        using early e1 e2 e3 h1(3) by (auto simp: calls_only_def)
      with v calls_only_evolves [OF v(2)] h1 assms(2) close yes(1) show ?thesis
        by (auto simp: heap_wf_def)
    next
      case memory
      then have v: "(r, w') = (None, fclose w5)"
        using run by simp
      from s4 wf4 memory have m: "evolves w4 w5" "heap w5 = heap w4" "brk w5 = brk w4" "\<not> all_succeed w4"
        by (auto elim!: malloc_cases)
      have "\<not> all_succeed w"
        using m(4) c4 h1(3) by (auto simp: calls_only_def)
      moreover have "evolves w (fclose w5)"
        using m(1) calls_only_evolves [OF c4] by (blast intro: close evolves_trans)
      ultimately show ?thesis
        using v m h4 assms(2) by (auto simp: heap_wf_def)
    next
      case short
      then have v: "(r, w') = (None, fclose (free a w6))"
        using run by simp
      note b = block [OF short(5)]
      have "\<not> all_succeed w5"
        using e5 short whole by (auto simp: bytes_at_def)
      then have "\<not> all_succeed w4"
        using s4 wf4 short(5) by (auto elim!: malloc_cases simp: evolves_def)
      then have "\<not> all_succeed w"
        using c4 h1(3) by (auto simp: calls_only_def)
      moreover have "heap w6 a = Some []" "heap w a = None"
        using b assms(2) by (simp_all add: heap_wf_fresh)
      ultimately show ?thesis
        using v b free_live [of w6 a "[]"] by (auto intro: close evolves_trans simp: fun_upd_idem)
    next
      case full
      then have v: "(r, w') = (Some (a, of_int n), fclose (store a bs w6))"
        using run by simp
      note b = block [OF full(5)]
      have "bs = bytes" "n = int (length bytes)"
        using e5 full whole by (auto simp: bytes_at_def)
      moreover have "heap w6 a = Some []"
        using b by simp
      moreover have "bytes \<noteq> []" "length bytes \<le> 4294967295"
        using full(2,3) \<open>n = int (length bytes)\<close> by auto
      ultimately show ?thesis
        using v b yes(1) store_live [of w6 a "[]" bytes] by (auto intro: close evolves_trans)
    qed
  qed
qed

subsection \<open>The fields of an entry\<close>

text \<open>A field as the structure holds it: not empty, with its zero byte in 128 bytes.\<close>

definition field_ok :: "string \<Rightarrow> bool" where
  "field_ok s \<longleftrightarrow> 0 < length s \<and> length s < 128 \<and> CHR ''|'' \<notin> set s \<and> CHR 0x00 \<notin> set s"

definition fields_ok :: "manifest_entry \<Rightarrow> bool" where
  "fields_ok e \<longleftrightarrow> field_ok (me_filename e) \<and> field_ok (me_symbol e) \<and> field_ok (me_name e)"

lemma strtok_chars:
  assumes "strtok d rest = Some (token, rest')"
  shows "d \<notin> set token" "set token \<subseteq> set rest" "set rest' \<subseteq> set rest"
proof -
  define t where "t = dropWhile (\<lambda>c. c = d) rest"
  have t: "token = takeWhile (\<lambda>c. c \<noteq> d) t" "rest' = drop 1 (dropWhile (\<lambda>c. c \<noteq> d) t)"
    using assms by (auto simp: strtok_def t_def Let_def split: if_splits)
  have "set t \<subseteq> set rest"
    unfolding t_def by (auto dest: set_dropWhileD)
  then show "d \<notin> set token" "set token \<subseteq> set rest" "set rest' \<subseteq> set rest"
    unfolding t by (auto dest!: set_takeWhileD set_dropWhileD in_set_dropD simp del: drop_Suc One_nat_def)
qed

lemma take_fields_chars:
  "take_fields n rest = (parts, next_token) \<Longrightarrow> f \<in> set parts \<Longrightarrow> CHR ''|'' \<notin> set f \<and> set f \<subseteq> set rest"
proof (induction n rest arbitrary: parts next_token rule: take_fields.induct)
  case (1 rest)
  then show ?case by simp
next
  case (2 n rest)
  show ?case
  proof (cases "strtok CHR ''|'' rest")
    case None
    then show ?thesis
      using 2(2,3) by simp
  next
    case (Some p)
    then obtain token rest' where p: "strtok CHR ''|'' rest = Some (token, rest')" by (cases p) auto
    obtain fs nt where fs: "take_fields n rest' = (fs, nt)" by fastforce
    then have "parts = token # fs"
      using 2(2) p by simp
    with 2(1) [OF p refl fs] 2(3) strtok_chars [OF p] show ?thesis
      by auto
  qed
qed

lemma trim_line_chars: "set (trim_line line) \<subseteq> set line"
  by (auto simp: trim_line_def Let_def dest!: set_dropWhileD)

lemma c_string_chars: "CHR 0x00 \<notin> set (c_string bytes)"
proof -
  have "b = 0" if "char_of (unat (b :: u8)) = CHR 0x00" for b
  proof -
    have "of_char (char_of (unat b) :: char) = (0 :: nat)"
      unfolding that by simp
    moreover have "unat b < 256"
      using unsigned_less [of b] by simp
    ultimately show ?thesis
      by (simp add: unat_eq_zero)
  qed
  then show ?thesis
    by (auto simp: c_string_def dest!: set_takeWhileD)
qed

lemma manifest_line_fields:
  assumes "manifest_line es (c_string bytes) = Some (Some e)"
  shows "fields_ok e"
proof -
  let ?line = "c_string bytes"
  obtain parts token where t: "take_fields 4 (trim_line ?line) = (parts, token)" by fastforce
  have chars: "CHR ''|'' \<notin> set f \<and> CHR 0x00 \<notin> set f" if "f \<in> set parts" for f
    using take_fields_chars [OF t that] trim_line_chars [of ?line] c_string_chars [of bytes] by blast
  have f: "length parts = 4" "copy_field 128 (parts ! 1) = Some (me_filename e)"
      "copy_field 128 (parts ! 2) = Some (me_symbol e)" "copy_field 128 (parts ! 3) = Some (me_name e)"
    using assms t by (auto simp: manifest_line_def Let_def IRXIMG_MAX_FIELD_def split: if_splits option.splits)
  have "field_ok x" if "copy_field 128 (parts ! i) = Some x" "i < 4" for i x
    using that f(1) chars [of "parts ! i"] by (auto simp: field_ok_def copy_field_def split: if_splits)
  with f(2-4) show ?thesis
    by (simp add: fields_ok_def)
qed

lemma manifest_lines_fields:
  "manifest_lines bytes es w = (Some es', w') \<Longrightarrow> \<forall>e \<in> set es. fields_ok e \<Longrightarrow> \<forall>e \<in> set es'. fields_ok e"
proof (induction bytes es w rule: manifest_lines.induct)
  case (1 bytes es w)
  obtain ok w1 where call: "next_call w = (ok, w1)" by fastforce
  have ok: "\<not> \<not> ok"
    using 1(3) call by (simp add: manifest_lines.simps [of bytes] split: if_splits)
  show ?case
  proof (cases "bytes = []")
    case True
    then show ?thesis
      using 1(3,4) call ok by (simp add: manifest_lines.simps [of "[]"])
  next
    case False
    obtain l where l: "manifest_line es (c_string (fgets_bytes bytes)) = Some l"
      using 1(3) call ok False by (auto simp: manifest_lines.simps [of bytes] Let_def split: option.splits)
    show ?thesis
    proof (cases l)
      case None
      with 1(3) call ok False l have "manifest_lines (drop (length (fgets_bytes bytes)) bytes) es w1 = (Some es', w')"
        by (simp add: manifest_lines.simps [of bytes] Let_def)
      from 1(1) [OF call [symmetric] refl ok False refl l None this 1(4)] show ?thesis .
    next
      case (Some e)
      with 1(3) call ok False l have
        rest: "manifest_lines (drop (length (fgets_bytes bytes)) bytes) (es @ [e]) w1 = (Some es', w')"
        by (simp add: manifest_lines.simps [of bytes] Let_def)
      have "\<forall>e \<in> set (es @ [e]). fields_ok e"
        using 1(4) manifest_line_fields l Some by auto
      from 1(2) [OF call [symmetric] refl ok False refl l Some rest this] show ?thesis .
    qed
  qed
qed

lemma load_manifest_fields:
  assumes "load_manifest path w = (Some m, w')"
  shows "\<forall>e \<in> set (m_entries m). fields_ok e"
proof -
  obtain f w1 es w2 where "fopen path w = (Some f, w1)" "manifest_lines (f_data f) [] w1 = (Some es, w2)" "m_entries m = es"
    using assms by (auto simp: load_manifest_def Let_def split: prod.splits option.splits if_splits)
  with manifest_lines_fields [of "f_data f" "[]" w1 es w2] show ?thesis
    by simp
qed

text \<open>The bytes of the entries that the checksum of a manifest is taken over.\<close>

definition manifest_raw :: "manifest_entry \<Rightarrow> u8 list" where
  "manifest_raw e = write_u32_le (me_id e) @ c_bytes (me_filename e) @ c_bytes (me_symbol e) @ c_bytes (me_name e)"

lemma manifest_crc_raw: "manifest_logical_crc es = crc32_bytes (concat (map manifest_raw es))"
proof -
  have "foldl (\<lambda>crc e. crc32_update crc (manifest_raw e)) crc es = crc32_update crc (concat (map manifest_raw es))" for crc
    by (induction es arbitrary: crc) (simp_all add: crc32_update_append crc32_update_Nil)
  then show ?thesis
    unfolding manifest_logical_crc_def crc32_bytes_eq_tool tool_crc32_bytes_def
    by (simp add: manifest_raw_def crc32_update_append)
qed

end
