(* ===== verification/Image_Pack.thy ===== *)
theory Image_Pack
  imports Tool_Files
begin

text \<open>
  Packing an image (tools/ps2_irximg.c): the payloads in memory, what is written, and that the
  written file is the image the modules specify. Memory and streams are released whatever call
  fails.
\<close>

subsection \<open>The payloads in memory\<close>

definition payload_path :: "string \<Rightarrow> manifest_entry \<Rightarrow> string" where
  "payload_path dir_path e = the (build_payload_path dir_path (me_filename e))"

text \<open>The contents of the files a manifest names, and that they can be read.\<close>

definition module_files :: "(string \<Rightarrow> u8 list option) \<Rightarrow> string \<Rightarrow> manifest_entry list \<Rightarrow> u8 list list" where
  "module_files fs dir_path es = map (\<lambda>e. the (fs (payload_path dir_path e))) es"

definition modules_there :: "(string \<Rightarrow> u8 list option) \<Rightarrow> string \<Rightarrow> manifest_entry list \<Rightarrow> bool" where
  "modules_there fs dir_path es \<longleftrightarrow>
     (\<forall>e \<in> set es. build_payload_path dir_path (me_filename e) \<noteq> None \<and>
        (\<exists>bytes. fs (payload_path dir_path e) = Some bytes \<and> bytes \<noteq> []))"

text \<open>Payloads with these contents, placed from an offset on.\<close>

fun stored :: "(nat \<Rightarrow> u8 list option) \<Rightarrow> nat \<Rightarrow> payload_file list \<Rightarrow> u8 list list \<Rightarrow> bool" where
  "stored h c [] [] \<longleftrightarrow> True"
| "stored h c (p # ps) (d # ds) \<longleftrightarrow>
     h (p_data p) = Some d \<and> p_size p = of_nat (length d) \<and> p_crc32 p = crc32_bytes d \<and> p_offset p = of_nat c \<and>
     stored h (up16 (c + length d)) ps ds"
| "stored h c _ _ \<longleftrightarrow> False"

lemma stored_same:
  "stored h c ps ds \<Longrightarrow> \<forall>p \<in> set ps. h' (p_data p) = h (p_data p) \<Longrightarrow> stored h' c ps ds"
  by (induction h c ps ds rule: stored.induct) auto

lemma free_payloads_result:
  assumes "heap_wf w" "distinct (map p_data ps)" "\<forall>p \<in> set ps. p_data p \<noteq> 0 \<and> heap w (p_data p) \<noteq> None"
  shows "evolves w (free_payloads ps w) \<and> heap_wf (free_payloads ps w) \<and> brk (free_payloads ps w) = brk w \<and>
    heap (free_payloads ps w) = (\<lambda>a. if a \<in> p_data ` set ps then None else heap w a)"
proof -
  have eq: "free_payloads ps w = fold free (map p_data ps) w"
    by (simp add: free_payloads_def fold_map comp_def)
  show ?thesis
    unfolding eq using fold_free_live [OF assms(1), of "map p_data ps"] assms(2,3)
    by (simp add: distinct_filter)
qed

lemma align_step:
  assumes "length d \<noteq> 0" "\<not> of_nat (length d) > UINT32_MAX - c" "length d \<le> 4294967295"
    and "up16 (unat c + length d) < 4294967296"
  shows "unat (align_up_u32 (c + of_nat (length d)) IRXIMG_ALIGNMENT) = up16 (unat c + length d)"
proof -
  have d: "unat (of_nat (length d) :: u32) = length d"
    using assms(3) by (intro unat_of_nat_u32) simp
  have "unat c + length d \<le> 4294967280"
    using assms(4) by (simp add: up16_less)
  then have "unat (c + of_nat (length d)) = unat c + length d"
    using d by (simp add: unat_add_u32)
  then show ?thesis
    using \<open>unat c + length d \<le> 4294967280\<close> by (simp add: unat_align_up)
qed

lemma too_large_iff:
  assumes "length d \<le> 4294967295"
  shows "of_nat (length d) > UINT32_MAX - c \<longleftrightarrow> 4294967295 < unat c + length d"
proof -
  have "unat (of_nat (length d) :: u32) = length d"
    using assms by (intro unat_of_nat_u32) simp
  moreover have "unat (UINT32_MAX - c) = 4294967295 - unat c"
    using unat_sub_u32 [of c UINT32_MAX] unat_u32_less [of c] by (simp add: UINT32_MAX_def word_le_nat_alt)
  ultimately show ?thesis
    unfolding word_less_nat_alt using unat_u32_less [of c] by linarith
qed

text \<open>What reading the modules of a manifest does, from the payloads read so far on.\<close>

definition payloads_read ::
  "string \<Rightarrow> manifest_entry list \<Rightarrow> payload_file list \<Rightarrow> u32 \<Rightarrow> tool_world \<Rightarrow>
   (payload_file list \<times> u32) option \<Rightarrow> tool_world \<Rightarrow> bool" where
  "payloads_read dir_path es ps c w r w' \<longleftrightarrow>
     evolves w w' \<and> heap_wf w' \<and>
     (let ds = module_files (files w) dir_path es; end_offset = snd (place (unat c) ds) in
      case r of
        None \<Rightarrow> heap w' = (\<lambda>a. if a \<in> p_data ` set ps then None else heap w a) \<and>
          \<not> (all_succeed w \<and> modules_there (files w) dir_path es \<and> end_offset < 4294967296)
      | Some (qs, c') \<Rightarrow> \<exists>new. qs = ps @ new \<and> map p_data new = [brk w ..< brk w + length es] \<and>
          (\<forall>a < brk w. heap w' a = heap w a) \<and> (\<forall>p \<in> set new. heap w' (p_data p) \<noteq> None) \<and>
          brk w' = brk w + length es \<and> modules_there (files w) dir_path es \<and>
          (end_offset < 4294967296 \<longrightarrow> stored (heap w') (unat c) new ds \<and> unat c' = end_offset))"

text \<open>The payloads read so far: live blocks, all different.\<close>

definition payloads_live :: "payload_file list \<Rightarrow> tool_world \<Rightarrow> bool" where
  "payloads_live ps w \<longleftrightarrow> heap_wf w \<and> distinct (map p_data ps) \<and>
     (\<forall>p \<in> set ps. p_data p \<noteq> 0 \<and> heap w (p_data p) \<noteq> None)"

lemma free_live_payloads:
  "payloads_live ps w \<Longrightarrow> evolves w (free_payloads ps w) \<and> heap_wf (free_payloads ps w) \<and>
    heap (free_payloads ps w) = (\<lambda>a. if a \<in> p_data ` set ps then None else heap w a)"
  using free_payloads_result [of w ps] by (simp add: payloads_live_def)

lemma payloads_below: "payloads_live ps w \<Longrightarrow> p \<in> set ps \<Longrightarrow> p_data p < brk w"
  using heap_wf_fresh [of w "p_data p"] by (force simp: payloads_live_def not_less)

lemma first_module_size:
  assumes "fs (payload_path dir_path e) = Some bytes"
  shows "module_files fs dir_path (e # es) = bytes # module_files fs dir_path es"
    and "c + length bytes \<le> snd (place c (module_files fs dir_path (e # es)))"
proof -
  show step: "module_files fs dir_path (e # es) = bytes # module_files fs dir_path es"
    using assms by (simp add: module_files_def)
  show "c + length bytes \<le> snd (place c (module_files fs dir_path (e # es)))"
    unfolding step
    using place_mono [of "up16 (c + length bytes)" "module_files fs dir_path es"] up16_le(1) [of "c + length bytes"]
    by (simp add: case_prod_unfold Let_def)
qed

text \<open>A file that cannot be read ends the loop; everything read so far is freed.\<close>

lemma payloads_read_no_file:
  assumes "payloads_live ps w" "build_payload_path dir_path (me_filename e) \<noteq> None"
    and "read_file (payload_path dir_path e) w = (None, w1)"
  shows "payloads_read dir_path (e # es) ps c w None (free_payloads ps w1)"
proof -
  have res: "evolves w w1" "heap_wf w1" "heap w1 = heap w"
      "all_succeed w \<longrightarrow> (\<forall>bytes. files w (payload_path dir_path e) = Some bytes \<longrightarrow> bytes = [] \<or> 4294967295 < length bytes)"
    using read_file_result [OF assms(3)] assms(1) by (simp_all add: payloads_live_def)
  have "\<not> (all_succeed w \<and> modules_there (files w) dir_path (e # es) \<and>
      snd (place (unat c) (module_files (files w) dir_path (e # es))) < 4294967296)"
  proof
    assume a: "all_succeed w \<and> modules_there (files w) dir_path (e # es) \<and>
      snd (place (unat c) (module_files (files w) dir_path (e # es))) < 4294967296"
    then obtain bytes where b: "files w (payload_path dir_path e) = Some bytes" "bytes \<noteq> []"
      by (auto simp: modules_there_def)
    with first_module_size(2) [of "files w" dir_path e bytes "unat c" es] a res(4) show False
      by fastforce
  qed
  moreover have "payloads_live ps w1"
    using assms(1) res by (simp add: payloads_live_def)
  ultimately show ?thesis
    using free_live_payloads [of ps w1] res by (auto simp: payloads_read_def Let_def intro: evolves_trans)
qed

text \<open>A file that is read is the next payload.\<close>

lemma payloads_live_next:
  assumes "payloads_live ps w" "read_file path w = (Some (a, n), w1)" "p_data p = a"
  shows "payloads_live (ps @ [p]) w1"
proof -
  obtain bytes where "heap w1 = (heap w)(a \<mapsto> bytes)" "a = brk w" "heap_wf w1"
    using read_file_result [OF assms(2)] assms(1) by (auto simp: payloads_live_def)
  with assms payloads_below [OF assms(1)] show ?thesis
    by (auto simp: payloads_live_def heap_wf_def)
qed

lemma payloads_read_next:
  fixes a n c w1
  defines "p \<equiv> \<lparr>p_data = a, p_size = n, p_crc32 = tool_crc32_bytes (the (heap w1 a)), p_offset = c\<rparr>"
  assumes "payloads_live ps w" "build_payload_path dir_path (me_filename e) \<noteq> None"
    and "read_file (payload_path dir_path e) w = (Some (a, n), w1)"
    and "\<not> n > UINT32_MAX - c"
    and "payloads_read dir_path es (ps @ [p]) (align_up_u32 (c + n) IRXIMG_ALIGNMENT) w1 r w'"
  shows "payloads_read dir_path (e # es) ps c w r w'"
proof -
  obtain bytes where b: "files w (payload_path dir_path e) = Some bytes" "bytes \<noteq> []" "length bytes \<le> 4294967295"
      "n = of_nat (length bytes)" "heap w1 = (heap w)(a \<mapsto> bytes)" "a = brk w" "brk w1 = Suc a"
      "evolves w w1" "heap_wf w1" "heap w a = None"
    using read_file_result [OF assms(4)] assms(2) by (auto simp: payloads_live_def heap_wf_fresh)
  have fs: "files w1 = files w" and suc: "all_succeed w \<longrightarrow> all_succeed w1"
    using evolves_fields [OF b(8)] by simp_all
  define ds where "ds = module_files (files w) dir_path es"
  let ?c = "align_up_u32 (c + n) IRXIMG_ALIGNMENT"
  have ds: "module_files (files w) dir_path (e # es) = bytes # ds"
    using first_module_size(1) [of "files w" dir_path e bytes es] b(1) by (simp add: ds_def)
  have next_offset: "unat ?c = up16 (unat c + length bytes)" if "snd (place (unat c) (bytes # ds)) < 4294967296"
    unfolding b(4)
    using that b(2,3,4) assms(5) place_mono [of "up16 (unat c + length bytes)" ds]
    by (intro align_step) (auto simp: case_prod_unfold Let_def)
  have there: "modules_there (files w) dir_path (e # es) \<longleftrightarrow> modules_there (files w) dir_path es"
    using assms(3) b(1,2) by (simp add: modules_there_def)
  have tail: "snd (place (unat c) (bytes # ds)) = snd (place (up16 (unat c + length bytes)) ds)"
    by (simp add: case_prod_unfold Let_def)
  note R = assms(6) [unfolded payloads_read_def fs ds_def [symmetric] Let_def]
  show ?thesis
  proof (cases r)
    case None
    then show ?thesis
      using R b(5,8,10) suc next_offset there
      by (auto simp: payloads_read_def Let_def ds tail p_def fun_eq_iff simp del: place.simps intro: evolves_trans)
  next
    case (Some qc)
    obtain qs c' where r: "r = Some (qs, c')"
      using Some by (cases qc) auto
    with R obtain new where new: "qs = (ps @ [p]) @ new" "map p_data new = [brk w1 ..< brk w1 + length es]"
        "\<forall>a < brk w1. heap w' a = heap w1 a" "\<forall>p \<in> set new. heap w' (p_data p) \<noteq> None"
        "brk w' = brk w1 + length es" "modules_there (files w) dir_path es" "evolves w1 w'" "heap_wf w'"
        "snd (place (unat ?c) ds) < 4294967296 \<longrightarrow> stored (heap w') (unat ?c) new ds \<and> unat c' = snd (place (unat ?c) ds)"
      by auto
    have block: "heap w' a = Some bytes"
      using new(3) b(5,6,7) by simp
    show ?thesis
      unfolding payloads_read_def r ds Let_def option.case prod.case
    proof (intro conjI exI [of _ "p # new"] impI)
      show "evolves w w'" "heap_wf w'"
        using b(8) new(7,8) by (auto intro: evolves_trans)
      show "qs = ps @ p # new"
        using new(1) by simp
      show "map p_data (p # new) = [brk w ..< brk w + length (e # es)]"
        using new(2) b(6,7) upt_rec [of "brk w" "brk w + length (e # es)"] by (simp add: p_def del: upt_Suc)
      show "\<forall>a < brk w. heap w' a = heap w a" "\<forall>p \<in> set (p # new). heap w' (p_data p) \<noteq> None"
        using new(3,4) b(5,6,7) block by (auto simp: p_def)
      show "brk w' = brk w + length (e # es)" "modules_there (files w) dir_path (e # es)"
        using new(5,6) b(6,7) there by simp_all
      assume "snd (place (unat c) (bytes # ds)) < 4294967296"
      with new(9) next_offset tail block b(4,5)
      show "stored (heap w') (unat c) (p # new) (bytes # ds)" "unat c' = snd (place (unat c) (bytes # ds))"
        by (auto simp: p_def crc32_bytes_eq_tool)
    qed
  qed
qed

lemma payloads_read_too_large:
  fixes a n c w1
  defines "p \<equiv> \<lparr>p_data = a, p_size = n, p_crc32 = tool_crc32_bytes (the (heap w1 a)), p_offset = c\<rparr>"
  assumes "payloads_live ps w"
    and "read_file (payload_path dir_path e) w = (Some (a, n), w1)"
    and "n > UINT32_MAX - c"
  shows "payloads_read dir_path (e # es) ps c w None (free_payloads (ps @ [p]) w1)"
proof -
  obtain bytes where b: "files w (payload_path dir_path e) = Some bytes" "length bytes \<le> 4294967295"
      "n = of_nat (length bytes)" "heap w1 = (heap w)(a \<mapsto> bytes)" "a = brk w" "evolves w w1" "heap_wf w1"
    using read_file_result [OF assms(3)] assms(2) by (auto simp: payloads_live_def)
  have "4294967295 < unat c + length bytes"
    using too_large_iff [OF b(2), of c] assms(4) b(3) by simp
  then have "\<not> snd (place (unat c) (module_files (files w) dir_path (e # es))) < 4294967296"
    using first_module_size(2) [of "files w" dir_path e bytes "unat c" es] b(1) by simp
  moreover have "payloads_live (ps @ [p]) w1"
    using assms(2,3) by (rule payloads_live_next) (simp add: p_def)
  moreover have "heap w a = None"
    using assms(2) b(5) by (simp add: payloads_live_def heap_wf_fresh)
  ultimately show ?thesis
    using free_live_payloads [of "ps @ [p]" w1] b
    by (auto simp: payloads_read_def Let_def p_def intro: evolves_trans)
qed

lemma read_payloads_result:
  "read_payloads dir_path es ps c w = (r, w') \<Longrightarrow> payloads_live ps w \<Longrightarrow> payloads_read dir_path es ps c w r w'"
proof (induction es arbitrary: ps c w)
  case Nil
  then show ?case
    by (auto simp: module_files_def modules_there_def payloads_read_def payloads_live_def)
next
  case (Cons e es)
  show ?case
  proof (cases "build_payload_path dir_path (me_filename e)")
    case None
    with Cons.prems free_live_payloads [OF Cons.prems(2)] show ?thesis
      by (auto simp: modules_there_def payloads_read_def Let_def)
  next
    case (Some path)
    then have path: "build_payload_path dir_path (me_filename e) \<noteq> None" "path = payload_path dir_path e"
      by (simp_all add: payload_path_def)
    obtain q w1 where rd: "read_file (payload_path dir_path e) w = (q, w1)" by fastforce
    show ?thesis
    proof (cases q)
      case None
      with payloads_read_no_file [OF Cons.prems(2) path(1)] rd Cons.prems(1) Some path(2) show ?thesis
        by auto
    next
      case (Some an)
      then obtain a n where an: "read_file (payload_path dir_path e) w = (Some (a, n), w1)"
        using rd by (cases an) auto
      let ?p = "\<lparr>p_data = a, p_size = n, p_crc32 = tool_crc32_bytes (the (heap w1 a)), p_offset = c\<rparr>"
      have run: "(r, w') = (if n > UINT32_MAX - c then (None, free_payloads (ps @ [?p]) w1)
          else read_payloads dir_path es (ps @ [?p]) (align_up_u32 (c + n) IRXIMG_ALIGNMENT) w1)"
        unfolding Cons.prems(1) [symmetric]
        by (simp add: \<open>build_payload_path dir_path (me_filename e) = Some path\<close> path(2) an Let_def)
      have live: "payloads_live (ps @ [?p]) w1"
        by (rule payloads_live_next [OF Cons.prems(2) an]) simp
      show ?thesis
      proof (cases "n > UINT32_MAX - c")
        case True
        with payloads_read_too_large [OF Cons.prems(2) an] run show ?thesis
          by simp
      next
        case False
        then have "payloads_read dir_path es (ps @ [?p]) (align_up_u32 (c + n) IRXIMG_ALIGNMENT) w1 r w'"
          using run by (intro Cons.IH live) simp
        with payloads_read_next [OF Cons.prems(2) path(1) an False] show ?thesis
          by simp
      qed
    qed
  qed
qed

subsection \<open>Writing\<close>

text \<open>Only the output file is touched; and when the call succeeds the bytes are at its end.\<close>

definition wrote :: "string \<Rightarrow> u8 list \<Rightarrow> tool_world \<Rightarrow> bool \<Rightarrow> tool_world \<Rightarrow> bool" where
  "wrote out bytes w ok w' \<longleftrightarrow>
     heap w' = heap w \<and> brk w' = brk w \<and> opened w' = opened w \<and> ub w' = ub w \<and>
     (\<forall>p. p \<noteq> out \<longrightarrow> files w' p = files w p) \<and>
     (all_succeed w \<longrightarrow> ok \<and> all_succeed w') \<and>
     (ok \<longrightarrow> files w' out = map_option (\<lambda>old. old @ bytes) (files w out))"

lemma wrote_nothing: "wrote out [] w True w"
  by (cases "files w out") (simp_all add: wrote_def)

lemma wrote_then:
  "wrote out xs w True w1 \<Longrightarrow> wrote out ys w1 ok w' \<Longrightarrow> wrote out (xs @ ys) w ok w'"
  by (auto simp: wrote_def option.map_comp comp_def)

lemma wrote_failed: "wrote out xs w False w1 \<Longrightarrow> wrote out ys w False w1"
  by (auto simp: wrote_def)

lemma fwrite_wrote: "fwrite out bytes w = (ok, w') \<Longrightarrow> wrote out bytes w ok w'"
  by (auto simp: fwrite_def wrote_def calls_only_def all_succeed_def dest!: next_call_calls
      split: prod.splits if_splits)

lemma write_zeros_wrote: "write_zeros out n w = (ok, w') \<Longrightarrow> wrote out (replicate n 0) w ok w'"
proof (induction out n w arbitrary: ok w' rule: write_zeros.induct)
  case (1 out n w)
  show ?case
  proof (cases "n = 0")
    case True
    then show ?thesis
      using 1(2) by (simp add: write_zeros.simps [of out] wrote_nothing)
  next
    case False
    let ?chunk = "if n > 64 then 64 else n"
    obtain ok1 w1 where f: "fwrite out (replicate ?chunk 0) w = (ok1, w1)" by fastforce
    note wr = fwrite_wrote [OF f]
    show ?thesis
    proof (cases ok1)
      case False
      then show ?thesis
        using 1(2) \<open>n \<noteq> 0\<close> f wrote_failed [of out _ w w1] wr by (auto simp: write_zeros.simps [of out n])
    next
      case True
      then have rest: "write_zeros out (n - ?chunk) w1 = (ok, w')"
        using 1(2) False f by (simp add: write_zeros.simps [of out n])
      have "wrote out (replicate (n - ?chunk) 0) w1 ok w'"
        using 1(1) [OF False refl f [symmetric] refl _ rest] True by simp
      with wr True have "wrote out (replicate ?chunk 0 @ replicate (n - ?chunk) 0) w ok w'"
        by (simp only: wrote_then)
      moreover have "replicate ?chunk 0 @ replicate (n - ?chunk) 0 = replicate n (0 :: u8)"
        by (simp flip: replicate_add)
      ultimately show ?thesis
        by (simp only:)
    qed
  qed
qed

lemma write_entries_wrote:
  "write_entries out xs w = (ok, w') \<Longrightarrow> wrote out (concat (map (\<lambda>(e, p). entry_bytes (me_id e) p) xs)) w ok w'"
proof (induction out xs w arbitrary: ok w' rule: write_entries.induct)
  case (1 out w)
  then show ?case by (simp add: wrote_nothing)
next
  case (2 out e p rest w)
  obtain ok1 w1 where f: "fwrite out (entry_bytes (me_id e) p) w = (ok1, w1)" by fastforce
  note wr = fwrite_wrote [OF f]
  show ?case
  proof (cases ok1)
    case False
    then show ?thesis
      using 2(2) f wr by (auto intro: wrote_failed)
  next
    case True
    with 2(1) [OF f [symmetric] refl, of ok w'] 2(2) f wr show ?thesis
      by (auto intro: wrote_then)
  qed
qed

text \<open>The padding behind a payload, as the tool computes it.\<close>

definition padding :: "payload_file \<Rightarrow> nat" where
  "padding p = unat (align_up_u32 (p_offset p + p_size p) IRXIMG_ALIGNMENT - (p_offset p + p_size p))"

lemma write_payloads_wrote:
  "write_payloads out ps w = (ok, w') \<Longrightarrow>
    wrote out (concat (map (\<lambda>p. the (heap w (p_data p)) @ replicate (padding p) 0) ps)) w ok w'"
proof (induction out ps w arbitrary: ok w' rule: write_payloads.induct)
  case (1 out w)
  then show ?case by (simp add: wrote_nothing)
next
  case (2 out p rest w)
  let ?d = "the (heap w (p_data p))"
  obtain ok1 w1 where f: "fwrite out ?d w = (ok1, w1)" by fastforce
  note wr1 = fwrite_wrote [OF f]
  obtain ok2 w2 where z: "write_zeros out (padding p) w1 = (ok2, w2)" by fastforce
  note wr2 = write_zeros_wrote [OF z]
  show ?case
  proof (cases "ok1 \<and> ok2")
    case False
    then have "ok = False \<and> (\<not> ok1 \<and> w' = w1 \<or> ok1 \<and> w' = w2)"
      using 2(2) f z by (auto simp: Let_def padding_def split: if_splits)
    then show ?thesis
      using wr1 wr2 False wrote_failed [of out _ w w1] wrote_then [OF _ wrote_failed, of out _ w w1 _ w2] by auto
  next
    case True
    have "heap w2 = heap w"
      using wr1 wr2 by (simp add: wrote_def)
    moreover have "write_payloads out rest w2 = (ok, w')"
      using 2(2) f z True by (simp add: Let_def padding_def)
    ultimately have "wrote out (concat (map (\<lambda>p. the (heap w (p_data p)) @ replicate (padding p) 0) rest)) w2 ok w'"
      using 2(1) [OF refl refl f [symmetric] refl _ z [unfolded padding_def, symmetric] refl, of ok w'] True by simp
    with wr1 wr2 True show ?thesis
      by (simp add: wrote_then)
  qed
qed

lemma write_image_wrote:
  assumes "write_image out m ps po fs w = (ok, w')"
    and "po \<ge> 44 + of_nat (length (m_entries m)) * 20"
  shows "wrote out (image_header (of_nat (length (m_entries m))) po fs (m_crc32 m) @
      concat (map (\<lambda>(e, p). entry_bytes (me_id e) p) (zip (m_entries m) ps)) @
      replicate (unat (po - (44 + of_nat (length (m_entries m)) * 20))) 0 @
      concat (map (\<lambda>p. the (heap w (p_data p)) @ replicate (padding p) 0) ps)) w ok w'"
proof -
  let ?n = "of_nat (length (m_entries m)) :: u32"
  obtain ok1 w1 where f1: "fwrite out (image_header ?n po fs (m_crc32 m)) w = (ok1, w1)" by fastforce
  obtain ok2 w2 where f2: "write_entries out (zip (m_entries m) ps) w1 = (ok2, w2)" by fastforce
  obtain ok3 w3 where f3: "write_zeros out (unat (po - (44 + ?n * 20))) w2 = (ok3, w3)" by fastforce
  obtain ok4 w4 where f4: "write_payloads out ps w3 = (ok4, w4)" by fastforce
  note wr = fwrite_wrote [OF f1] write_entries_wrote [OF f2] write_zeros_wrote [OF f3] write_payloads_wrote [OF f4]
  have "heap w3 = heap w"
    using wr by (simp add: wrote_def)
  note wr4 = wr(4) [unfolded this]
  have run: "(ok, w') = (if \<not> ok1 then (False, w1) else if \<not> ok2 then (False, w2)
      else if \<not> ok3 then (False, w3) else (ok4, w4))"
    unfolding assms(1) [symmetric] using assms(2)
    by (simp add: write_image_def format_defs f1 f2 f3 f4 not_less [symmetric] cong: if_cong)
  show ?thesis
    using run wr(1-3) wr4
    by (cases ok1; cases ok2; cases ok3) (auto intro: wrote_failed wrote_then)
qed

subsection \<open>The bytes of the image\<close>

lemma stored_length: "stored h c ps ds \<Longrightarrow> length ps = length ds"
  by (induction h c ps ds rule: stored.induct) auto

lemma stored_entries:
  "stored h c ps ds \<Longrightarrow> length es = length ds \<Longrightarrow>
    concat (map (\<lambda>(e, p). entry_bytes (me_id e) p) (zip es ps)) =
    concat (map entry_raw (payload_entries c (zip (map me_id es) ds)))"
proof (induction h c ps ds arbitrary: es rule: stored.induct)
  case (2 h c p ps d ds)
  then obtain e es' where es: "es = e # es'" "length es' = length ds"
    by (cases es) auto
  have "entry_bytes (me_id e) p = entry_raw (payload_entry (me_id e) c d)"
    using 2(2) by (simp add: entry_bytes_def entry_raw_def payload_entry_def)
  with 2 es show ?case
    by simp
qed simp_all

lemma padding_stored:
  assumes "p_offset p = of_nat c" "p_size p = of_nat (length d)" "up16 (c + length d) < 4294967296"
  shows "padding p = up16 (c + length d) - (c + length d)"
proof -
  let ?x = "p_offset p + p_size p"
  have le: "c + length d \<le> 4294967280"
    using assms(3) by (simp add: up16_less)
  moreover have "?x = of_nat (c + length d)"
    using assms(1,2) by simp
  ultimately have x: "unat ?x = c + length d"
    using unat_of_nat_u32 [of "c + length d"] by simp
  then have a: "unat (align_up_u32 ?x IRXIMG_ALIGNMENT) = up16 (c + length d)"
    using le by (simp add: unat_align_up)
  then have "?x \<le> align_up_u32 ?x IRXIMG_ALIGNMENT"
    using x up16_le(1) [of "c + length d"] by (simp add: word_le_nat_alt)
  then show ?thesis
    using a x by (simp add: padding_def unat_sub_u32)
qed

lemma stored_area:
  "stored h c ps ds \<Longrightarrow> snd (place c ds) < 4294967296 \<Longrightarrow>
    concat (map (\<lambda>p. the (h (p_data p)) @ replicate (padding p) 0) ps) = payload_area c ds"
proof (induction h c ps ds rule: stored.induct)
  case (2 h c p ps d ds)
  have small: "snd (place (up16 (c + length d)) ds) < 4294967296"
    using 2(3) by (simp add: case_prod_unfold Let_def)
  then have "padding p = up16 (c + length d) - (c + length d)"
    using 2(2) place_mono [of "up16 (c + length d)" ds] by (intro padding_stored) auto
  with 2 small show ?case
    by simp
qed simp_all

lemma unat_payload_start:
  assumes "n \<le> 128"
  shows "unat (align_up_u32 (44 + of_nat n * 20) IRXIMG_ALIGNMENT) = payload_start n"
    and "unat (44 + of_nat n * 20 :: u32) = 44 + 20 * n"
proof -
  have n: "unat (of_nat n :: u32) = n"
    using assms by (intro unat_of_nat_u32) simp
  then show u: "unat (44 + of_nat n * 20 :: u32) = 44 + 20 * n"
    using assms by (simp add: unat_add_u32 unat_mult_u32)
  show "unat (align_up_u32 (44 + of_nat n * 20) IRXIMG_ALIGNMENT) = payload_start n"
    using u assms by (simp add: unat_align_up payload_start_def)
qed

lemma u32_of_unat: "unat (a :: u32) = n \<Longrightarrow> a = of_nat n"
  by auto

text \<open>
  Packing. Only the output file changes, all memory is released and all streams are closed. When
  the image stays below 4 GiB, the written file is the image of the manifest's modules, and
  without failing calls it is written whenever the modules are there.
\<close>

definition packed ::
  "(string \<Rightarrow> u8 list option) \<Rightarrow> string \<Rightarrow> manifest_entry list \<Rightarrow> (u32 \<times> u8 list) list" where
  "packed fs dir_path es = zip (map me_id es) (module_files fs dir_path es)"

definition only_wrote :: "string \<Rightarrow> tool_world \<Rightarrow> tool_world \<Rightarrow> bool" where
  "only_wrote out w w' \<longleftrightarrow> heap w' = heap w \<and> opened w' = opened w \<and> ub w' = ub w \<and>
     (\<forall>p. p \<noteq> out \<longrightarrow> files w' p = files w p) \<and> (all_succeed w \<longrightarrow> all_succeed w')"

lemma evolves_only_wrote: "evolves w w' \<Longrightarrow> heap w' = heap w \<Longrightarrow> only_wrote out w w'"
  by (simp add: evolves_def only_wrote_def)

lemma only_wrote_trans: "only_wrote out w w1 \<Longrightarrow> only_wrote out w1 w' \<Longrightarrow> only_wrote out w w'"
  by (auto simp: only_wrote_def)

lemma payloads_read_live:
  assumes "payloads_read dir_path es [] c w (Some (ps, fsz)) w2" "heap_wf w"
    and "heap v = heap w2" "brk v = brk w2"
  shows "payloads_live ps v" and "heap (free_payloads ps v) = heap w"
proof -
  have R: "map p_data ps = [brk w ..< brk w + length es]" "\<forall>a < brk w. heap w2 a = heap w a"
      "\<forall>p \<in> set ps. heap w2 (p_data p) \<noteq> None" "brk w2 = brk w + length es" "heap_wf w2"
    using assms(1) by (auto simp: payloads_read_def Let_def)
  have addr: "p_data ` set ps = {brk w ..< brk w2}"
    using R(1,4) by (metis image_set set_upt)
  have "0 \<notin> p_data ` set ps"
    unfolding addr using assms(2) by (simp add: heap_wf_def)
  then have "\<forall>p \<in> set ps. p_data p \<noteq> 0"
    by (metis imageI)
  moreover have "heap_wf v"
    using R(5) assms(3,4) by (simp add: heap_wf_def)
  moreover have "distinct (map p_data ps)"
    unfolding R(1) by simp
  ultimately show live: "payloads_live ps v"
    using R(3) assms(3) by (simp add: payloads_live_def)
  have "(if a \<in> p_data ` set ps then None else heap v a) = heap w a" for a
  proof (cases "a < brk w")
    case True
    then show ?thesis
      using R(2) assms(3) by (auto simp: addr)
  next
    case False
    then have "heap w a = None"
      using assms(2) by (simp add: heap_wf_fresh)
    moreover have "heap v a = None" if "\<not> a < brk w2"
      using that R(5) assms(3) by (simp add: heap_wf_fresh)
    ultimately show ?thesis
      using False by (auto simp: addr)
  qed
  then show "heap (free_payloads ps v) = heap w"
    using free_live_payloads [OF live] by auto
qed

text \<open>From the payloads in memory on.\<close>

lemma pack_tail:
  assumes "payloads_read dir_path (m_entries m) [] po w (Some (ps, fsz)) w2" "heap_wf w"
    and "po \<ge> 44 + of_nat (length (m_entries m)) * 20"
    and "create_file out w2 = (ok3, w3)" "write_image out m ps po fsz w3 = (ok4, w4)" "close_file w4 = (ok5, w5)"
    and "w' = free_payloads ps (if \<not> ok3 then w3 else if \<not> ok4 then fclose w4 else w5)"
  shows "only_wrote out w w' \<and> (all_succeed w \<longrightarrow> ok3 \<and> ok4 \<and> ok5) \<and>
    (ok3 \<and> ok4 \<longrightarrow> files w' out = Some (image_header (of_nat (length (m_entries m))) po fsz (m_crc32 m) @
      concat (map (\<lambda>(e, p). entry_bytes (me_id e) p) (zip (m_entries m) ps)) @
      replicate (unat (po - (44 + of_nat (length (m_entries m)) * 20))) 0 @
      concat (map (\<lambda>p. the (heap w2 (p_data p)) @ replicate (padding p) 0) ps)))"
proof -
  let ?v = "if \<not> ok3 then w3 else if \<not> ok4 then fclose w4 else w5"
  note wr = write_image_wrote [OF assms(5,3)]
  have e2: "evolves w w2"
    using assms(1) by (simp add: payloads_read_def)
  have c3: "heap w3 = heap w2 \<and> brk w3 = brk w2 \<and> ub w3 = ub w2 \<and> (\<forall>p. p \<noteq> out \<longrightarrow> files w3 p = files w2 p) \<and>
      opened w3 = (if ok3 then Suc (opened w2) else opened w2) \<and> (all_succeed w2 \<longrightarrow> ok3 \<and> all_succeed w3) \<and>
      (ok3 \<longrightarrow> files w3 out = Some [])"
    using assms(4) by (auto simp: create_file_def calls_only_def all_succeed_def dest!: next_call_calls
        split: prod.splits if_splits)
  have c5: "heap w5 = heap w4 \<and> brk w5 = brk w4 \<and> ub w5 = ub w4 \<and> files w5 = files w4 \<and> opened w5 = opened w4 - 1 \<and>
      (all_succeed w4 \<longrightarrow> ok5 \<and> all_succeed w5)"
    using assms(6) by (auto simp: close_file_def fclose_def calls_only_def all_succeed_def dest!: next_call_calls
        split: prod.splits)
  have v: "heap ?v = heap w2" "brk ?v = brk w2" "ub ?v = ub w" "opened ?v = opened w"
      "\<forall>p. p \<noteq> out \<longrightarrow> files ?v p = files w p" "all_succeed w \<longrightarrow> ok3 \<and> ok4 \<and> ok5 \<and> all_succeed ?v"
    using c3 c5 wr evolves_fields [OF e2] by (auto simp: wrote_def fclose_def all_succeed_def)
  note live = payloads_read_live [OF assms(1,2) v(1,2)]
  have free: "evolves ?v w'" "heap w' = heap w"
    using free_live_payloads [OF live(1)] live(2) assms(7) by simp_all
  have "files w' = files ?v"
    using evolves_fields [OF free(1)] by simp
  moreover have "ok3 \<and> ok4 \<longrightarrow> files ?v out = files w4 out"
    using c5 by simp
  moreover have "only_wrote out w w'"
    using free v evolves_fields [OF free(1)] by (auto simp: only_wrote_def)
  ultimately show ?thesis
    using v(6) wr c3 by (auto simp: wrote_def)
qed

lemma written_image:
  assumes "stored h (payload_start (length es)) ps ds" "length ds = length es"
    and "unat po = payload_start (length es)" "unat fsz = snd (place (payload_start (length es)) ds)"
    and "length es \<le> 128"
  shows "image_header (of_nat (length es)) po fsz crc @
      concat (map (\<lambda>(e, p). entry_bytes (me_id e) p) (zip es ps)) @
      replicate (unat (po - (44 + of_nat (length es) * 20))) 0 @
      concat (map (\<lambda>p. the (h (p_data p)) @ replicate (padding p) 0) ps) =
    image_of (zip (map me_id es) ds) crc"
proof -
  have snds: "map snd (zip (map me_id es) ds) = ds" "length (zip (map me_id es) ds) = length es"
    using assms(2) by simp_all
  have "snd (place (payload_start (length es)) ds) < 4294967296"
    using assms(4) by (metis unat_u32_less)
  note area = stored_area [OF assms(1) this]
  have "44 + of_nat (length es) * 20 \<le> po"
    using unat_payload_start(2) [OF assms(5)] assms(3) payload_start_bounds(1) [of "length es"]
    by (simp add: word_le_nat_alt)
  then have pad: "unat (po - (44 + of_nat (length es) * 20)) = payload_start (length es) - (44 + 20 * length es)"
    using unat_payload_start(2) [OF assms(5)] assms(3) by (simp add: unat_sub_u32)
  have "po = of_nat (payload_start (length es))" "fsz = of_nat (snd (place (payload_start (length es)) ds))"
    by (rule u32_of_unat [OF assms(3)], rule u32_of_unat [OF assms(4)])
  then show ?thesis
    using stored_entries [OF assms(1), of es] assms(2) area pad
    by (simp add: image_of_def Let_def snds)
qed

lemma pack_image_result:
  assumes run: "pack_image mp dir_path out w = (r, w')" and wf: "heap_wf w"
  shows "only_wrote out w w' \<and> (r = 0 \<or> r = 1) \<and>
    (\<forall>m w1. load_manifest mp w = (Some m, w1) \<and> image_small (packed (files w) dir_path (m_entries m)) \<longrightarrow>
       (r = 0 \<longrightarrow> modules_there (files w) dir_path (m_entries m) \<and>
          files w' out = Some (image_of (packed (files w) dir_path (m_entries m)) (m_crc32 m))) \<and>
       (all_succeed w \<and> modules_there (files w) dir_path (m_entries m) \<longrightarrow> r = 0))"
proof -
  obtain q w1 where l: "load_manifest mp w = (q, w1)" by fastforce
  note load = load_manifest_result [OF l]
  have w1: "only_wrote out w w1" "heap_wf w1" "files w1 = files w" "all_succeed w \<longrightarrow> all_succeed w1"
    using load wf evolves_only_wrote [of w w1 out] evolves_fields [of w w1] by (auto simp: heap_wf_def)
  show ?thesis
  proof (cases q)
    case None
    then show ?thesis
      using run l w1 by (auto simp: pack_image_def)
  next
    case (Some m)
    let ?es = "m_entries m" and ?po = "align_up_u32 (44 + of_nat (length (m_entries m)) * 20) IRXIMG_ALIGNMENT"
    have ok: "manifest_ok ?es"
      using load Some by simp
    then have n: "length ?es \<le> 128"
      by (simp add: manifest_ok_def)
    have po: "unat ?po = payload_start (length ?es)" "44 + of_nat (length ?es) * 20 \<le> ?po"
      using unat_payload_start [OF n] payload_start_bounds(1) [of "length ?es"] by (simp_all add: word_le_nat_alt)
    obtain ps w2 where rd: "read_payloads dir_path ?es [] ?po w1 = (ps, w2)" by fastforce
    have pr: "payloads_read dir_path ?es [] ?po w1 ps w2"
      by (rule read_payloads_result [OF rd]) (simp add: payloads_live_def w1(2))
    have len: "length (module_files (files w) dir_path ?es) = length ?es"
      by (simp add: module_files_def)
    have small: "snd (place (unat ?po) (module_files (files w1) dir_path ?es)) < 4294967296"
      if "image_small (packed (files w) dir_path ?es)"
      using that len by (simp add: image_small_def packed_def po w1(3))
    have fits: "\<not> length ?es > unat ((UINT32_MAX - IRXIMG_HEADER_SIZE) div IRXIMG_ENTRY_SIZE)"
      using n by (simp add: UINT32_MAX_def format_defs unat_div)
    show ?thesis
    proof (cases ps)
      case None
      then have "r = 1" "w' = w2"
        using run l Some fits rd by (simp_all add: pack_image_def format_defs Let_def)
      moreover have "only_wrote out w1 w2"
        using pr None by (auto simp: payloads_read_def Let_def intro: evolves_only_wrote)
      ultimately show ?thesis
        using pr None l Some w1 small by (auto simp: payloads_read_def Let_def intro: only_wrote_trans)
    next
      case (Some qf)
      then obtain qs fsz where ps: "ps = Some (qs, fsz)" by (cases qf) auto
      obtain ok3 w3 where c: "create_file out w2 = (ok3, w3)" by fastforce
      obtain ok4 w4 where wr: "write_image out m qs ?po fsz w3 = (ok4, w4)" by fastforce
      obtain ok5 w5 where cl: "close_file w4 = (ok5, w5)" by fastforce
      let ?v = "if \<not> ok3 then w3 else if \<not> ok4 then fclose w4 else w5"
      have rw: "(r, w') = (if ok3 \<and> ok4 \<and> ok5 then 0 else 1, free_payloads qs ?v)"
        unfolding run [symmetric]
        using l \<open>q = Some m\<close> fits rd ps c wr cl
        by (simp add: pack_image_def format_defs cong: if_cong)
      note tail = pack_tail [OF pr [unfolded ps] w1(2) po(2) c wr cl, of w']
      have written: "files w' out = Some (image_of (packed (files w) dir_path ?es) (m_crc32 m)) \<and>
          modules_there (files w) dir_path ?es"
        if s: "image_small (packed (files w) dir_path ?es)" and "ok3" "ok4"
      proof -
        have st: "stored (heap w2) (payload_start (length ?es)) qs (module_files (files w) dir_path ?es)"
            "unat fsz = snd (place (payload_start (length ?es)) (module_files (files w) dir_path ?es))"
            "modules_there (files w) dir_path ?es"
          using pr small [OF s] by (auto simp: payloads_read_def ps po w1(3) Let_def)
        with written_image [OF st(1) len po(1) st(2) n] tail rw that show ?thesis
          by (simp add: packed_def)
      qed
      show ?thesis
        using tail rw written w1 l \<open>q = Some m\<close> by (auto intro: only_wrote_trans)
    qed
  qed
qed

end
