(* ===== verification/Image_Accept.thy ===== *)
theory Image_Accept
  imports Image_Pack
begin

text \<open>
  What a packed image is good for: its modules are found by the run-time parser with the bytes
  of their files, and the tool's own validation accepts it without reading outside of it.
\<close>

subsection \<open>What a packed image provides\<close>

lemma packable_packed:
  assumes "manifest_ok es" "modules_there fs dir_path es" "image_small (packed fs dir_path es)"
  shows "packable (packed fs dir_path es)" "map fst (packed fs dir_path es) = map me_id es"
    and "e \<in> set es \<Longrightarrow> map_of (packed fs dir_path es) (me_id e) = fs (payload_path dir_path e)"
proof -
  have len: "length (module_files fs dir_path es) = length es"
    by (simp add: module_files_def)
  show ids: "map fst (packed fs dir_path es) = map me_id es"
    by (simp add: packed_def len)
  have eq: "packed fs dir_path es = map (\<lambda>e. (me_id e, the (fs (payload_path dir_path e)))) es"
    by (simp add: packed_def module_files_def zip_map_map zip_same_conv_map)
  have "\<forall>(n, d) \<in> set (packed fs dir_path es). n \<noteq> 0 \<and> d \<noteq> []"
    using assms(1,2) by (force simp: eq manifest_ok_def modules_there_def)
  then show "packable (packed fs dir_path es)"
    using assms(1,3) unfolding packable_def ids
    by (simp add: manifest_ok_def eq)
  show "map_of (packed fs dir_path es) (me_id e) = fs (payload_path dir_path e)" if "e \<in> set es"
  proof -
    have "distinct (map fst (packed fs dir_path es))"
      using assms(1) by (simp add: ids manifest_ok_def)
    moreover have "(me_id e, the (fs (payload_path dir_path e))) \<in> set (packed fs dir_path es)"
      using that by (simp add: eq)
    moreover have "fs (payload_path dir_path e) \<noteq> None"
      using assms(2) that by (auto simp: modules_there_def)
    ultimately show ?thesis
      by (simp add: map_of_eq_Some_iff)
  qed
qed

lemma find_payload_entry:
  assumes "distinct (map fst ps)" "(n, d) \<in> set ps"
  obtains i where "i < length ps" "ps ! i = (n, d)" "find_entry (payload_entries c ps) n = Some (payload_entries c ps ! i)"
proof -
  obtain i where i: "i < length ps" "ps ! i = (n, d)"
    using assms(2) by (auto simp: in_set_conv_nth)
  let ?e = "payload_entries c ps ! i"
  have "e_id ?e = map e_id (payload_entries c ps) ! i"
    by (rule nth_map [symmetric]) (simp add: i(1))
  then have "e_id ?e = n"
    using i by (simp only: ids_payload_entries nth_map fst_conv)
  moreover have "?e \<in> set (payload_entries c ps)"
    using i(1) by simp
  moreover have "distinct (map e_id (payload_entries c ps))"
    using assms(1) by simp
  ultimately have "find_entry (payload_entries c ps) n = Some ?e"
    by (metis find_entry_distinct)
  with i that show thesis
    by blast
qed

lemma load_modules_image:
  assumes "packable ps" "set ids \<subseteq> fst ` set ps"
  shows "load_modules (image_of ps crc) (payload_entries (payload_start (length ps)) ps) ids =
    Inr (map (\<lambda>n. (n, the (map_of ps n))) ids)"
  using assms(2)
proof (induction ids)
  case Nil
  then show ?case by simp
next
  case (Cons n ids)
  obtain d where d: "(n, d) \<in> set ps"
    using Cons.prems by auto
  have dis: "distinct (map fst ps)"
    using assms(1) by (simp add: packable_def)
  obtain i where i: "i < length ps" "ps ! i = (n, d)"
      "find_entry (payload_entries (payload_start (length ps)) ps) n =
       Some (payload_entries (payload_start (length ps)) ps ! i)"
    by (rule find_payload_entry [OF dis d])
  with image_of_directory(2) [OF assms(1), of crc] d dis Cons show ?case
    by (simp add: Let_def)
qed

lemma length_image_of_bounds:
  assumes "packable ps"
  shows "44 \<le> length (image_of ps crc)" "length (image_of ps crc) < 4294967296"
proof -
  have "44 + 20 * length ps \<le> length (image_of ps crc)"
    using payload_start_bounds(1) [of "length ps"] place_mono [of "payload_start (length ps)" "map snd ps"]
    by (simp add: length_image_of)
  then show "44 \<le> length (image_of ps crc)" by simp
  show "length (image_of ps crc) < 4294967296"
    using assms by (simp add: packable_def image_small_def length_image_of)
qed

lemma stage_spec_image:
  assumes "packable ps" "irx_id ` required_modules q \<subseteq> fst ` set ps"
  shows "stage_spec (image_of ps crc) q =
    Inr (map (\<lambda>n. (n, the (map_of ps n))) (requested_ids (expand_requirements q no_modules)))"
proof -
  have "set (requested_ids (expand_requirements q no_modules)) \<subseteq> fst ` set ps"
    using assms(2) set_requested_ids [of q] by simp
  from load_modules_image [OF assms(1) this, of crc] show ?thesis
    using length_image_of_bounds [OF assms(1), of crc] image_of_directory(1) [OF assms(1), of crc]
    by (simp add: stage_spec_def file_spec_def)
qed

subsection \<open>Validating a packed image\<close>

text \<open>Validating changes nothing but the memory it releases again, and \<open>ub\<close>.\<close>

lemma validate_entries_effect: "\<exists>b. snd (validate_entries img fsz po ms i prev w) = w\<lparr>ub := b\<rparr>"
proof (induction ms arbitrary: i prev w)
  case Nil
  then show ?case
    by (auto intro: exI [of _ "ub w"])
next
  case (Cons m ms)
  have slice: "\<exists>b. snd (image_slice off n img w) = w\<lparr>ub := b\<rparr>" for off n and w :: tool_world
    by (auto simp: image_slice_def intro: exI [of _ "ub w"])
  obtain raw w1 where r: "image_slice (44 + i * 20) 20 img w = (raw, w1)" by fastforce
  obtain data w2 where d: "image_slice (unat (e_offset (read_entry raw))) (unat (e_size (read_entry raw))) img w1 = (data, w2)"
    by fastforce
  obtain b1 b2 where w: "w1 = w\<lparr>ub := b1\<rparr>" "w2 = w1\<lparr>ub := b2\<rparr>"
    using slice [of "44 + i * 20" 20 w] r
      slice [of "unat (e_offset (read_entry raw))" "unat (e_size (read_entry raw))" w1] d by auto
  obtain b3 where "snd (validate_entries img fsz po ms (Suc i) (e_offset (read_entry raw) + e_size (read_entry raw)) w2) =
      w2\<lparr>ub := b3\<rparr>"
    using Cons.IH by blast
  with w d [unfolded w] show ?case
    by (auto simp: r Let_def)
qed

lemma read_header_packed:
  "read_header (image_header c po fs crc @ rest) =
     \<lparr>h_version = 1, h_header_size = 44, h_entry_count = c, h_entry_size = 20,
      h_entry_table_offset = 44, h_payload_offset = po, h_declared_file_size = fs, h_flags = 0\<rparr>"
  "u32_at 40 (image_header c po fs crc @ rest) = crc"
  "take 8 (image_header c po fs crc @ rest) = IRXIMG_MAGIC"
  by (simp_all add: read_header_def image_header_def format_defs)

lemma image_of_split: "\<exists>rest. image_of ps crc =
    image_header (of_nat (length ps)) (of_nat (payload_start (length ps))) (of_nat (length (image_of ps crc))) crc @ rest"
  using image_of_header [of ps crc] by (metis append_take_drop_id)

lemma tool_header_packed:
  assumes "packable ps" "m_crc32 m = crc" "length (m_entries m) = length ps"
  shows "\<not> tool_header_bad m (of_nat (length (image_of ps crc))) (image_of ps crc)"
    and "take 8 (image_of ps crc) = IRXIMG_MAGIC"
    and "h_payload_offset (read_header (image_of ps crc)) = of_nat (payload_start (length ps))"
proof -
  let ?n = "length ps" and ?img = "image_of ps crc"
  obtain rest where img: "?img = image_header (of_nat ?n) (of_nat (payload_start ?n)) (of_nat (length ?img)) crc @ rest"
    using image_of_split by blast
  note h = read_header_packed [of "of_nat ?n" "of_nat (payload_start ?n)" "of_nat (length ?img)" crc rest, folded img]
  show "take 8 ?img = IRXIMG_MAGIC" "h_payload_offset (read_header ?img) = of_nat (payload_start ?n)"
    using h by simp_all
  have n: "?n \<le> 128" "payload_start ?n \<le> length ?img" "length ?img < 4294967296"
    using assms(1) place_mono by (auto simp: packable_def length_image_of image_small_def)
  have un: "unat (of_nat ?n :: u32) = ?n" "unat (of_nat (payload_start ?n) :: u32) = payload_start ?n"
      "unat (of_nat (length ?img) :: u32) = length ?img"
    using n by (auto intro!: unat_of_nat_u32)
  have "(of_nat (payload_start ?n) :: u32) AND 15 = 0"
    using un(2) up16_dvd by (simp add: and_15_eq_0 payload_start_def)
  moreover have "\<not> (4294967251 :: u32) div 20 < of_nat ?n"
    using n un(1) by (simp add: word_less_nat_alt unat_div)
  ultimately show "\<not> tool_header_bad m (of_nat (length ?img)) ?img"
    using un unat_payload_start(2) [OF n(1)] payload_start_bounds(1) [of ?n] n assms(2,3)
    by (simp add: tool_header_bad_def h format_defs UINT32_MAX_def word_less_nat_alt)
qed

text \<open>The loop accepts the entries of a packed image, in bounds all the time.\<close>

lemma validate_entries_packed:
  assumes "\<forall>j < length ps. read_entry (bytes_at (44 + (i + j) * 20) 20 img) = payload_entries c ps ! j"
    and "\<forall>j < length ps. bytes_at (unat (e_offset (payload_entries c ps ! j))) (unat (e_size (payload_entries c ps ! j))) img =
        snd (ps ! j) \<and> e_crc32 (payload_entries c ps ! j) = crc32_bytes (snd (ps ! j))"
    and "44 + (i + length ps) * 20 \<le> length img" "\<not> list_ex (entry_bad start fsz) (payload_entries c ps)"
    and "snd (place c (map snd ps)) \<le> length img" "length img < 4294967296"
    and "unat prev \<le> c" "map me_id ms = map fst ps"
  shows "validate_entries img fsz start ms i prev w = (True, w)"
  using assms
proof (induction c ps arbitrary: ms i prev rule: payload_entries.induct)
  case (1 c)
  then show ?case by simp
next
  case (2 c n d ps)
  obtain m ms' where ms: "ms = m # ms'" "me_id m = n" "map me_id ms' = map fst ps"
    using 2(9) by auto
  let ?e = "payload_entry n c d" and ?c = "up16 (c + length d)"
  have entry: "read_entry (bytes_at (44 + i * 20) 20 img) = ?e"
    using 2(2) by (auto dest: spec [of _ 0])
  have bytes: "bytes_at (unat (e_offset ?e)) (unat (e_size ?e)) img = d" "e_crc32 ?e = crc32_bytes d"
    using 2(3) by (auto dest: spec [of _ 0])
  have le: "c + length d \<le> ?c" "?c \<le> length img"
    using 2(6) up16_le(1) [of "c + length d"] place_mono [of ?c "map snd ps"]
    by (simp_all add: case_prod_unfold Let_def)
  have un: "unat (e_offset ?e) = c" "unat (e_size ?e) = length d"
    using le 2(7) by (simp_all add: payload_entry_def unat_of_nat_u32)
  have ok: "\<not> tool_entry_bad start prev fsz ?e"
    using 2(5,8) un(1) by (auto simp: tool_entry_bad_def entry_bad_def word_less_nat_alt)
  have nextp: "unat (e_offset ?e + e_size ?e) \<le> ?c"
    using un le 2(7) by (simp add: unat_add_u32)
  have tail: "read_entry (bytes_at (64 + (i + j) * 20) 20 img) = payload_entries ?c ps ! j" if "j < length ps" for j
    using 2(2) [rule_format, of "Suc j"] that by (simp add: add.assoc)
  have tail_bytes: "bytes_at (unat (e_offset (payload_entries ?c ps ! j))) (unat (e_size (payload_entries ?c ps ! j))) img =
      snd (ps ! j) \<and> e_crc32 (payload_entries ?c ps ! j) = crc32_bytes (snd (ps ! j))" if "j < length ps" for j
    using 2(3) [rule_format, of "Suc j"] that by simp
  have rest: "validate_entries img fsz start ms' (Suc i) (e_offset ?e + e_size ?e) w = (True, w)"
  proof (rule 2(1) [OF _ _ _ _ _ 2(7) nextp ms(3)])
    show "\<forall>j < length ps. read_entry (bytes_at (44 + (Suc i + j) * 20) 20 img) = payload_entries ?c ps ! j"
      using tail by (simp add: add.assoc)
    show "\<forall>j < length ps. bytes_at (unat (e_offset (payload_entries ?c ps ! j))) (unat (e_size (payload_entries ?c ps ! j))) img =
        snd (ps ! j) \<and> e_crc32 (payload_entries ?c ps ! j) = crc32_bytes (snd (ps ! j))"
      using tail_bytes by simp
  qed (use 2(4,5,6) in \<open>simp_all add: case_prod_unfold Let_def\<close>)
  have slices: "image_slice (44 + i * 20) 20 img w = (bytes_at (44 + i * 20) 20 img, w)"
      "image_slice (unat (e_offset ?e)) (unat (e_size ?e)) img w = (d, w)"
    using 2(4) le un bytes by (simp_all add: image_slice_def)
  show ?case
    using slices entry ok rest bytes ms by (simp add: payload_entry_def crc32_bytes_eq_tool)
qed

lemma read_entry_take: "20 \<le> length xs \<Longrightarrow> read_entry (take 20 xs) = read_entry xs"
  by (simp add: read_entry_def drop_take read_u32_le_take read_u32_le_take [where n = 20])

lemma image_of_entry:
  assumes "packable ps" "j < length ps"
  shows "read_entry (bytes_at (44 + j * 20) 20 (image_of ps crc)) = payload_entries (payload_start (length ps)) ps ! j"
proof -
  let ?es = "payload_entries (payload_start (length ps)) ps"
  obtain rest where rest: "drop 44 (image_of ps crc) = concat (map entry_raw ?es) @ rest"
    by (simp add: image_of_def Let_def)
  have "raw_entries (drop 44 (image_of ps crc)) (length ps) = ?es"
    using raw_entries_concat [of ?es rest] by (simp add: rest)
  then have e: "read_entry (drop (j * 20) (drop 44 (image_of ps crc))) = ?es ! j"
    using assms(2) unfolding raw_entries_def by (metis (no_types, lifting) add_0 diff_zero length_upt nth_map nth_upt)
  have "44 + 20 * length ps \<le> length (image_of ps crc)"
    using payload_start_bounds(1) [of "length ps"] place_mono [of "payload_start (length ps)" "map snd ps"]
    by (simp add: length_image_of)
  then show ?thesis
    using e assms(2) by (simp add: bytes_at_def read_entry_take add.commute)
qed

lemma validate_image_effect:
  assumes "validate_image_internal mp ip w = (r, w')" "heap_wf w"
  shows "heap w' = heap w \<and> opened w' = opened w \<and> files w' = files w \<and> (r = 0 \<or> r = 1)"
proof -
  obtain q w1 where l: "load_manifest mp w = (q, w1)" by fastforce
  note load = load_manifest_result [OF l]
  have w1: "heap w1 = heap w" "opened w1 = opened w" "files w1 = files w" "heap_wf w1"
    using load assms(2) by (auto simp: heap_wf_def evolves_def)
  obtain f w2 where rd: "read_file ip w1 = (f, w2)" by fastforce
  note fres = read_file_result [OF rd w1(4)]
  show ?thesis
  proof (cases q)
    case None
    then show ?thesis
      using assms(1) l w1 by (auto simp: validate_image_internal_def)
  next
    case (Some m)
    note q = Some
    show ?thesis
    proof (cases f)
      case None
      then show ?thesis
        using assms(1) l q rd w1 fres by (auto simp: validate_image_internal_def evolves_def)
    next
      case (Some an)
      then obtain a n where an: "f = Some (a, n)" by (cases an) auto
      with fres obtain bytes where b: "heap w2 = (heap w)(a \<mapsto> bytes)" "a = brk w1" "evolves w1 w2" "heap_wf w2"
        by (auto simp: w1)
      have "heap w a = None"
        using w1(1,4) b(2) by (metis heap_wf_fresh order_refl)
      then have freed: "heap (free a (w2\<lparr>ub := x\<rparr>)) = heap w" "opened (free a (w2\<lparr>ub := x\<rparr>)) = opened w"
          "files (free a (w2\<lparr>ub := x\<rparr>)) = files w" for x
        using b w1 by (auto simp: free_def evolves_def heap_wf_def)
      have "ub w2 = ub w2" "w2 = w2\<lparr>ub := ub w2\<rparr>"
        by simp_all
      then have freed2: "heap (free a w2) = heap w" "opened (free a w2) = opened w" "files (free a w2) = files w"
        using freed by metis+
      obtain ok w3 where v: "validate_entries bytes n (h_payload_offset (read_header bytes)) (m_entries m) 0
          (h_payload_offset (read_header bytes)) w2 = (ok, w3)" by fastforce
      then obtain x where "w3 = w2\<lparr>ub := x\<rparr>"
        using validate_entries_effect [of bytes n "h_payload_offset (read_header bytes)" "m_entries m" 0
            "h_payload_offset (read_header bytes)" w2] by auto
      then show ?thesis
        using assms(1) l q rd an b(1) v freed freed2
        by (auto simp: validate_image_internal_def Let_def split: if_splits)
    qed
  qed
qed

lemma validate_packed:
  assumes "heap_wf w" "all_succeed w" "load_manifest mp v = (Some m, v')" "files w mp = files v mp"
    and "files w ip = Some (image_of ps (m_crc32 m))" "packable ps" "map fst ps = map me_id (m_entries m)"
  shows "\<exists>w'. validate_image_internal mp ip w = (0, w') \<and> ub w' = ub w"
proof -
  let ?img = "image_of ps (m_crc32 m)"
  obtain w1 where l: "load_manifest mp w = (Some m, w1)"
    using load_manifest_again [OF assms(3,4,2)] by (cases "load_manifest mp w") auto
  have w1: "evolves w w1" "heap_wf w1" "files w1 = files w" "all_succeed w1"
    using load_manifest_result [OF l] assms(1,2) by (auto simp: heap_wf_def evolves_def)
  obtain f w2 where rd: "read_file ip w1 = (f, w2)" by fastforce
  note fres = read_file_result [OF rd w1(2)]
  have big: "?img \<noteq> []" "length ?img \<le> 4294967295" "44 \<le> length ?img"
    using length_image_of_bounds [OF assms(6), of "m_crc32 m"] by auto
  then obtain a where a: "f = Some (a, of_nat (length ?img))" "heap w2 a = Some ?img" "evolves w1 w2" "heap_wf w2"
    using fres w1(3,4) assms(5) by (cases f) fastforce+
  have n: "length (m_entries m) = length ps"
    using assms(7) by (metis length_map)
  note hdr = tool_header_packed [OF assms(6) refl n]
  have size: "unat (of_nat (length ?img) :: u32) = length ?img"
    using big by (intro unat_of_nat_u32) simp
  have "validate_entries ?img (of_nat (length ?img)) (of_nat (payload_start (length ps))) (m_entries m) 0
      (of_nat (payload_start (length ps))) w2 = (True, w2)"
  proof (rule validate_entries_packed)
    have start: "payload_start (length ps) \<le> length ?img"
      using place_mono by (simp add: length_image_of)
    then show "unat (of_nat (payload_start (length ps)) :: u32) \<le> payload_start (length ps)"
      using big by (simp add: unat_of_nat_u32)
    show "\<forall>j < length ps. read_entry (bytes_at (44 + (0 + j) * 20) 20 ?img) =
        payload_entries (payload_start (length ps)) ps ! j"
      using image_of_entry [OF assms(6)] by simp
    show "\<not> list_ex (entry_bad (of_nat (payload_start (length ps))) (of_nat (length ?img)))
        (payload_entries (payload_start (length ps)) ps)"
      using image_of_directory(1) [OF assms(6), of "m_crc32 m"] image_of_header [of ps "m_crc32 m"]
      by (auto simp: image_directory_def read_header_image Let_def split: if_splits)
    show "44 + (0 + length ps) * 20 \<le> length ?img"
      using start payload_start_bounds(1) [of "length ps"] by simp
  qed (use image_of_directory(2) [OF assms(6)] big assms(7) length_image_of [of ps "m_crc32 m"] in auto)
  then show ?thesis
    using l rd a hdr size big w1(1) free_live [OF a(2,4)]
    by (simp add: validate_image_internal_def word_less_nat_alt format_defs Let_def evolves_def)
qed

subsection \<open>Where the validation leaves the image\<close>

text \<open>
  Of the bounds of an entry the tool does not check that the offset is inside of the file: the
  difference to the end wraps when it is not.
\<close>

lemma tool_entry_bounds:
  assumes "\<not> tool_entry_bad po prev (of_nat (length img)) e" "length img < 4294967296"
  shows "unat (e_offset e) + unat (e_size e) \<le> length img \<longleftrightarrow> unat (e_offset e) \<le> length img"
proof
  have n: "unat (of_nat (length img) :: u32) = length img"
    using assms(2) by (rule unat_of_nat_u32)
  assume "unat (e_offset e) \<le> length img"
  then have "unat (of_nat (length img) - e_offset e) = length img - unat (e_offset e)"
    using unat_sub_u32 [of "e_offset e" "of_nat (length img)"] n by (simp add: word_le_nat_alt)
  with assms(1) \<open>unat (e_offset e) \<le> length img\<close> show "unat (e_offset e) + unat (e_size e) \<le> length img"
    by (auto simp: tool_entry_bad_def word_less_nat_alt)
qed simp

lemma validate_entries_ub: "ub w \<Longrightarrow> ub (snd (validate_entries img n po ms i prev w))"
proof (induction ms arbitrary: i prev w)
  case Nil
  then show ?case by simp
next
  case (Cons m ms)
  have "ub v \<Longrightarrow> ub (snd (image_slice off k img v))" for off k and v :: tool_world
    by (simp add: image_slice_def)
  with Cons show ?case
    by (simp add: case_prod_unfold Let_def)
qed

end
