(* ===== verification/Driver_Success.thy ===== *)
theory Driver_Success
  imports Drivers
begin

text \<open>
  The drivers when everything works, and their release. \<open>works\<close> says that a function
  returns a status and executes exactly a list of modules, from every state in which those
  modules are there and not loaded; it is proved for each driver in the locale
  \<open>working_drivers\<close>, which extends the provider's contract by a cooperative environment, and
  the locale is interpreted on both flavours of \<^verbatim>\<open>ps2_irx_exec\<close>. The second part shows
  that the release of a driver resets the slots of its modules, and when it returns.
\<close>

subsection \<open>When everything works\<close>

text \<open>The answers with which the initialisation of the libraries succeeds.\<close>

fun accepts :: "lib_call \<Rightarrow> int \<Rightarrow> bool" where
  "accepts MtapInit r \<longleftrightarrow> r = 1"
| "accepts (PadInit port) r \<longleftrightarrow> r = 1"
| "accepts Audsrv_init r \<longleftrightarrow> r = 0"
| "accepts PoweroffInit r \<longleftrightarrow> r = 0"
| "accepts PS2MouseInit r \<longleftrightarrow> r \<ge> 0"
| "accepts PS2KbdInit r \<longleftrightarrow> r \<ge> 0"
| "accepts (PS2CamInit mode) r \<longleftrightarrow> r \<ge> 0"
| "accepts NetManInit r \<longleftrightarrow> r = 0"
| "accepts Ps2ip_init r \<longleftrightarrow> r = 0"
| "accepts COP2Pipelined r \<longleftrightarrow> r \<noteq> 0"
| "accepts SifIopReset r \<longleftrightarrow> r \<noteq> 0"
| "accepts SifIopSync r \<longleftrightarrow> r \<noteq> 0"
| "accepts (FileXioDevctl device command) r \<longleftrightarrow> 0 \<le> r \<and> r < 3"
| "accepts _ r \<longleftrightarrow> True"

text \<open>
  \<open>free\<close>: the modules are different, none of them is loaded, and the provider has them all.
  \<open>did\<close>: exactly these modules were executed, in this order, and nothing else has changed.
  \<open>works\<close>: from every such state the function returns \<open>st\<close> and executes the modules.
\<close>

definition free_slots ::
  "('p \<Rightarrow> bool) \<Rightarrow> ('p \<Rightarrow> irx \<rightharpoonup> u8 list) \<Rightarrow> irx list \<Rightarrow> 'p drv \<Rightarrow> bool" where
  "free_slots I holds ms s \<longleftrightarrow>
     I (prov s) \<and> distinct ms \<and> (\<forall>m \<in> set ms. slots s m = reset_slot \<and> holds (prov s) m \<noteq> None)"

definition did ::
  "('p \<Rightarrow> bool) \<Rightarrow> ('p \<Rightarrow> irx \<rightharpoonup> u8 list) \<Rightarrow> irx list \<Rightarrow> 'p drv \<Rightarrow> 'p drv \<Rightarrow> bool" where
  "did I holds ms s t \<longleftrightarrow>
     I (prov t) \<and> (\<exists>es. events t = events s @ es \<and> map fst (execs es) = ms) \<and>
     (\<forall>m \<in> set ms. CHECK_IRX_UNLOAD (slots t m)) \<and>
     (\<forall>m. m \<notin> set ms \<longrightarrow> slots t m = slots s m \<and> holds (prov t) m = holds (prov s) m)"

definition works ::
  "('p \<Rightarrow> bool) \<Rightarrow> ('p \<Rightarrow> irx \<rightharpoonup> u8 list) \<Rightarrow> ('p drv \<Rightarrow> 'st \<times> 'p drv) \<Rightarrow> irx list \<Rightarrow> 'st \<Rightarrow> bool" where
  "works I holds f ms st \<longleftrightarrow>
     (\<forall>s. free_slots I holds ms s \<longrightarrow> (\<exists>t. f s = (st, t) \<and> did I holds ms s t))"

text \<open>A change of the status variables only.\<close>

definition keeps :: "('p drv \<Rightarrow> 'p drv) \<Rightarrow> bool" where
  "keeps u \<longleftrightarrow> (\<forall>s. prov (u s) = prov s \<and> slots (u s) = slots s \<and> events (u s) = events s)"

text \<open>The loop that switches the expansion bay off: one try, and the state after some.\<close>

definition try_off :: "'p drv_env \<Rightarrow> 'p drv \<Rightarrow> int \<times> 'p drv" where
  "try_off env s = lib env (FileXioDevctl ''dev9x:'' ''DDIOC_OFF'') s"

definition after_tries :: "'p drv_env \<Rightarrow> nat \<Rightarrow> 'p drv \<Rightarrow> 'p drv" where
  "after_tries env n s = ((\<lambda>s. snd (try_off env s)) ^^ n) s"

subsection \<open>The two flavours\<close>

definition image_env ::
  "'i sif_exec \<Rightarrow> (event list \<Rightarrow> lib_call \<Rightarrow> int) \<Rightarrow> (event list \<Rightarrow> ip_info) \<Rightarrow>
   (img_state \<times> 'i) drv_env" where
  "image_env sif ans cfg = \<lparr>irx_exec = image_exec sif, answer = ans, ipconfig = cfg\<rparr>"

definition linked_env ::
  "'i sif_exec \<Rightarrow> (irx \<Rightarrow> u8 list) \<Rightarrow> (event list \<Rightarrow> lib_call \<Rightarrow> int) \<Rightarrow> (event list \<Rightarrow> ip_info) \<Rightarrow>
   'i drv_env" where
  "linked_env sif linked ans cfg = \<lparr>irx_exec = linked_exec sif linked, answer = ans, ipconfig = cfg\<rparr>"

text \<open>
  \<open>resident\<close> corrects a module that does not load, \<open>accepting\<close> an answer that reports a
  failure; where nothing fails they change nothing.
\<close>

definition loads :: "exec_result \<Rightarrow> bool" where
  "loads r \<longleftrightarrow> 0 \<le> fst r \<and> snd r \<in> {Some 0, Some 2}"

definition resident :: "'i sif_exec \<Rightarrow> 'i sif_exec" where
  "resident sif = (\<lambda>bytes n args i. let (r, j) = sif bytes n args i in (if loads r then r else (0, Some 0), j))"

definition accepting :: "(event list \<Rightarrow> lib_call \<Rightarrow> int) \<Rightarrow> event list \<Rightarrow> lib_call \<Rightarrow> int" where
  "accepting ans es c =
     (if accepts c (ans es c) then ans es c else if accepts c 0 then 0 else 1)"

subsection \<open>Composition\<close>

lemma did_trans:
  assumes "did I holds ms s t" "did I holds ns t u" "set ms \<inter> set ns = {}"
  shows "did I holds (ms @ ns) s u"
proof -
  obtain es fs where "events t = events s @ es" "map fst (execs es) = ms"
      "events u = events t @ fs" "map fst (execs fs) = ns"
    using assms by (auto simp: did_def)
  then have "events u = events s @ (es @ fs) \<and> map fst (execs (es @ fs)) = ms @ ns"
    by simp
  then show ?thesis
    using assms unfolding did_def by (auto simp: disjoint_iff)
qed

lemma free_after:
  assumes "free_slots I holds (ms @ ns) s" "did I holds ms s t"
  shows "free_slots I holds ns t"
  using assms unfolding free_slots_def did_def by (auto simp: disjoint_iff)

lemma free_before: "free_slots I holds (ms @ ns) s \<Longrightarrow> free_slots I holds ms s"
  by (auto simp: free_slots_def)

lemma works_bind:
  assumes "works I holds f ms a" "works I holds (g a) ns b"
  shows "works I holds (\<lambda>s. case f s of (x, t) \<Rightarrow> g x t) (ms @ ns) b"
  unfolding works_def
proof clarify
  fix s
  assume s: "free_slots I holds (ms @ ns) s"
  obtain t where t: "f s = (a, t)" "did I holds ms s t"
    using assms(1) free_before [OF s] by (auto simp: works_def)
  obtain u where u: "g a t = (b, u)" "did I holds ns t u"
    using assms(2) free_after [OF s t(2)] by (auto simp: works_def)
  have "set ms \<inter> set ns = {}"
    using s by (auto simp: free_slots_def)
  with t u did_trans show "\<exists>u. (case f s of (x, t) \<Rightarrow> g x t) = (b, u) \<and> did I holds (ms @ ns) s u"
    by fastforce
qed

lemma works_return: "keeps u \<Longrightarrow> works I holds (\<lambda>s. (st, u s)) [] st"
  by (auto simp: works_def did_def free_slots_def keeps_def intro: exI [of _ "[]"])

lemma works_before:
  assumes "works I holds g ms st" "keeps u"
  shows "works I holds (\<lambda>s. g (u s)) ms st"
  unfolding works_def
proof clarify
  fix s
  assume s: "free_slots I holds ms s"
  then have "free_slots I holds ms (u s)"
    using assms(2) by (simp add: free_slots_def keeps_def)
  then obtain t where "g (u s) = (st, t)" "did I holds ms (u s) t"
    using assms(1) by (auto simp: works_def)
  then show "\<exists>t. g (u s) = (st, t) \<and> did I holds ms s t"
    using assms(2) by (simp add: did_def keeps_def)
qed

text \<open>The shapes in which the drivers are written.\<close>

lemma works_status:
  assumes "works I holds f ms a" "keeps (u a)"
  shows "works I holds (\<lambda>s. case f s of (st, s1) \<Rightarrow> (st, u st s1)) ms a"
  using works_bind [OF assms(1), of "\<lambda>st s1. (st, u st s1)" "[]" a] works_return [OF assms(2), of I holds a]
  by simp

lemma works_libraries:
  assumes "works I holds f ms a" "\<not> val a < 0" "works I holds g [] b" "keeps (u a)" "keeps (u b)"
  shows "works I holds (\<lambda>s. case f s of (st, s1) \<Rightarrow>
      if val st < 0 then (st, u st s1) else case g (u st s1) of (st', s3) \<Rightarrow> (st', u st' s3)) ms b"
proof -
  have "works I holds (\<lambda>s1. case g (u a s1) of (st', s3) \<Rightarrow> (st', u st' s3)) [] b"
    using works_before [of I holds "\<lambda>s2. case g s2 of (st', s3) \<Rightarrow> (st', u st' s3)" "[]" b "u a"]
      works_status [of I holds g "[]" b u] assms(3-5) by simp
  then have "works I holds (\<lambda>s1. if val a < 0 then (a, u a s1)
      else case g (u a s1) of (st', s3) \<Rightarrow> (st', u st' s3)) [] b"
    using assms(2) by simp
  then show ?thesis
    using works_bind [OF assms(1), of "\<lambda>st s1. if val st < 0 then (st, u st s1)
      else case g (u st s1) of (st', s3) \<Rightarrow> (st', u st' s3)" "[]" b] by simp
qed

lemma works_dependency:
  assumes "works I holds init ms a" "\<not> failed a" "works I holds g ns b" "all = ms @ ns"
  shows "works I holds (\<lambda>s. case dependency True init failed s of (bad, s1) \<Rightarrow>
      if bad then e s1 else g s1) all b"
proof -
  have "works I holds (dependency True init failed) ms False"
    using assms(1,2) unfolding works_def dependency_def by fastforce
  moreover have "works I holds (\<lambda>s1. if False then e s1 else g s1) ns b"
    using assms(3) by simp
  ultimately show ?thesis
    using works_bind [of I holds "dependency True init failed" ms False
      "\<lambda>bad s1. if bad then e s1 else g s1" ns b] assms(4) by simp
qed

text \<open>
  The drivers on a provider whose modules load: \<^verbatim>\<open>SifExecModuleBuffer\<close> returns a module
  number and the module stays resident, and the libraries accept their initialisation.
\<close>

locale working_drivers = irx_provider "irx_exec env" holds run iop inv
  for env :: "'p drv_env" and holds :: "'p \<Rightarrow> irx \<rightharpoonup> u8 list"
    and run :: "u8 list \<Rightarrow> irx_args \<Rightarrow> 'i \<Rightarrow> exec_result \<times> 'i" and iop :: "'p \<Rightarrow> 'i" and inv :: "'p \<Rightarrow> bool" +
  assumes run_ok: "0 \<le> fst (fst (run bs a i)) \<and> snd (fst (run bs a i)) \<in> {Some 0, Some 2}"
    and answers: "accepts c (answer env es c)"
begin

lemma load_works: "works inv holds (load_irx env m a) [m] False"
  unfolding works_def
proof clarify
  fix s
  assume s: "free_slots inv holds [m] s"
  then obtain bs where inv_s: "inv (prov s)" and held: "holds (prov s) m = Some bs"
      and slot: "slots s m = reset_slot"
    by (auto simp: free_slots_def)
  obtain res p where e: "irx_exec env m a (prov s) = (res, p)" by fastforce
  have "0 \<le> fst res \<and> snd res \<in> {Some 0, Some 2}"
    using exec_runs [OF inv_s held, of a] run_ok [of bs a "iop (prov s)"] e by auto
  then show "\<exists>t. load_irx env m a s = (False, t) \<and> did inv holds [m] s t"
    using slot e exec_inv [OF inv_s, of m a] exec_others [OF inv_s, of _ m a]
    by (auto simp: load_irx_def did_def slot_defs)
qed

lemma loads_work: "works inv holds (load_irxs env xs ok) (map fst xs) ok"
proof (induction xs)
  case Nil
  then show ?case
    using works_return [of id inv holds ok] by (simp add: keeps_def works_def)
next
  case (Cons x xs)
  obtain m a err where x: "x = (m, a, err)" by (metis prod_cases3)
  have "works inv holds (\<lambda>s. case load_irx env m a s of (bad, s1) \<Rightarrow>
      if bad then (err, s1) else load_irxs env xs ok s1) ([m] @ map fst xs) ok"
    using works_bind [OF load_works, of "\<lambda>bad s1. if bad then (err, s1) else load_irxs env xs ok s1"] Cons
    by simp
  then show ?case
    by (simp add: x works_def)
qed

lemma loads_work': "map fst xs = ms \<Longrightarrow> works inv holds (load_irxs env xs ok) ms ok"
  using loads_work [of xs ok] by auto

lemma lib_works:
  assumes "\<And>r. accepts c r \<Longrightarrow> works inv holds (g r) ms st"
  shows "works inv holds (\<lambda>s. case lib env c s of (r, s1) \<Rightarrow> g r s1) ms st"
  unfolding works_def
proof clarify
  fix s
  assume s: "free_slots inv holds ms s"
  let ?r = "answer env (events s) c"
  let ?s1 = "s\<lparr>events := events s @ [Lib c ?r]\<rparr>"
  have "free_slots inv holds ms ?s1"
    using s by (simp add: free_slots_def)
  then obtain t where "g ?r ?s1 = (st, t)" "did inv holds ms ?s1 t"
    using assms [OF answers] by (auto simp: works_def)
  moreover have "lib env c s = (?r, ?s1)"
    by (simp add: lib_def Let_def)
  moreover have "did inv holds ms s t" if "did inv holds ms ?s1 t" for t
  proof -
    obtain es where "events t = events ?s1 @ es" "map fst (execs es) = ms"
      using \<open>did inv holds ms ?s1 t\<close> by (auto simp: did_def)
    then have "events t = events s @ (Lib c ?r # es) \<and> map fst (execs (Lib c ?r # es)) = ms"
      by simp
    with that show ?thesis
      unfolding did_def by auto
  qed
  ultimately show "\<exists>t. (case lib env c s of (r, s1) \<Rightarrow> g r s1) = (st, t) \<and> did inv holds ms s t"
    by simp
qed

lemma done_works: "works inv holds (\<lambda>s. (st, s)) [] st"
  using works_return [of "\<lambda>s. s"] by (simp add: keeps_def)

lemma call_works: "works inv holds (\<lambda>s. (st, snd (lib env c s))) [] st"
proof -
  have "works inv holds (\<lambda>s. case lib env c s of (r, s1) \<Rightarrow> (st, s1)) [] st"
    by (intro lib_works done_works)
  then show ?thesis
    by (simp add: case_prod_unfold)
qed

lemmas works_rules = works_status works_libraries works_dependency loads_work' lib_works done_works works_return

lemma libraries_fileXio: "works inv holds (initLibraries_fileXio env) [] FILEXIO_INIT_STATUS_OK"
  unfolding initLibraries_fileXio_def [abs_def] Let_def
  by (auto intro!: lib_works call_works done_works)

lemma libraries_netman: "works inv holds (initLibraries_netman env) [] NETMAN_INIT_STATUS_OK"
  unfolding initLibraries_netman_def [abs_def] Let_def
  by (auto intro!: lib_works call_works done_works)

lemma libraries_joystick: "works inv holds (initLibraries_joystick env) [] JOYSTICK_INIT_STATUS_OK"
  unfolding initLibraries_joystick_def [abs_def] Let_def
  by (auto intro!: lib_works call_works done_works)

lemma libraries_audio: "works inv holds (initLibraries_audio env) [] AUDIO_INIT_STATUS_OK"
  unfolding initLibraries_audio_def [abs_def] Let_def
  by (auto intro!: lib_works call_works done_works)

lemma libraries_poweroff: "works inv holds (initLibraries_poweroff env) [] POWEROFF_INIT_STATUS_OK"
  unfolding initLibraries_poweroff_def [abs_def] Let_def
  by (auto intro!: lib_works call_works done_works)

lemma libraries_mouse: "works inv holds (initLibraries_mouse env) [] MOUSE_INIT_STATUS_OK"
  unfolding initLibraries_mouse_def [abs_def] Let_def
  by (auto intro!: lib_works call_works done_works)

lemma libraries_keyboard: "works inv holds (initLibraries_keyboard env) [] KEYBOARD_INIT_STATUS_OK"
  unfolding initLibraries_keyboard_def [abs_def] Let_def
  by (auto intro!: lib_works call_works done_works)

lemma libraries_camera: "works inv holds (initLibraries_camera env) [] CAMERA_INIT_STATUS_OK"
  unfolding initLibraries_camera_def [abs_def] Let_def
  by (auto intro!: lib_works call_works done_works)

lemma libraries_iopip: "works inv holds (initLibraries_iopip env) [] IOPIP_INIT_STATUS_OK"
  unfolding initLibraries_iopip_def [abs_def] Let_def
  by (auto intro!: lib_works call_works done_works)

lemma init_sio2man_works: "works inv holds (init_sio2man_driver env) [SIO2MAN] SIO2MAN_INIT_STATUS_OK"
  unfolding init_sio2man_driver_def [abs_def] loadIRXs_sio2man_def [abs_def] Let_def
  by (auto intro!: works_rules simp: keeps_def simp del: load_irxs.simps)

lemma init_fileXio_works: "works inv holds (init_fileXio_driver env) [IOMANX, FILEXIO] FILEXIO_INIT_STATUS_OK"
  unfolding init_fileXio_driver_def [abs_def] loadIRXs_fileXio_def [abs_def] Let_def
  by (auto intro!: works_rules libraries_fileXio simp: keeps_def simp del: load_irxs.simps)

lemma init_bdm_works: "works inv holds (init_bdm_driver env) [BDM, BDMFS_FATFS] BDM_INIT_STATUS_OK"
  unfolding init_bdm_driver_def [abs_def] loadIRXs_bdm_def [abs_def] Let_def
  by (auto intro!: works_rules simp: keeps_def simp del: load_irxs.simps)

lemma init_usbd_works: "works inv holds (init_usbd_driver env) [USBD] USBD_INIT_STATUS_OK"
  unfolding init_usbd_driver_def [abs_def] loadIRXs_usbd_def [abs_def] Let_def
  by (auto intro!: works_rules simp: keeps_def simp del: load_irxs.simps)

lemma init_dev9_works: "works inv holds (init_dev9_driver env) [PS2DEV9] DEV9_INIT_STATUS_OK"
  unfolding init_dev9_driver_def [abs_def] loadIRXs_dev9_def [abs_def] Let_def
  by (auto intro!: works_rules simp: keeps_def simp del: load_irxs.simps)

lemma init_netman_works: "works inv holds (init_netman_driver env) [NETMAN] NETMAN_INIT_STATUS_OK"
  unfolding init_netman_driver_def [abs_def] loadIRXs_netman_def [abs_def] Let_def
  by (auto intro!: works_rules libraries_netman simp: keeps_def simp del: load_irxs.simps)

lemma init_smap_works: "works inv holds (init_smap_driver env) [SMAP] SMAP_INIT_STATUS_OK"
  unfolding init_smap_driver_def [abs_def] loadIRXs_smap_def [abs_def] Let_def
  by (auto intro!: works_rules simp: keeps_def simp del: load_irxs.simps)

lemma init_memcard_works: "works inv holds (init_memcard_driver env True) [SIO2MAN, MCMAN, MCSERV] MEMCARD_INIT_STATUS_IRX_OK"
  unfolding init_memcard_driver_def [abs_def] loadIRXs_memcard_def [abs_def] Let_def
  by (auto intro!: works_rules init_sio2man_works simp: keeps_def simp del: load_irxs.simps)

lemma init_usb_works: "works inv holds (init_usb_driver env True) [BDM, BDMFS_FATFS, USBD, USBMASS_BD] USB_INIT_STATUS_IRX_OK"
  unfolding init_usb_driver_def [abs_def] loadIRXs_usb_def [abs_def] Let_def
  by (auto intro!: works_rules init_bdm_works init_usbd_works simp: keeps_def simp del: load_irxs.simps)

lemma init_mx4sio_works: "works inv holds (init_mx4sio_driver env True) [SIO2MAN, BDM, BDMFS_FATFS, MX4SIO_BD] MX4SIO_INIT_STATUS_OK"
  unfolding init_mx4sio_driver_def [abs_def] loadIRXs_mx4sio_def [abs_def] Let_def
  by (auto intro!: works_rules init_sio2man_works init_bdm_works simp: keeps_def simp del: load_irxs.simps)

lemma init_cdfs_works: "works inv holds (init_cdfs_driver env) [CDFS] CDFS_INIT_STATUS_IRX_OK"
  unfolding init_cdfs_driver_def [abs_def] loadIRXs_cdfs_def [abs_def] Let_def
  by (auto intro!: works_rules simp: keeps_def simp del: load_irxs.simps)

lemma hddCheck_works:
  assumes "\<And>r. 0 \<le> r \<Longrightarrow> works inv holds (g r) ms st"
  shows "works inv holds (\<lambda>s. case hddCheck env s of (r, s1) \<Rightarrow> g r s1) ms st"
proof -
  have "works inv holds (\<lambda>s. case lib env (FileXioDevctl ''hdd0:'' ''HDIOC_STATUS'') s of
      (ret, s1) \<Rightarrow> if ret \<ge> 3 \<or> ret < 0 then g (-1) s1 else g ret s1) ms st"
    by (rule lib_works) (auto intro!: assms)
  moreover have "(\<lambda>s. case hddCheck env s of (r, s1) \<Rightarrow> g r s1) =
      (\<lambda>s. case lib env (FileXioDevctl ''hdd0:'' ''HDIOC_STATUS'') s of
         (ret, s1) \<Rightarrow> if ret \<ge> 3 \<or> ret < 0 then g (-1) s1 else g ret s1)"
    by (auto simp: fun_eq_iff hddCheck_def split: prod.splits)
  ultimately show ?thesis
    by simp
qed

lemma loadIRXs_hdd_works: "works inv holds (loadIRXs_hdd env) [PS2ATAD, PS2HDD, PS2FS] HDD_INIT_STATUS_IRX_OK"
proof -
  let ?first = "[(PS2ATAD, no_args, HDD_INIT_STATUS_PS2ATAD_IRX_ERROR),
      (PS2HDD, hdd_args, HDD_INIT_STATUS_PS2HDD_IRX_ERROR)]"
  let ?rest = "\<lambda>s. case hddCheck env s of (ret, s2) \<Rightarrow>
      if ret < 0 then (HDD_INIT_STATUS_HDD_NOT_READY_ERROR, s2)
      else load_irxs env [(PS2FS, hdd_args, HDD_INIT_STATUS_PS2FS_IRX_ERROR)] HDD_INIT_STATUS_IRX_OK s2"
  have "works inv holds ?rest [PS2FS] HDD_INIT_STATUS_IRX_OK"
    by (auto intro!: hddCheck_works loads_work' simp del: load_irxs.simps)
  then show ?thesis
    unfolding loadIRXs_hdd_def [abs_def] Let_def
    using works_bind [of inv holds "load_irxs env ?first HDD_INIT_STATUS_IRX_OK" "[PS2ATAD, PS2HDD]"
        HDD_INIT_STATUS_IRX_OK "\<lambda>st s1. if st \<noteq> HDD_INIT_STATUS_IRX_OK then (st, s1) else ?rest s1"
        "[PS2FS]" HDD_INIT_STATUS_IRX_OK]
      loads_work [of ?first HDD_INIT_STATUS_IRX_OK]
    by (simp del: load_irxs.simps)
qed

lemma init_hdd_works: "works inv holds (init_hdd_driver env True False) [IOMANX, FILEXIO, PS2DEV9, BDM, BDMFS_FATFS, PS2ATAD, PS2HDD, PS2FS] HDD_INIT_STATUS_IRX_OK"
  unfolding init_hdd_driver_def [abs_def] Let_def
  by (auto intro!: works_rules init_fileXio_works init_dev9_works init_bdm_works loadIRXs_hdd_works simp: keeps_def simp del: load_irxs.simps)

lemma init_joystick_works: "works inv holds (init_joystick_driver env True) [SIO2MAN, MTAPMAN, PADMAN] JOYSTICK_INIT_STATUS_OK"
  unfolding init_joystick_driver_def [abs_def] loadIRXs_joystick_def [abs_def] Let_def
  by (auto intro!: works_rules init_sio2man_works libraries_joystick simp: keeps_def simp del: load_irxs.simps)

lemma init_audio_works: "works inv holds (init_audio_driver env) [LIBSD, AUDSRV] AUDIO_INIT_STATUS_OK"
  unfolding init_audio_driver_def [abs_def] loadIRXs_audio_def [abs_def] Let_def
  by (auto intro!: works_rules libraries_audio simp: keeps_def simp del: load_irxs.simps)

lemma init_poweroff_works: "works inv holds (init_poweroff_driver env) [POWEROFF] POWEROFF_INIT_STATUS_OK"
  unfolding init_poweroff_driver_def [abs_def] loadIRXs_poweroff_def [abs_def] Let_def
  by (auto intro!: works_rules libraries_poweroff simp: keeps_def simp del: load_irxs.simps)

lemma init_mouse_works: "works inv holds (init_mouse_driver env True) [USBD, PS2MOUSE] MOUSE_INIT_STATUS_OK"
  unfolding init_mouse_driver_def [abs_def] loadIRXs_mouse_def [abs_def] Let_def
  by (auto intro!: works_rules init_usbd_works libraries_mouse simp: keeps_def simp del: load_irxs.simps)

lemma init_keyboard_works: "works inv holds (init_keyboard_driver env True) [USBD, PS2KBD] KEYBOARD_INIT_STATUS_OK"
  unfolding init_keyboard_driver_def [abs_def] loadIRXs_keyboard_def [abs_def] Let_def
  by (auto intro!: works_rules init_usbd_works libraries_keyboard simp: keeps_def simp del: load_irxs.simps)

lemma init_camera_works: "works inv holds (init_camera_driver env True) [USBD, PS2CAM] CAMERA_INIT_STATUS_OK"
  unfolding init_camera_driver_def [abs_def] loadIRXs_camera_def [abs_def] Let_def
  by (auto intro!: works_rules init_usbd_works libraries_camera simp: keeps_def simp del: load_irxs.simps)

lemma init_eeip_works: "works inv holds (init_eeip_driver env True) [PS2DEV9, NETMAN, SMAP] EEIP_INIT_STATUS_OK"
  unfolding init_eeip_driver_def [abs_def] Let_def
  by (auto intro!: works_rules init_dev9_works init_netman_works init_smap_works simp: keeps_def simp del: load_irxs.simps)

lemma init_iopip_works: "works inv holds (init_iopip_driver env True) [PS2DEV9, NETMAN, SMAP, PS2IP_NM, PS2IPS] IOPIP_INIT_STATUS_OK"
  unfolding init_iopip_driver_def [abs_def] loadIRXs_iopip_def [abs_def] Let_def
  by (auto intro!: works_rules init_dev9_works init_netman_works init_smap_works libraries_iopip simp: keeps_def simp del: load_irxs.simps)

lemmas init_works = init_sio2man_works init_fileXio_works init_bdm_works init_usbd_works init_dev9_works init_netman_works init_smap_works init_memcard_works init_usb_works init_mx4sio_works init_cdfs_works init_hdd_works init_joystick_works init_audio_works init_poweroff_works init_mouse_works init_keyboard_works init_camera_works init_eeip_works init_iopip_works

lemma works_result:
  assumes "works inv holds f ms st" "free_slots inv holds ms s"
  shows "\<exists>t. f s = (st, t) \<and> did inv holds ms s t"
  using assms by (auto simp: works_def)

text \<open>Each requirement's driver executes its closure, each module once, and succeeds.\<close>

lemma init_requirement_works:
  assumes "free_slots inv holds (driver_closure r) s"
  shows "\<exists>ms t. distinct ms \<and> set ms = set (driver_closure r) \<and>
    init_requirement env r s = (True, t) \<and> did inv holds ms s t"
proof -
  let ?ms = "case r of PS2_DRIVER_REQ_HDD \<Rightarrow> [IOMANX, FILEXIO, PS2DEV9, BDM, BDMFS_FATFS, PS2ATAD, PS2HDD, PS2FS]
    | _ \<Rightarrow> driver_closure r"
  have ms: "distinct ?ms" "set ?ms = set (driver_closure r)"
    by (cases r; auto)+
  then have "free_slots inv holds ?ms s"
    using assms by (simp add: free_slots_def)
  then have "\<exists>t. init_requirement env r s = (True, t) \<and> did inv holds ?ms s t"
    by (cases r) (auto dest!: works_result [OF init_sio2man_works] works_result [OF init_fileXio_works]
        works_result [OF init_memcard_works] works_result [OF init_bdm_works]
        works_result [OF init_usbd_works] works_result [OF init_usb_works]
        works_result [OF init_mx4sio_works] works_result [OF init_cdfs_works]
        works_result [OF init_dev9_works] works_result [OF init_hdd_works]
        works_result [OF init_joystick_works] works_result [OF init_audio_works]
        works_result [OF init_poweroff_works] works_result [OF init_mouse_works]
        works_result [OF init_keyboard_works] works_result [OF init_camera_works]
        works_result [OF init_netman_works] works_result [OF init_smap_works]
        works_result [OF init_eeip_works] works_result [OF init_iopip_works])
  with ms show ?thesis by blast
qed

end


subsection \<open>The two flavours, working\<close>

lemma resident_loads: "loads (fst (resident sif bytes n args i))"
  by (auto simp: resident_def loads_def case_prod_unfold Let_def)

lemma resident_run:
  "0 \<le> fst (fst (sif_run (resident sif) bs a i)) \<and> snd (fst (sif_run (resident sif) bs a i)) \<in> {Some 0, Some 2}"
  using resident_loads [of sif bs "sint (fst a)" "snd a" i] by (simp add: sif_run_def loads_def)

lemma accepting_accepts: "accepts c (accepting ans es c)"
  by (cases c) (auto simp: accepting_def)

lemma resident_id: "(\<And>bytes n args i. loads (fst (sif bytes n args i))) \<Longrightarrow> resident sif = sif"
  by (simp add: resident_def fun_eq_iff case_prod_unfold Let_def)

lemma accepting_id: "(\<And>es c. accepts c (ans es c)) \<Longrightarrow> accepting ans = ans"
  by (simp add: accepting_def fun_eq_iff)

interpretation image_works: working_drivers "image_env (resident sif) (accepting ans) cfg"
    "\<lambda>s m. staged_map (fst s) (irx_id m)" "sif_run (resident sif)" snd "\<lambda>s. img_inv (fst s)"
  for sif :: "'i sif_exec" and ans cfg
proof unfold_locales
  fix s :: "img_state \<times> 'i" and m k a bs
  assume inv: "img_inv (fst s)"
  show "staged_map (fst s) (irx_id m) = None \<Longrightarrow>
      irx_exec (image_env (resident sif) (accepting ans) cfg) m a s = ((-1, None), s)"
    using image.exec_missing [OF inv] by (simp add: image_env_def)
  show "staged_map (fst s) (irx_id m) = Some bs \<Longrightarrow>
      fst (irx_exec (image_env (resident sif) (accepting ans) cfg) m a s) =
        fst (sif_run (resident sif) bs a (snd s)) \<and>
      snd (snd (irx_exec (image_env (resident sif) (accepting ans) cfg) m a s)) =
        snd (sif_run (resident sif) bs a (snd s))"
    using image.exec_runs [OF inv] by (simp add: image_env_def)
  show "img_inv (fst (snd (irx_exec (image_env (resident sif) (accepting ans) cfg) m a s)))"
    using image.exec_inv [OF inv] by (simp add: image_env_def)
  show "k \<noteq> m \<Longrightarrow>
      staged_map (fst (snd (irx_exec (image_env (resident sif) (accepting ans) cfg) m a s))) (irx_id k) =
        staged_map (fst s) (irx_id k)"
    using image.exec_others [OF inv] by (simp add: image_env_def)
next
  fix bs a and i :: 'i
  show "0 \<le> fst (fst (sif_run (resident sif) bs a i)) \<and>
      snd (fst (sif_run (resident sif) bs a i)) \<in> {Some 0, Some 2}"
    by (rule resident_run)
next
  fix c es
  show "accepts c (answer (image_env (resident sif) (accepting ans) cfg) es c)"
    by (simp add: image_env_def accepting_accepts)
qed

interpretation linked_works: working_drivers "linked_env (resident sif) linked (accepting ans) cfg"
    "\<lambda>i m. Some (linked_bytes linked m)" "sif_run (resident sif)" "\<lambda>i. i" "\<lambda>i. True"
  for sif :: "'i sif_exec" and linked ans cfg
  by unfold_locales
    (simp_all add: linked_env_def linked_exec_result accepting_accepts resident_run del: insert_iff)

text \<open>
  On the image provider, whatever the libraries answer: the modules an initialisation took
  out of the store are those it executed, and the provider stays sound.
\<close>

lemma image_ran:
  assumes "ran (image_env sif ans cfg) M U s t" and "img_inv (fst (prov s))"
  shows "img_inv (fst (prov t))"
    and "m \<notin> M \<Longrightarrow> staged_map (fst (prov t)) (irx_id m) = staged_map (fst (prov s)) (irx_id m)"
proof -
  obtain es where es: "fst ` set (execs es) \<subseteq> M"
      "prov t = snd (exec_list (image_exec sif) (execs es) (prov s))"
    using assms(1) by (auto simp: ran_def image_env_def)
  show "img_inv (fst (prov t))"
    using image.exec_list_inv [OF assms(2)] es(2) by simp
  show "m \<notin> M \<Longrightarrow> staged_map (fst (prov t)) (irx_id m) = staged_map (fst (prov s)) (irx_id m)"
    using image.exec_untouched [OF assms(2), of m "execs es" sif] es by auto
qed

subsection \<open>Release\<close>

lemma slots_lib [simp]: "slots (snd (lib env c s)) = slots s"
  by (simp add: lib_def Let_def)

lemma slots_lib_pair: "lib env c s = (r, t) \<Longrightarrow> slots t = slots s"
  by (auto simp: lib_def Let_def)

text \<open>The loop that switches the expansion bay off returns exactly when some try succeeds.\<close>

lemma after_tries_Suc: "after_tries env (Suc n) s = after_tries env n (snd (try_off env s))"
  by (simp only: after_tries_def funpow_Suc_right o_apply)

lemma dev9_off_loop_step:
  "dev9_off_loop env s =
     (if fst (try_off env s) < 0 then dev9_off_loop env (snd (try_off env s)) else Some (snd (try_off env s)))"
  by (subst dev9_off_loop.simps) (simp add: try_off_def case_prod_unfold Let_def)

lemma dev9_off_loop_ends:
  assumes "\<forall>k < n. fst (try_off env (after_tries env k s)) < 0"
    and "0 \<le> fst (try_off env (after_tries env n s))"
  shows "dev9_off_loop env s = Some (after_tries env (Suc n) s)"
  using assms
proof (induction n arbitrary: s)
  case 0
  then show ?case
    by (subst dev9_off_loop_step) (simp add: after_tries_def)
next
  case (Suc n)
  have "fst (try_off env s) < 0"
    using Suc.prems(1) by (auto simp: after_tries_def)
  moreover have "dev9_off_loop env (snd (try_off env s)) = Some (after_tries env (Suc n) (snd (try_off env s)))"
    using Suc.prems by (intro Suc.IH) (auto simp: after_tries_Suc [symmetric])
  ultimately show ?case
    by (subst dev9_off_loop_step) (simp add: after_tries_Suc)
qed

lemma dev9_off_loop_result:
  assumes "dev9_off_loop env s = Some t"
  shows "\<exists>n. t = after_tries env (Suc n) s \<and> (\<forall>k < n. fst (try_off env (after_tries env k s)) < 0) \<and>
    0 \<le> fst (try_off env (after_tries env n s))"
proof (rule dev9_off_loop.raw_induct [where P = "\<lambda>env s t. \<exists>n. t = after_tries env (Suc n) s \<and>
      (\<forall>k < n. fst (try_off env (after_tries env k s)) < 0) \<and>
      0 \<le> fst (try_off env (after_tries env n s))", OF _ assms], goal_cases)
  case (1 loop env s t)
  let ?s1 = "snd (try_off env s)"
  show ?case
  proof (cases "fst (try_off env s) < 0")
    case True
    then have "loop env ?s1 = Some t"
      using 1(2) by (simp add: try_off_def case_prod_unfold Let_def)
    then obtain n where n: "t = after_tries env (Suc n) ?s1"
        "\<forall>k < n. fst (try_off env (after_tries env k ?s1)) < 0"
        "0 \<le> fst (try_off env (after_tries env n ?s1))"
      using 1(1) by blast
    have "\<forall>k < Suc n. fst (try_off env (after_tries env k s)) < 0"
    proof clarify
      fix k
      assume "k < Suc n"
      then show "fst (try_off env (after_tries env k s)) < 0"
        using True n(2) by (cases k) (auto simp: after_tries_Suc, simp add: after_tries_def)
    qed
    with n show ?thesis
      by (intro exI [of _ "Suc n"]) (simp add: after_tries_Suc)
  next
    case False
    then have "t = ?s1"
      using 1(2) by (simp add: try_off_def case_prod_unfold Let_def)
    with False show ?thesis
      by (intro exI [of _ 0]) (simp add: after_tries_def)
  qed
qed

lemma slots_after_tries [simp]: "slots (after_tries env n s) = slots s"
  by (induction n arbitrary: s) (simp_all add: after_tries_Suc, simp_all add: after_tries_def try_off_def)

lemma slots_dev9_off_loop: "dev9_off_loop env s = Some t \<Longrightarrow> slots t = slots s"
  by (auto dest!: dev9_off_loop_result)

text \<open>Releasing a requirement's driver resets the slots of the closure that can be unloaded.\<close>

lemmas deinit_defs = unloadIRXs_sio2man_def deinit_sio2man_driver_def unloadIRXs_fileXio_def
  deinit_fileXio_driver_def unloadIRXs_memcard_def deinit_memcard_driver_def unloadIRXs_bdm_def
  deinit_bdm_driver_def unloadIRXs_usbd_def deinit_usbd_driver_def unloadIRXs_usb_def
  deinit_usb_driver_def unloadIRXs_mx4sio_def deinit_mx4sio_driver_def unloadIRXs_cdfs_def
  deinit_cdfs_driver_def unloadIRXs_dev9_def deinit_dev9_driver_def unloadIRXs_hdd_def
  deinit_hdd_driver_def deinitLibraries_joystick_def unloadIRXs_joystick_def
  deinit_joystick_driver_def deinitLibraries_audio_def unloadIRXs_audio_def
  deinit_audio_driver_def unloadIRXs_poweroff_def deinit_poweroff_driver_def
  unloadIRXs_mouse_def deinit_mouse_driver_def unloadIRXs_keyboard_def
  deinit_keyboard_driver_def unloadIRXs_camera_def deinit_camera_driver_def
  unloadIRXs_netman_def deinit_netman_driver_def unloadIRXs_smap_def deinit_smap_driver_def
  deinit_eeip_driver_def deinitLibraries_iopip_def unloadIRXs_iopip_def deinit_iopip_driver_def

lemma deinit_requirement_slots:
  assumes "deinit_requirement env r s = Some t"
  shows "slots t m =
    (if m \<in> set (driver_closure r) \<and> CHECK_IRX_UNLOAD (slots s m) then reset_slot else slots s m)"
proof -
  have no: "\<not> CHECK_IRX_UNLOAD reset_slot"
    by (simp add: slot_defs)
  show ?thesis
    using assms no by (cases r) (auto simp: deinit_defs unload_irxs_slot Let_def
        dest!: slots_dev9_off_loop split: if_splits)
qed

end
