(* ===== verification/Sample_Image.thy ===== *)
theory Sample_Image
  imports Driver_Success
begin

text \<open>
  A small image and a concrete start: an image with the modules iomanX, fileXio and usbd, in
  a file of a program that has just started. The instances of the properties are taken here.
\<close>

definition iomanX_bytes :: "u8 list" where "iomanX_bytes = [0x4d, 0x01]"
definition fileXio_bytes :: "u8 list" where "fileXio_bytes = [0x55]"
definition usbd_bytes :: "u8 list" where "usbd_bytes = [0x7f]"

definition iomanX_entry :: irx_image_entry where
  "iomanX_entry = \<lparr>e_id = 2, e_offset = 112, e_size = 2, e_crc32 = 0x73091321, e_flags = 0\<rparr>"

definition fileXio_entry :: irx_image_entry where
  "fileXio_entry = \<lparr>e_id = 3, e_offset = 128, e_size = 1, e_crc32 = 0xc9034af6, e_flags = 0\<rparr>"

definition usbd_entry :: irx_image_entry where
  "usbd_entry = \<lparr>e_id = 8, e_offset = 144, e_size = 1, e_crc32 = 0x12b88320, e_flags = 0\<rparr>"

definition sample_image :: "u8 list" where
  "sample_image =
     IRXIMG_MAGIC @ concat (map write_u32_le [1, 44, 3, 20, 44, 112, 145, 0, 0]) @
     concat (map (\<lambda>e. concat (map write_u32_le [e_id e, e_offset e, e_size e, e_crc32 e, e_flags e]))
       [iomanX_entry, fileXio_entry, usbd_entry]) @
     [0, 0, 0, 0, 0, 0, 0, 0] @ iomanX_bytes @ [0, 0, 0, 0, 0, 0, 0, 0, 0, 0, 0, 0, 0, 0] @ fileXio_bytes @ 
     [0, 0, 0, 0, 0, 0, 0, 0, 0, 0, 0, 0, 0, 0, 0] @ usbd_bytes"

definition sample_path :: string where
  "sample_path = ''drivers.irximg''"

text \<open>The program starts: nothing staged, one file on the disk.\<close>

definition fresh :: "bool list \<Rightarrow> img_state" where
  "fresh outcomes =
     \<lparr>files = (\<lambda>p. if p = sample_path then Some sample_image else None), cwd = Some ''mass:/'',
      faults = outcomes, heap = Map.empty, brk = 1, opened = 0, ub = False,
      g_staged_modules = 0, g_staged_capacity = 0, g_staged_count = 0, g_staged_bytes = 0,
      g_image_path = 0, g_last_requirements = 0\<rparr>"

abbreviation usbd_req :: u32 where
  "usbd_req \<equiv> req_mask PS2_DRIVER_REQ_USBD"

abbreviation fileXio_req :: u32 where
  "fileXio_req \<equiv> req_mask PS2_DRIVER_REQ_FILEXIO"

lemma fresh_initial: "img_initial (fresh fs)"
  by (simp add: img_initial_def fresh_def heap_wf_def)

lemma fresh_inv: "img_inv (fresh fs)"
  by (rule img_initial_inv [OF fresh_initial])

lemma fresh_reachable: "img_reachable (fresh fs)"
  by (rule img_reachable.start [OF fresh_initial])

lemma fresh_succeeds: "all_succeed (fresh [])"
  by (simp add: all_succeed_def fresh_def)

lemma magic_bytes: "IRXIMG_MAGIC = [80, 83, 50, 73, 82, 88, 48, 49]"
  by (simp add: IRXIMG_MAGIC_def)

lemma sample_image_bytes: "sample_image =
  [80, 83, 50, 73, 82, 88, 48, 49, 1, 0, 0, 0, 44, 0, 0, 0,
   3, 0, 0, 0, 20, 0, 0, 0, 44, 0, 0, 0, 112, 0, 0, 0,
   145, 0, 0, 0, 0, 0, 0, 0, 0, 0, 0, 0, 2, 0, 0, 0,
   112, 0, 0, 0, 2, 0, 0, 0, 33, 19, 9, 115, 0, 0, 0, 0,
   3, 0, 0, 0, 128, 0, 0, 0, 1, 0, 0, 0, 246, 74, 3, 201,
   0, 0, 0, 0, 8, 0, 0, 0, 144, 0, 0, 0, 1, 0, 0, 0,
   32, 131, 184, 18, 0, 0, 0, 0, 0, 0, 0, 0, 0, 0, 0, 0,
   77, 1, 0, 0, 0, 0, 0, 0, 0, 0, 0, 0, 0, 0, 0, 0,
   85, 0, 0, 0, 0, 0, 0, 0, 0, 0, 0, 0, 0, 0, 0, 0,
   127]"
  by (simp add: sample_image_def magic_bytes iomanX_bytes_def fileXio_bytes_def usbd_bytes_def
      iomanX_entry_def fileXio_entry_def usbd_entry_def write_u32_le_def)

lemma sample_header: "read_header (take 44 sample_image) =
  \<lparr>h_version = 1, h_header_size = 44, h_entry_count = 3, h_entry_size = 20,
   h_entry_table_offset = 44, h_payload_offset = 112, h_declared_file_size = 145, h_flags = 0\<rparr>"
  by (simp add: sample_image_bytes read_header_def read_u32_le_def)

lemma sample_entries:
  "raw_entries (bytes_at 44 60 sample_image) 3 = [iomanX_entry, fileXio_entry, usbd_entry]"
proof -
  have "raw_entries t 3 = [read_entry t, read_entry (drop 20 t), read_entry (drop 40 t)]" for t
    by (simp add: raw_entries_def numeral_3_eq_3)
  then show ?thesis
    by (simp add: bytes_at_def sample_image_bytes read_entry_def read_u32_le_def
        iomanX_entry_def fileXio_entry_def usbd_entry_def)
qed

lemma sample_directory: "image_directory sample_image = Some [iomanX_entry, fileXio_entry, usbd_entry]"
proof -
  have "length sample_image = 145" "take 8 (take 44 sample_image) = IRXIMG_MAGIC"
    by (simp_all add: sample_image_bytes magic_bytes)
  with sample_entries show ?thesis
    by (simp add: image_directory_def header_ok_def sample_header format_defs entry_bad_def
        iomanX_entry_def fileXio_entry_def usbd_entry_def)
qed

lemma sample_crcs:
  "crc32_bytes iomanX_bytes = 0x73091321" "crc32_bytes fileXio_bytes = 0xc9034af6"
  "crc32_bytes usbd_bytes = 0x12b88320"
  by code_simp+

lemma sample_payloads:
  "bytes_at 112 2 sample_image = iomanX_bytes" "bytes_at 128 1 sample_image = fileXio_bytes"
  "bytes_at 144 1 sample_image = usbd_bytes" "length sample_image = 145"
  by (simp_all add: sample_image_bytes bytes_at_def iomanX_bytes_def fileXio_bytes_def usbd_bytes_def)

text \<open>What the image specifies for two requirements.\<close>

lemma usbd_spec: "stage_spec sample_image usbd_req = Inr [(8, usbd_bytes)]"
proof -
  have "requested_ids (expand_requirements usbd_req no_modules) = [8]"
    by code_simp
  then show ?thesis
    by (simp add: stage_spec_def file_spec_def sample_directory sample_crcs sample_payloads
        sample_payloads(2,3) [simplified]
        iomanX_entry_def fileXio_entry_def usbd_entry_def)
qed

lemma fileXio_spec:
  "stage_spec sample_image fileXio_req = Inr [(2, iomanX_bytes), (3, fileXio_bytes)]"
proof -
  have "requested_ids (expand_requirements fileXio_req no_modules) = [2, 3]"
    by code_simp
  then show ?thesis
    by (simp add: stage_spec_def file_spec_def sample_directory sample_crcs sample_payloads
        sample_payloads(2,3) [simplified]
        iomanX_entry_def fileXio_entry_def usbd_entry_def)
qed

lemma sample_file: "files (fresh fs) sample_path = Some sample_image"
  by (simp add: fresh_def)

lemma fresh_store: "staged_map (fresh fs) = Map.empty"
  by (simp add: staged_map_def fresh_def)

lemma usbd_outcome:
  "stage_outcome (staged_map (fresh fs)) (files (fresh fs)) (Some sample_path) usbd_req = Inr [(8, usbd_bytes)]"
  by (simp add: stage_outcome_def sample_file fresh_store usbd_spec) (simp add: req_mask_def)

lemma fileXio_outcome:
  "stage_outcome (staged_map (fresh fs)) (files (fresh fs)) (Some sample_path) fileXio_req =
     Inr [(2, iomanX_bytes), (3, fileXio_bytes)]"
  by (simp add: stage_outcome_def sample_file fresh_store fileXio_spec) (simp add: req_mask_def)

end
