(* ===== verification/Filesystem.thy ===== *)
theory Filesystem
  imports Hdd_Mount Driver_Success
begin

text \<open>
  The facade over the filesystem drivers (src/ps2_filesystem_driver.c): initialising all of them
  or only those of the device the program was started from, waiting until the device answers,
  and releasing them, which the power-off button does too. The statuses of the drivers are
  ignored, as in the code. None stands for a call that does not return: a failing assertion
  while mounting, or the endless loop while releasing dev9.
\<close>

subsection \<open>Waiting for the device\<close>

text \<open>The loop, over the retries that are left and the last answer.\<close>

fun wait_ready :: "'p drv_env \<Rightarrow> string \<Rightarrow> nat \<Rightarrow> int \<Rightarrow> 'p drv \<Rightarrow> int \<times> 'p drv" where
  "wait_ready env path 0 ret s = (ret, s)"
| "wait_ready env path (Suc retries) ret s =
     (if ret \<noteq> 0 then
        let (ret', s1) = lib env (Stat path) s
        in wait_ready env path retries ret' (snd (lib env Nopdelay s1))
      else (ret, s))"

definition waitUntilDeviceIsReady :: "'p drv_env \<Rightarrow> string \<Rightarrow> 'p drv \<Rightarrow> bool \<times> 'p drv" where
  "waitUntilDeviceIsReady env path s =
     (let (ret, t) = wait_ready env path 500 (-1) s in (ret = 0, t))"

subsection \<open>All filesystems\<close>

definition internal_deinit_ps2_filesystem_driver :: "'p drv_env \<Rightarrow> bool \<Rightarrow> 'p drv \<Rightarrow> 'p drv option" where
  "internal_deinit_ps2_filesystem_driver env deinit_powerOff s =
     (case deinit_hdd_driver env False s of
        None \<Rightarrow> None
      | Some s1 \<Rightarrow>
          let s2 = deinit_cdfs_driver env s1;
              s3 = snd (init_mx4sio_driver env False s2);
              s4 = deinit_usb_driver env True s3;
              s5 = deinit_memcard_driver env True s4;
              s6 = deinit_fileXio_driver env s5
          in case deinit_dev9_driver env s6 of
               None \<Rightarrow> None
             | Some s7 \<Rightarrow> Some (if deinit_powerOff then deinit_poweroff_driver env s7 else s7))"

definition deinit_ps2_filesystem_driver :: "'p drv_env \<Rightarrow> 'p drv \<Rightarrow> 'p drv option" where
  "deinit_ps2_filesystem_driver env s =
     internal_deinit_ps2_filesystem_driver env True (umount_current_hdd_partition env s)"

definition poweroffHandler_all :: "'p drv_env \<Rightarrow> 'p drv \<Rightarrow> 'p drv option" where
  "poweroffHandler_all env s =
     map_option (\<lambda>t. snd (lib env PoweroffShutdown t)) (internal_deinit_ps2_filesystem_driver env False s)"

definition init_ps2_filesystem_driver ::
  "'p drv_env \<Rightarrow> mount_world \<Rightarrow> 'p drv \<Rightarrow> (mount_world \<times> 'p drv) option" where
  "init_ps2_filesystem_driver env w s =
     (let s1 = snd (init_poweroff_driver env s);
          s2 = snd (init_fileXio_driver env s1);
          s3 = snd (init_memcard_driver env True s2);
          s4 = snd (init_usb_driver env True s3);
          s5 = snd (init_mx4sio_driver env False s4);
          s6 = snd (init_cdfs_driver env s5);
          s7 = snd (init_dev9_driver env s6);
          s8 = snd (init_hdd_driver env False True s7);
          s9 = snd (lib env (PoweroffSetCallback Handler_all) s8)
      in case mount_current_hdd_partition env w s9 of
           None \<Rightarrow> None
         | Some (st, w1, s10) \<Rightarrow> Some (w1, snd (waitUntilDeviceIsReady env (cwd_path s10) s10)))"

subsection \<open>Only the boot device\<close>

text \<open>The variable \<^verbatim>\<open>__boot_device_id\<close> is a field of the state; no function assigns it.\<close>

definition internal_deinit_only_boot :: "'p drv_env \<Rightarrow> bool \<Rightarrow> 'p drv \<Rightarrow> 'p drv option" where
  "internal_deinit_only_boot env deinit_powerOff s =
     map_option (deinit_fileXio_driver env)
       (if boot_device_id s \<in> {BOOT_DEVICE_MC0, BOOT_DEVICE_MC1}
        then Some (deinit_memcard_driver env True s)
        else if boot_device_id s \<in> {BOOT_DEVICE_CDROM, BOOT_DEVICE_CDFS}
        then Some (deinit_cdfs_driver env s)
        else if boot_device_id s \<in> {BOOT_DEVICE_MASS, BOOT_DEVICE_MASS0, BOOT_DEVICE_MASS1,
               BOOT_DEVICE_MX4SIO, BOOT_DEVICE_MX4SIO0, BOOT_DEVICE_MX4SIO1}
        then Some (deinit_mx4sio_driver env True (deinit_usb_driver env True s))
        else if boot_device_id s \<in> {BOOT_DEVICE_HDD, BOOT_DEVICE_HDD0}
        then case deinit_hdd_driver env False s of
               None \<Rightarrow> None
             | Some s1 \<Rightarrow>
                 map_option (\<lambda>s2. if deinit_powerOff then deinit_poweroff_driver env s2 else s2)
                   (deinit_dev9_driver env s1)
        else Some s)"

definition deinit_only_boot_ps2_filesystem_driver :: "'p drv_env \<Rightarrow> 'p drv \<Rightarrow> 'p drv option" where
  "deinit_only_boot_ps2_filesystem_driver env s =
     internal_deinit_only_boot env True
       (if boot_device_id s \<in> {BOOT_DEVICE_HDD, BOOT_DEVICE_HDD0}
        then umount_current_hdd_partition env s else s)"

definition poweroffHandler_only_boot :: "'p drv_env \<Rightarrow> 'p drv \<Rightarrow> 'p drv option" where
  "poweroffHandler_only_boot env s =
     map_option (\<lambda>t. snd (lib env PoweroffShutdown t)) (internal_deinit_only_boot env False s)"

definition init_only_boot_ps2_filesystem_driver ::
  "'p drv_env \<Rightarrow> mount_world \<Rightarrow> 'p drv \<Rightarrow> (mount_world \<times> 'p drv) option" where
  "init_only_boot_ps2_filesystem_driver env w s =
     (let boot_device = getBootDeviceID (Some (cwd_path s));
          s1 = snd (init_fileXio_driver env s)
      in case
        (if boot_device \<in> {BOOT_DEVICE_MC0, BOOT_DEVICE_MC1}
         then Some (w, snd (init_memcard_driver env True s1), cwd_path s)
         else if boot_device \<in> {BOOT_DEVICE_CDROM, BOOT_DEVICE_CDFS}
         then Some (w, snd (init_cdfs_driver env s1), cwd_path s)
         else if boot_device \<in> {BOOT_DEVICE_MASS, BOOT_DEVICE_MASS0, BOOT_DEVICE_MASS1,
                BOOT_DEVICE_MX4SIO, BOOT_DEVICE_MX4SIO0, BOOT_DEVICE_MX4SIO1}
         then Some (w, snd (init_mx4sio_driver env True (snd (init_usb_driver env True s1))), cwd_path s)
         else if boot_device \<in> {BOOT_DEVICE_HDD, BOOT_DEVICE_HDD0}
         then let s2 = snd (init_poweroff_driver env s1);
                  s3 = snd (init_dev9_driver env s2);
                  s4 = snd (init_hdd_driver env False False s3);
                  s5 = snd (lib env (PoweroffSetCallback Handler_only_boot) s4)
              in case mount_current_hdd_partition env w s5 of
                   None \<Rightarrow> None
                 | Some (st, w1, s6) \<Rightarrow> Some (w1, s6, cwd_path s6)
         else Some (w, s1, cwd_path s))
      of None \<Rightarrow> None
       | Some (w1, t, path) \<Rightarrow> Some (w1, snd (waitUntilDeviceIsReady env path t)))"

subsection \<open>Waiting\<close>

text \<open>The answers to the calls of \<^verbatim>\<open>stat\<close>, as the \<open>n\<close>-th try finds them.\<close>

definition stat_once :: "'p drv_env \<Rightarrow> string \<Rightarrow> 'p drv \<Rightarrow> int \<times> 'p drv" where
  "stat_once env path s =
     (let (r, s1) = lib env (Stat path) s in (r, snd (lib env Nopdelay s1)))"

definition after_stats :: "'p drv_env \<Rightarrow> string \<Rightarrow> nat \<Rightarrow> 'p drv \<Rightarrow> 'p drv" where
  "after_stats env path n s = ((\<lambda>s. snd (stat_once env path s)) ^^ n) s"

lemma after_stats_Suc: "after_stats env path (Suc n) s = after_stats env path n (snd (stat_once env path s))"
  by (simp only: after_stats_def funpow_Suc_right o_apply)

lemma after_stats_0 [simp]: "after_stats env path 0 s = s"
  by (simp add: after_stats_def)

lemma wait_ready_done: "wait_ready env path n 0 s = (0, s)"
  by (cases n) simp_all

lemma wait_ready_step:
  "ret \<noteq> 0 \<Longrightarrow> wait_ready env path (Suc n) ret s =
    wait_ready env path n (fst (stat_once env path s)) (snd (stat_once env path s))"
  by (simp add: stat_once_def case_prod_unfold Let_def)

text \<open>The first try that is answered with 0 ends the loop ...\<close>

lemma wait_ready_finds:
  assumes "\<forall>i < k. fst (stat_once env path (after_stats env path i s)) \<noteq> 0"
    and "fst (stat_once env path (after_stats env path k s)) = 0" and "k < n" and "ret \<noteq> 0"
  shows "wait_ready env path n ret s = (0, after_stats env path (Suc k) s)"
  using assms
proof (induction k arbitrary: n ret s)
  case 0
  then show ?case
    by (cases n) (simp_all add: wait_ready_step wait_ready_done after_stats_Suc del: wait_ready.simps)
next
  case (Suc k)
  obtain m where n: "n = Suc m" "k < m"
    using Suc.prems(3) by (cases n) auto
  let ?s1 = "snd (stat_once env path s)"
  have "\<forall>i < k. fst (stat_once env path (after_stats env path i ?s1)) \<noteq> 0"
    using Suc.prems(1) by (auto simp: after_stats_Suc [symmetric])
  moreover have "fst (stat_once env path (after_stats env path k ?s1)) = 0"
    using Suc.prems(2) by (simp add: after_stats_Suc)
  moreover have "fst (stat_once env path s) \<noteq> 0"
    using Suc.prems(1) by (auto dest: spec [of _ 0])
  ultimately show ?case
    using Suc.IH [of ?s1 m] n Suc.prems(4) by (simp add: wait_ready_step after_stats_Suc del: wait_ready.simps)
qed

text \<open>... and without one the loop ends after the last try.\<close>

lemma wait_ready_fails:
  assumes "\<forall>i < n. fst (stat_once env path (after_stats env path i s)) \<noteq> 0" and "ret \<noteq> 0"
  shows "fst (wait_ready env path n ret s) \<noteq> 0 \<and> snd (wait_ready env path n ret s) = after_stats env path n s"
  using assms
proof (induction n arbitrary: ret s)
  case 0
  then show ?case by simp
next
  case (Suc n)
  let ?s1 = "snd (stat_once env path s)"
  have "\<forall>i < n. fst (stat_once env path (after_stats env path i ?s1)) \<noteq> 0"
    using Suc.prems(1) by (auto simp: after_stats_Suc [symmetric])
  moreover have "fst (stat_once env path s) \<noteq> 0"
    using Suc.prems(1) by (auto dest: spec [of _ 0])
  ultimately show ?case
    using Suc.IH [of ?s1] Suc.prems(2) by (simp add: wait_ready_step after_stats_Suc del: wait_ready.simps)
qed

subsection \<open>Which modules an initialisation executes\<close>

text \<open>Of the modules staged for a hard disk, those of bdm are not used by this initialisation.\<close>

definition only_boot_modules :: "BootDeviceIDs \<Rightarrow> irx set" where
  "only_boot_modules d = required_modules (ps2_drivers_img_requirements_for_boot_device d) -
     (if d \<in> {BOOT_DEVICE_HDD, BOOT_DEVICE_HDD0} then {BDM, BDMFS_FATFS} else {})"

lemma ran_wait_ready: "ran env M U s t \<Longrightarrow> ran env M U s (snd (wait_ready env path n ret t))"
  by (induction n arbitrary: ret t) (auto simp: case_prod_unfold Let_def intro!: ran_intros)

lemma ran_waitUntil: "ran env M U s t \<Longrightarrow> ran env M U s (snd (waitUntilDeviceIsReady env path t))"
  using ran_wait_ready [of env M U s t path 500 "-1"]
  by (simp add: waitUntilDeviceIsReady_def case_prod_unfold Let_def)

lemma ran_status_mount [simp]:
  "ran env M U s (t\<lparr>mountString := x\<rparr>) = ran env M U s t"
  "ran env M U s (t\<lparr>mount_status := y\<rparr>) = ran env M U s t"
  "ran env M U s (t\<lparr>cwd_path := z\<rparr>) = ran env M U s t"
  by (simp_all add: ran_def)

lemma ran_mount:
  "mount_current_hdd_partition env w t = Some (st, w', u) \<Longrightarrow> ran env M U s t \<Longrightarrow> ran env M U s u"
  by (auto simp: mount_current_hdd_partition_def chdir_def case_prod_unfold Let_def
      split: if_splits option.splits intro!: ran_intros)

lemma may_load_self: "m \<in> M \<Longrightarrow> m \<in> may_load M M s"
  by (simp add: may_load_def)

lemma only_boot_modules_fileXio: "{IOMANX, FILEXIO} \<subseteq> only_boot_modules d"
  by (cases d) (auto simp: only_boot_modules_def required_modules_or)

lemma init_only_boot_ran:
  fixes s :: "'p drv"
  assumes run: "init_only_boot_ps2_filesystem_driver env w s = Some (w', t)"
  defines "M \<equiv> only_boot_modules (getBootDeviceID (Some (cwd_path s)))"
  shows "ran env M M s t"
proof -
  define d where "d = getBootDeviceID (Some (cwd_path s))"
  have "IOMANX \<in> M" "FILEXIO \<in> M"
    using only_boot_modules_fileXio by (auto simp: M_def)
  then have s1: "ran env M M s (snd (init_fileXio_driver env s))"
    by (intro init_fileXio_ran) (auto intro: may_load_self)
  obtain w1 u path where u: "ran env M M s u" "t = snd (waitUntilDeviceIsReady env path u)"
  proof (cases "d \<in> {BOOT_DEVICE_HDD, BOOT_DEVICE_HDD0}")
    case True
    then have mods: "POWEROFF \<in> M" "PS2DEV9 \<in> M" "PS2ATAD \<in> M" "PS2HDD \<in> M" "PS2FS \<in> M"
      by (auto simp: M_def d_def [symmetric] only_boot_modules_def required_modules_or)
    define s5 where "s5 = snd (lib env (PoweroffSetCallback Handler_only_boot) (snd (init_hdd_driver env False False
        (snd (init_dev9_driver env (snd (init_poweroff_driver env (snd (init_fileXio_driver env s)))))))))"
    have s5: "ran env M M s s5"
      unfolding s5_def
      by (intro ran_intros(1) init_hdd_ran init_dev9_ran init_poweroff_ran s1) (auto intro: may_load_self mods)
    from run True obtain st s6 where "mount_current_hdd_partition env w s5 = Some (st, w', s6)"
        "t = snd (waitUntilDeviceIsReady env (cwd_path s6) s6)"
      by (auto simp: init_only_boot_ps2_filesystem_driver_def d_def [symmetric] s5_def Let_def
          split: option.splits)
    with ran_mount [OF _ s5] that show thesis
      by blast
  next
    case False
    note hdd = False
    show thesis
    proof (cases "d \<in> {BOOT_DEVICE_MASS, BOOT_DEVICE_MASS0, BOOT_DEVICE_MASS1,
               BOOT_DEVICE_MX4SIO, BOOT_DEVICE_MX4SIO0, BOOT_DEVICE_MX4SIO1}")
      case True
      then have mods: "SIO2MAN \<in> M" "BDM \<in> M" "BDMFS_FATFS \<in> M" "USBD \<in> M" "USBMASS_BD \<in> M" "MX4SIO_BD \<in> M"
        by (auto simp: M_def d_def [symmetric] only_boot_modules_def required_modules_or)
      have "ran env M M s (snd (init_mx4sio_driver env True (snd (init_usb_driver env True (snd (init_fileXio_driver env s))))))"
        by (intro init_mx4sio_ran init_usb_ran s1) (auto intro: may_load_self mods)
      moreover have "t = snd (waitUntilDeviceIsReady env (cwd_path s) (snd (init_mx4sio_driver env True
          (snd (init_usb_driver env True (snd (init_fileXio_driver env s)))))))"
        using run True by (auto simp: init_only_boot_ps2_filesystem_driver_def d_def [symmetric] Let_def)
      ultimately show thesis
        by (rule that)
    next
      case False
      have mc: "ran env M M s (snd (init_memcard_driver env True (snd (init_fileXio_driver env s))))"
        if "d \<in> {BOOT_DEVICE_MC0, BOOT_DEVICE_MC1}"
        using that by (intro init_memcard_ran s1)
          (auto simp: M_def d_def [symmetric] only_boot_modules_def required_modules_or intro!: may_load_self)
      have cd: "ran env M M s (snd (init_cdfs_driver env (snd (init_fileXio_driver env s))))"
        if "d \<in> {BOOT_DEVICE_CDROM, BOOT_DEVICE_CDFS}"
        using that by (intro init_cdfs_ran s1)
          (auto simp: M_def d_def [symmetric] only_boot_modules_def required_modules_or intro!: may_load_self)
      show thesis
        using run hdd False mc cd s1 that [of _ "cwd_path s"]
        by (auto simp: init_only_boot_ps2_filesystem_driver_def d_def [symmetric] Let_def split: if_splits)
    qed
  qed
  then show ?thesis
    by (simp add: ran_waitUntil)
qed

lemma init_all_ran:
  fixes s :: "'p drv"
  assumes run: "init_ps2_filesystem_driver env w s = Some (w', t)"
  defines "M \<equiv> required_modules PS2_DRIVER_REQ_FILESYSTEM_ALL"
  shows "ran env M M s t"
proof -
  have M: "POWEROFF \<in> M" "IOMANX \<in> M" "FILEXIO \<in> M" "SIO2MAN \<in> M" "MCMAN \<in> M" "MCSERV \<in> M" "BDM \<in> M"
      "BDMFS_FATFS \<in> M" "USBD \<in> M" "USBMASS_BD \<in> M" "MX4SIO_BD \<in> M" "CDFS \<in> M" "PS2DEV9 \<in> M"
      "PS2ATAD \<in> M" "PS2HDD \<in> M" "PS2FS \<in> M"
    by (simp_all add: M_def PS2_DRIVER_REQ_FILESYSTEM_ALL_def required_modules_or)
  define s9 where "s9 = snd (lib env (PoweroffSetCallback Handler_all) (snd (init_hdd_driver env False True (snd (init_dev9_driver env 
      (snd (init_cdfs_driver env (snd (init_mx4sio_driver env False (snd (init_usb_driver env True 
      (snd (init_memcard_driver env True (snd (init_fileXio_driver env (snd (init_poweroff_driver env s)))))))))))))))))"
  have "ran env M M s s9"
    unfolding s9_def
    by (intro ran_intros(1) init_hdd_ran init_dev9_ran init_cdfs_ran init_mx4sio_ran init_usb_ran
        init_memcard_ran init_fileXio_ran init_poweroff_ran ran_refl) (auto intro: may_load_self M)
  moreover from run obtain st s10 where "mount_current_hdd_partition env w s9 = Some (st, w', s10)"
      "t = snd (waitUntilDeviceIsReady env (cwd_path s10) s10)"
    by (auto simp: init_ps2_filesystem_driver_def s9_def Let_def split: option.splits)
  ultimately show ?thesis
    by (simp add: ran_waitUntil ran_mount)
qed

subsection \<open>Releasing\<close>

text \<open>No initialisation and no library call assigns the variable the release looks at.\<close>

lemma keep_boot_device [simp]:
  "boot_device_id (snd (lib env c s)) = boot_device_id s"
  "boot_device_id (snd (load_irx env m a s)) = boot_device_id s"
  "boot_device_id (snd (load_irxs env ms ok s)) = boot_device_id s"
proof -
  show lib: "boot_device_id (snd (lib env c s)) = boot_device_id s" for c and s :: "'a drv"
    by (simp add: lib_def Let_def)
  show load: "boot_device_id (snd (load_irx env m a s)) = boot_device_id s" for m a and s :: "'a drv"
    by (simp add: load_irx_def case_prod_unfold Let_def)
  show "boot_device_id (snd (load_irxs env ms ok s)) = boot_device_id s"
    using load by (induction ms arbitrary: s) (auto simp: case_prod_unfold Let_def)
qed

lemma keep_boot_dependency:
  "(\<And>s. boot_device_id (snd (init s)) = boot_device_id s) \<Longrightarrow>
    boot_device_id (snd (dependency b init failed s)) = boot_device_id s"
  by (simp add: dependency_def case_prod_unfold Let_def)

lemmas keep_rules = case_prod_unfold Let_def keep_boot_dependency

lemma keep_boot_init [simp]:
  "boot_device_id (snd (init_sio2man_driver env s)) = boot_device_id s"
  "boot_device_id (snd (init_fileXio_driver env s)) = boot_device_id s"
  "boot_device_id (snd (init_bdm_driver env s)) = boot_device_id s"
  "boot_device_id (snd (init_usbd_driver env s)) = boot_device_id s"
  "boot_device_id (snd (init_cdfs_driver env s)) = boot_device_id s"
  "boot_device_id (snd (init_dev9_driver env s)) = boot_device_id s"
  "boot_device_id (snd (init_poweroff_driver env s)) = boot_device_id s"
  by (simp_all add: keep_rules init_sio2man_driver_def loadIRXs_sio2man_def init_fileXio_driver_def
      loadIRXs_fileXio_def initLibraries_fileXio_def init_bdm_driver_def loadIRXs_bdm_def
      init_usbd_driver_def loadIRXs_usbd_def init_cdfs_driver_def loadIRXs_cdfs_def
      init_dev9_driver_def loadIRXs_dev9_def init_poweroff_driver_def loadIRXs_poweroff_def
      initLibraries_poweroff_def del: load_irxs.simps)

lemma keep_boot_init_dependent [simp]:
  "boot_device_id (snd (init_memcard_driver env b s)) = boot_device_id s"
  "boot_device_id (snd (init_usb_driver env b s)) = boot_device_id s"
  "boot_device_id (snd (init_mx4sio_driver env b s)) = boot_device_id s"
  "boot_device_id (snd (init_hdd_driver env b c s)) = boot_device_id s"
  by (simp_all add: keep_rules init_memcard_driver_def loadIRXs_memcard_def init_usb_driver_def
      loadIRXs_usb_def init_mx4sio_driver_def loadIRXs_mx4sio_def init_hdd_driver_def loadIRXs_hdd_def
      hddCheck_def del: load_irxs.simps)

lemma keep_boot_mount:
  "mount_current_hdd_partition env w s = Some (st, w', t) \<Longrightarrow> boot_device_id t = boot_device_id s"
  by (auto simp: mount_current_hdd_partition_def chdir_def case_prod_unfold Let_def
      split: if_splits option.splits)

lemma keep_boot_wait: "boot_device_id (snd (waitUntilDeviceIsReady env path s)) = boot_device_id s"
proof -
  have "boot_device_id (snd (wait_ready env path n ret s)) = boot_device_id s" for n ret
    by (induction n arbitrary: ret s) (auto simp: case_prod_unfold Let_def)
  then show ?thesis
    by (simp add: waitUntilDeviceIsReady_def case_prod_unfold Let_def)
qed

lemma init_only_boot_keeps:
  "init_only_boot_ps2_filesystem_driver env w s = Some (w', t) \<Longrightarrow> boot_device_id t = boot_device_id s"
  by (auto simp: init_only_boot_ps2_filesystem_driver_def Let_def keep_boot_wait
      split: if_splits option.splits dest: keep_boot_mount)

text \<open>The releases execute nothing.\<close>

lemma ran_after_tries: "ran env M U s (after_tries env n s)"
proof (induction n arbitrary: s)
  case 0
  then show ?case
    by (simp add: after_tries_def)
next
  case (Suc n)
  have "ran env M U s (snd (try_off env s))"
    by (simp add: try_off_def ran_lib)
  then show ?case
    unfolding after_tries_Suc using Suc.IH by (rule ran_trans)
qed

lemma ran_deinit:
  "ran env {} UNIV s t \<Longrightarrow> ran env {} UNIV s (deinit_cdfs_driver env t)"
  "ran env {} UNIV s t \<Longrightarrow> ran env {} UNIV s (deinit_usb_driver env b t)"
  "ran env {} UNIV s t \<Longrightarrow> ran env {} UNIV s (deinit_memcard_driver env b t)"
  "ran env {} UNIV s t \<Longrightarrow> ran env {} UNIV s (deinit_fileXio_driver env t)"
  "ran env {} UNIV s t \<Longrightarrow> ran env {} UNIV s (deinit_poweroff_driver env t)"
  "ran env {} UNIV s t \<Longrightarrow> deinit_hdd_driver env False t = Some u \<Longrightarrow> ran env {} UNIV s u"
  by (auto simp: deinit_defs Let_def intro!: ran_intros)

lemma ran_deinit_dev9:
  "deinit_dev9_driver env t = Some u \<Longrightarrow> ran env {} UNIV s t \<Longrightarrow> ran env {} UNIV s u"
  by (auto simp: deinit_dev9_driver_def unloadIRXs_dev9_def split: if_splits
      dest!: dev9_off_loop_result intro!: ran_intros intro: ran_trans ran_after_tries)

text \<open>
  The release of all filesystems calls \<open>init_mx4sio_driver\<close>: a loaded mx4sio_bd stays loaded, and
  one that was never loaded is executed on a real console, where the test for it is true.
\<close>

lemma release_all_split:
  assumes run: "internal_deinit_ps2_filesystem_driver env off s = Some t"
  obtains s2 where "ran env {} UNIV s s2" "slots s2 MX4SIO_BD = slots s MX4SIO_BD"
    "ran env {} UNIV (snd (init_mx4sio_driver env False s2)) t"
    "slots t MX4SIO_BD = slots (snd (init_mx4sio_driver env False s2)) MX4SIO_BD"
proof -
  obtain s1 where s1: "deinit_hdd_driver env False s = Some s1"
    using run by (auto simp: internal_deinit_ps2_filesystem_driver_def split: option.splits)
  define s2 where "s2 = deinit_cdfs_driver env s1"
  define s3 where "s3 = snd (init_mx4sio_driver env False s2)"
  define s6 where "s6 = deinit_fileXio_driver env (deinit_memcard_driver env True (deinit_usb_driver env True s3))"
  obtain s7 where s7: "deinit_dev9_driver env s6 = Some s7" "t = (if off then deinit_poweroff_driver env s7 else s7)"
    using run s1 by (auto simp: internal_deinit_ps2_filesystem_driver_def s2_def s3_def s6_def Let_def
        split: option.splits)
  show thesis
  proof (rule that [of s2, folded s3_def])
    show "ran env {} UNIV s s2"
      unfolding s2_def by (rule ran_deinit(1) [OF ran_deinit(6) [OF ran_refl s1]])
    have "ran env {} UNIV s3 s6"
      unfolding s6_def by (intro ran_deinit(2,3,4) ran_refl)
    with s7 show "ran env {} UNIV s3 t"
      using ran_deinit_dev9 [OF s7(1)] by (simp add: ran_deinit(5))
    show "slots s2 MX4SIO_BD = slots s MX4SIO_BD"
      using s1 by (auto simp: s2_def deinit_defs unload_irxs_slot Let_def)
    show "slots t MX4SIO_BD = slots s3 MX4SIO_BD"
      using s7 by (auto simp: s6_def deinit_defs unload_irxs_slot Let_def
          dest!: slots_dev9_off_loop split: if_splits)
  qed
qed

lemma release_all_mx4sio:
  assumes run: "internal_deinit_ps2_filesystem_driver env off s = Some t"
  shows "CHECK_IRX_UNLOAD (slots s MX4SIO_BD) \<Longrightarrow> slots t MX4SIO_BD = slots s MX4SIO_BD"
    and "slots s MX4SIO_BD = reset_slot \<Longrightarrow> \<forall>es. answer env es COP2Pipelined \<noteq> 0 \<Longrightarrow>
      \<exists>es. events t = events s @ es \<and> map fst (execs es) = [MX4SIO_BD]"
proof -
  obtain s2 where s2: "ran env {} UNIV s s2" "slots s2 MX4SIO_BD = slots s MX4SIO_BD"
    "ran env {} UNIV (snd (init_mx4sio_driver env False s2)) t"
    "slots t MX4SIO_BD = slots (snd (init_mx4sio_driver env False s2)) MX4SIO_BD"
    by (rule release_all_split [OF run])
  note mx = init_mx4sio_driver_def loadIRXs_mx4sio_def dependency_def lib_def
  show "slots t MX4SIO_BD = slots s MX4SIO_BD" if "CHECK_IRX_UNLOAD (slots s MX4SIO_BD)"
  proof -
    have "\<not> CHECK_IRX_LOAD (slots s2 MX4SIO_BD)"
      using that s2(2) by (auto simp: slot_defs)
    with s2(2,4) show ?thesis
      by (auto simp: mx load_irx_again Let_def)
  qed
  show "\<exists>es. events t = events s @ es \<and> map fst (execs es) = [MX4SIO_BD]"
    if "slots s MX4SIO_BD = reset_slot" and cop: "\<forall>es. answer env es COP2Pipelined \<noteq> 0"
  proof -
    obtain es fs where es: "events s2 = events s @ es" "execs es = []" and fs: "execs fs = []"
        "events t = events (snd (init_mx4sio_driver env False s2)) @ fs"
      using s2(1,3) by (auto simp: ran_def)
    have "CHECK_IRX_LOAD (slots s2 MX4SIO_BD)"
      using that(1) s2(2) by (simp add: slot_defs)
    then obtain x r where "events (snd (init_mx4sio_driver env False s2)) =
        events s2 @ [Lib COP2Pipelined x, Exec MX4SIO_BD no_args r]"
      using cop by (auto simp: mx load_irx_def case_prod_unfold Let_def)
    with es fs show ?thesis
      by (intro exI [of _ "es @ [Lib COP2Pipelined x, Exec MX4SIO_BD no_args r] @ fs"]) simp
  qed
qed

subsection \<open>Calls that return\<close>

lemma init_only_boot_without_memory:
  "init_only_boot_ps2_filesystem_driver env (mount_start [False]) s \<noteq> None"
  by (auto simp: init_only_boot_ps2_filesystem_driver_def mount_without_memory Let_def split: option.splits)

lemma init_all_without_memory: "init_ps2_filesystem_driver env (mount_start [False]) s \<noteq> None"
  by (auto simp: init_ps2_filesystem_driver_def mount_without_memory Let_def split: option.splits)

end
