(* ===== verification/Lifecycle.thy ===== *)
theory Lifecycle
  imports Sample_Image Filesystem
begin

text \<open>
  Components together: staging followed by the initialisations it was for, staging again from
  the remembered source, and an initialisation repeated, released and repeated.
\<close>

subsection \<open>Hypotheses on the environment\<close>

text \<open>Every module the I/O processor is given stays resident, and every library call succeeds.\<close>

definition iop_loads :: "'i sif_exec \<Rightarrow> bool" where
  "iop_loads sif \<longleftrightarrow> (\<forall>bytes n args i. loads (fst (sif bytes n args i)))"

definition libraries_work :: "(event list \<Rightarrow> lib_call \<Rightarrow> int) \<Rightarrow> bool" where
  "libraries_work ans \<longleftrightarrow> (\<forall>es c. accepts c (ans es c))"

text \<open>A concrete environment: an I/O processor that counts its modules, and obliging libraries.\<close>

definition counting_iop :: "nat sif_exec" where
  "counting_iop bytes n args i = ((int i, Some 0), Suc i)"

definition obliging :: "event list \<Rightarrow> lib_call \<Rightarrow> int" where
  "obliging es c = (if accepts c 0 then 0 else 1)"

definition no_config :: "event list \<Rightarrow> ip_info" where
  "no_config es = \<lparr>ipaddr = 0, netmask = 0, gw = 0, dhcp_enabled = 0, dhcp_status = 0\<rparr>"

text \<open>The drivers as the program starts.\<close>

definition drv_start :: "'p \<Rightarrow> 'p drv" where
  "drv_start p =
     \<lparr>prov = p, slots = (\<lambda>m. reset_slot), events = [], cwd_path = ''mass:/'',
      sio2man_init_status = SIO2MAN_INIT_STATUS_UNKNOWN, fileXio_init_status = FILEXIO_INIT_STATUS_UNKNOWN,
      memcard_init_status = MEMCARD_INIT_STATUS_UNKNOWN, bdm_init_status = BDM_INIT_STATUS_UNKNOWN,
      usbd_init_status = USBD_INIT_STATUS_UNKNOWN, usb_init_status = USB_INIT_STATUS_UNKNOWN,
      mx4sio_init_status = MX4SIO_INIT_STATUS_UNKNOWN, cdfs_init_status = CDFS_INIT_STATUS_UNKNOWN,
      dev9_init_status = DEV9_INIT_STATUS_UNKNOWN, hdd_init_status = HDD_INIT_STATUS_UNKNOWN,
      joystick_init_status = JOYSTICK_INIT_STATUS_UNKNOWN, audio_init_status = AUDIO_INIT_STATUS_UNKNOWN,
      poweroff_init_status = POWEROFF_INIT_STATUS_UNKNOWN, mouse_init_status = MOUSE_INIT_STATUS_UNKNOWN,
      keyboard_init_status = KEYBOARD_INIT_STATUS_UNKNOWN, camera_init_status = CAMERA_INIT_STATUS_UNKNOWN,
      netman_init_status = NETMAN_INIT_STATUS_UNKNOWN, smap_init_status = SMAP_INIT_STATUS_UNKNOWN,
      eeip_init_status = EEIP_INIT_STATUS_UNKNOWN, iopip_init_status = IOPIP_INIT_STATUS_UNKNOWN,
      mountString = '''', mount_status = HDD_MOUNT_STATUS_UKNOWN,
      boot_device_id = BOOT_DEVICE_UNKNOWN\<rparr>"

lemma counting_iop_loads: "iop_loads counting_iop"
  by (simp add: iop_loads_def counting_iop_def loads_def)

lemma obliging_works: "libraries_work obliging"
proof -
  have "accepts c 1" if "\<not> accepts c 0" for c
    using that by (cases c) auto
  then show ?thesis
    by (simp add: libraries_work_def obliging_def)
qed

lemma drv_start_simps [simp]:
  "prov (drv_start p) = p" "slots (drv_start p) m = reset_slot" "events (drv_start p) = []"
  by (simp_all add: drv_start_def)

subsection \<open>Staging\<close>

text \<open>Without failing calls staging succeeds whenever the file's bytes specify modules.\<close>

lemma stage_completes:
  assumes "img_inv s" "all_succeed s"
    and "stage_outcome (staged_map s) (files s) path q = Inr ps"
  obtains t where "ps2_drivers_img_stage path q s = (PS2_DRIVERS_IMG_OK, t)"
    "img_inv t" "all_succeed t" "files t = files s"
    "staged_map t = map_of ps" "remembered t = Some (the path, q)"
proof -
  obtain st t where run: "ps2_drivers_img_stage path q s = (st, t)"
    by fastforce
  have eff: "stage_effect path q s st t"
    by (rule stage_result [OF run assms(1)])
  with assms have "st = PS2_DRIVERS_IMG_OK"
    by (auto simp: stage_effect_def split: if_splits)
  with run eff assms that show thesis
    by (auto simp: stage_effect_def)
qed

lemma stage_ok_effect:
  assumes "ps2_drivers_img_stage path q s = (PS2_DRIVERS_IMG_OK, t)" "img_inv s"
  obtains ps where "stage_outcome (staged_map s) (files s) path q = Inr ps"
    "img_inv t" "files t = files s" "all_succeed s \<longrightarrow> all_succeed t"
    "staged_map t = map_of ps" "remembered t = Some (the path, q)"
  using stage_result [OF assms] by (auto simp: stage_effect_def)

text \<open>A successful staging holds exactly the modules of the requirements.\<close>

lemma stage_ok_modules:
  assumes "ps2_drivers_img_stage path q s = (PS2_DRIVERS_IMG_OK, t)" "img_inv s"
  shows "dom (staged_map t) = irx_id ` required_modules q"
proof -
  obtain ps where ps: "stage_outcome (staged_map s) (files s) path q = Inr ps" "staged_map t = map_of ps"
    using assms by (rule stage_ok_effect)
  then obtain img where "stage_spec img q = Inr ps"
    by (auto simp: stage_outcome_def split: if_splits option.splits)
  then have "fst ` set ps = irx_id ` required_modules q"
    using stage_spec_ids(1) set_requested_ids [of q] by (metis list.set_map)
  with ps show ?thesis
    by (simp add: dom_map_of_conv_image_fst)
qed

text \<open>Staging again, from the remembered source, gives the same store.\<close>

lemma restage_last_same:
  assumes run: "ps2_drivers_img_stage path q s = (PS2_DRIVERS_IMG_OK, t)" "img_inv s"
    and v: "img_inv v" "staged_map v = Map.empty" "remembered v = remembered t"
      "files v = files s" "all_succeed v"
  shows "fst (ps2_drivers_img_restage_last v) = PS2_DRIVERS_IMG_OK"
    and "staged_map (snd (ps2_drivers_img_restage_last v)) = staged_map t"
proof -
  obtain ps where ps: "stage_outcome (staged_map s) (files s) path q = Inr ps"
      "staged_map t = map_of ps" "remembered t = Some (the path, q)"
    using run by (rule stage_ok_effect)
  obtain st u where u: "ps2_drivers_img_restage_last v = (st, u)"
    by fastforce
  have "path \<noteq> None" "staged_map s = Map.empty"
    using ps(1) by (auto simp: stage_outcome_def split: if_splits)
  with ps v have "stage_outcome (staged_map v) (files v) (Some (the path)) q = Inr ps"
    by simp
  moreover have "stage_effect (Some (the path)) q v st u"
    using restage_last_result [OF u v(1)] v(3) ps(3) by simp
  ultimately show "fst (ps2_drivers_img_restage_last v) = PS2_DRIVERS_IMG_OK"
    "staged_map (snd (ps2_drivers_img_restage_last v)) = staged_map t"
    using u v(5) ps(2) by (auto simp: stage_effect_def split: if_splits)
qed

text \<open>What the calls that give modules back leave alone.\<close>

lemma free_world [simp]:
  "files (free a s) = files s" "cwd (free a s) = cwd s" "faults (free a s) = faults s"
  by (simp_all add: free_def)

lemma store_world [simp]:
  "files (store a v s) = files s" "cwd (store a v s) = cwd s" "faults (store a v s) = faults s"
  by (simp_all add: store_def)

lemma free_all_world [simp]:
  "files (fold (\<lambda>m. free (f m)) ms s) = files s" "cwd (fold (\<lambda>m. free (f m)) ms s) = cwd s"
  "faults (fold (\<lambda>m. free (f m)) ms s) = faults s"
  by (induction ms arbitrary: s) simp_all

lemma release_world [simp]:
  "files (ps2_drivers_img_release_staged n s) = files s" "cwd (ps2_drivers_img_release_staged n s) = cwd s"
  "faults (ps2_drivers_img_release_staged n s) = faults s"
  by (simp_all add: ps2_drivers_img_release_staged_def release_slot_def set_module_def Let_def
      split: option.split img_block.split)

lemma discard_world [simp]:
  "files (ps2_drivers_img_discard_staged s) = files s" "cwd (ps2_drivers_img_discard_staged s) = cwd s"
  "faults (ps2_drivers_img_discard_staged s) = faults s"
  by (simp_all add: ps2_drivers_img_discard_staged_def free_staged_array_def split: option.split img_block.split)

lemma forget_world [simp]:
  "files (ps2_drivers_img_forget_source s) = files s" "cwd (ps2_drivers_img_forget_source s) = cwd s"
  "faults (ps2_drivers_img_forget_source s) = faults s"
  by (simp_all add: ps2_drivers_img_forget_source_def)

subsection \<open>Initialisation\<close>

lemma iop_loads_resident: "iop_loads sif \<Longrightarrow> resident sif = sif"
  by (rule resident_id) (simp add: iop_loads_def)

lemma libraries_work_accepting: "libraries_work ans \<Longrightarrow> accepting ans = ans"
  by (rule accepting_id) (simp add: libraries_work_def)

lemma init_image_works:
  assumes "iop_loads sif" "libraries_work ans" and "img_inv (fst (prov s))"
    and "\<forall>m \<in> set (driver_closure r). slots s m = reset_slot \<and> staged_map (fst (prov s)) (irx_id m) \<noteq> None"
  obtains ms t where "init_requirement (image_env sif ans cfg) r s = (True, t)"
    "distinct ms" "set ms = set (driver_closure r)"
    "did (\<lambda>p. img_inv (fst p)) (\<lambda>p m. staged_map (fst p) (irx_id m)) ms s t"
proof -
  have "distinct (driver_closure r)"
    by (cases r) simp_all
  with assms(3,4) have "free_slots (\<lambda>p. img_inv (fst p)) (\<lambda>p m. staged_map (fst p) (irx_id m)) (driver_closure r) s"
    by (simp add: free_slots_def)
  from image_works.init_requirement_works [OF this, of sif ans cfg] that show thesis
    unfolding iop_loads_resident [OF assms(1)] libraries_work_accepting [OF assms(2)] by blast
qed

lemma init_linked_works:
  assumes "iop_loads sif" "libraries_work ans"
    and "\<forall>m \<in> set (driver_closure r). slots s m = reset_slot"
  obtains ms t where "init_requirement (linked_env sif linked ans cfg) r s = (True, t)"
    "distinct ms" "set ms = set (driver_closure r)"
    "did (\<lambda>p. True) (\<lambda>p m. Some (linked_bytes linked m)) ms s t"
proof -
  have "distinct (driver_closure r)"
    by (cases r) simp_all
  with assms(3) have "free_slots (\<lambda>p. True) (\<lambda>p m. Some (linked_bytes linked m)) (driver_closure r) s"
    by (simp add: free_slots_def)
  from linked_works.init_requirement_works [OF this, of sif ans cfg] that show thesis
    unfolding iop_loads_resident [OF assms(1)] libraries_work_accepting [OF assms(2)] by blast
qed

text \<open>What an initialisation took, it executed; the other modules of the store are left.\<close>

lemma ran_consumes:
  assumes "ran (image_env sif ans cfg) M U s t" and "img_inv (fst (prov s))"
    and "events t = events s @ es"
  shows "staged_map (fst (prov t)) (irx_id m) =
    (if m \<in> fst ` set (execs es) then None else staged_map (fst (prov s)) (irx_id m))"
proof -
  have "prov t = snd (exec_list (image_exec sif) (execs es) (prov s))"
    using assms(1,3) by (auto simp: ran_def image_env_def)
  with image.exec_list_consumes [OF assms(2), of sif "execs es"] show ?thesis
    by (auto simp: restrict_map_def fun_eq_iff)
qed

text \<open>With obliging libraries every release returns.\<close>

lemma dev9_off_loop_accepting:
  assumes "libraries_work (answer env)"
  shows "dev9_off_loop env s \<noteq> None"
proof -
  have "accepts (FileXioDevctl ''dev9x:'' ''DDIOC_OFF'') (fst (try_off env s))"
    using assms by (simp add: libraries_work_def try_off_def lib_def Let_def)
  then have "0 \<le> fst (try_off env s)"
    by simp
  with dev9_off_loop_ends [of 0 env s] show ?thesis
    by (simp add: after_tries_def)
qed

lemma deinit_requirement_returns:
  "libraries_work (answer env) \<Longrightarrow> deinit_requirement env r s \<noteq> None"
  using dev9_off_loop_accepting [of env]
  by (cases r) (auto simp: deinit_dev9_driver_def deinit_hdd_driver_def deinit_eeip_driver_def
      deinit_iopip_driver_def Let_def)

lemma deinit_all_returns: "libraries_work (answer env) \<Longrightarrow> deinit_ps2_filesystem_driver env s \<noteq> None"
  by (auto simp: deinit_ps2_filesystem_driver_def internal_deinit_ps2_filesystem_driver_def deinit_dev9_driver_def
      deinit_hdd_driver_def dev9_off_loop_accepting Let_def split: option.splits)

end
