(* ===== verification/Sample_Tool.thy ===== *)
theory Sample_Tool
  imports Image_Accept Lifecycle
begin

text \<open>
  A run of the image tool on concrete files: a manifest of one line, and the module it names.
\<close>

text \<open>A world with the given files, nothing in memory, and no failing calls.\<close>

definition tool_start :: "(string \<times> u8 list) list \<Rightarrow> tool_world" where
  "tool_start fs = \<lparr>files = map_of fs, cwd = None, faults = [], heap = Map.empty, brk = 1, opened = 0, ub = False\<rparr>"

definition string_bytes :: "string \<Rightarrow> u8 list" where
  "string_bytes s = map of_char s"

definition usbd_line :: string where
  "usbd_line = ''8|usbd.irx|usbd|USBD''"

definition usbd_manifest :: manifest where
  "usbd_manifest =
     (let es = [\<lparr>me_id = 8, me_filename = ''usbd.irx'', me_symbol = ''usbd'', me_name = ''USBD''\<rparr>]
      in \<lparr>m_entries = es, m_crc32 = manifest_logical_crc es\<rparr>)"

lemma tool_start_wf: "heap_wf (tool_start fs)"
  by (simp add: tool_start_def heap_wf_def)

lemma tool_start_succeeds: "all_succeed (tool_start fs)"
  by (simp add: tool_start_def all_succeed_def)

lemma tool_start_fields [simp]:
  "files (tool_start fs) = map_of fs" "heap (tool_start fs) = Map.empty" "\<not> ub (tool_start fs)" "opened (tool_start fs) = 0"
  by (simp_all add: tool_start_def)

lemma usbd_fields: "take_fields 4 usbd_line = ([''8'', ''usbd.irx'', ''usbd'', ''USBD''], None)"
  by (simp add: usbd_line_def strtok_def eval_nat_numeral)

lemma parse_8: "parse_u32 ''8'' = Some 8"
  by (simp add: parse_u32_def is_space_def is_digit_def digits_value_def Let_def)

lemma usbd_trim: "trim_line usbd_line = usbd_line" "usbd_line \<noteq> []" "hd usbd_line \<noteq> CHR ''#''"
  by (simp_all add: usbd_line_def trim_line_def)

lemma usbd_line_entry: "manifest_line [] usbd_line = Some (Some (hd (m_entries usbd_manifest)))"
  by (simp add: manifest_line_def usbd_trim usbd_fields parse_8 copy_field_def IRXIMG_MAX_FIELD_def
      IRXIMG_MAX_ENTRIES_def usbd_manifest_def Let_def)

lemma usbd_line_bytes:
  "fgets_bytes (string_bytes usbd_line) = string_bytes usbd_line" "c_string (string_bytes usbd_line) = usbd_line"
  "string_bytes usbd_line \<noteq> []"
  by code_simp+

lemma load_usbd_manifest:
  assumes "map_of fs ''manifest'' = Some (string_bytes usbd_line)"
  shows "load_manifest ''manifest'' (tool_start fs) = (Some usbd_manifest, tool_start fs)"
proof -
  have call: "next_call w = (True, w)" if "faults w = []" for w :: tool_world
    using that by (simp add: next_call_def)
  have "manifest_lines [] es w = (Some es, w)" if "faults w = []" for es w
    using call [OF that] by (simp add: manifest_lines.simps [of "[]"])
  then have "manifest_lines (string_bytes usbd_line) [] w = (Some (m_entries usbd_manifest), w)" if "faults w = []" for w
    using call [OF that] that usbd_line_bytes usbd_line_entry
    by (simp add: manifest_lines.simps [of "string_bytes usbd_line"] usbd_manifest_def Let_def)
  then show ?thesis
    using assms by (simp add: load_manifest_def fopen_def call tool_start_def fclose_def usbd_manifest_def Let_def)
qed

text \<open>The files of the run.\<close>

definition sample_run :: tool_world where
  "sample_run = tool_start [(''manifest'', string_bytes usbd_line), (''irx/usbd.irx'', usbd_bytes)]"

lemma sample_run_wf: "heap_wf sample_run" and sample_run_succeeds: "all_succeed sample_run"
  by (simp_all add: sample_run_def tool_start_wf tool_start_succeeds)

lemma sample_run_manifest: "load_manifest ''manifest'' sample_run = (Some usbd_manifest, sample_run)"
  unfolding sample_run_def by (rule load_usbd_manifest) simp

lemma sample_run_path: "build_payload_path ''irx'' ''usbd.irx'' = Some ''irx/usbd.irx''"
  by (simp add: build_payload_path_def IRXIMG_PATH_MAX_def)

lemma sample_run_modules:
  "modules_there (files sample_run) ''irx'' (m_entries usbd_manifest)"
  "packed (files sample_run) ''irx'' (m_entries usbd_manifest) = [(8, usbd_bytes)]"
  by (simp_all add: modules_there_def packed_def module_files_def usbd_manifest_def payload_path_def
      sample_run_path sample_run_def usbd_bytes_def Let_def)

lemma sample_run_small: "image_small (packed (files sample_run) ''irx'' (m_entries usbd_manifest))"
  by (simp add: sample_run_modules(2) image_small_def usbd_bytes_def payload_start_def up16_def)

end
