(* ===== verification/Stage_Test.thy ===== *)
theory Stage_Test
  imports Lifecycle Image_Accept
begin

text \<open>
  The staging test of the tool chain, src/tools/ps2_irximg_stage_test.c: a program that runs
  the image provider through its public functions against a real image. Its checks are the
  conditions of the code, in the order the code evaluates them, and its result is the exit
  status, together with the provider it leaves behind; the messages it prints are left out.
  The lemmas of the second half settle what the program answers: it exits with zero exactly
  when the image on its command line and the default image serve every case.
\<close>

record stage_case =
  sc_name :: string
  sc_requirements :: u32
  sc_expected_modules :: nat

record boot_case =
  bc_path :: string
  bc_device :: BootDeviceIDs
  bc_expected_requirements :: u32

subsection \<open>The program\<close>

definition consume_all_staged_modules :: "img_state \<Rightarrow> img_state" where
  "consume_all_staged_modules = fold ps2_drivers_img_release_staged (map of_nat [1..<Suc IRXIMG_MAX_ENTRIES])"

definition boot_cases :: "boot_case list" where
  "boot_cases =
     (let mc = req_mask PS2_DRIVER_REQ_FILEXIO OR req_mask PS2_DRIVER_REQ_MEMCARD;
          cd = req_mask PS2_DRIVER_REQ_FILEXIO OR req_mask PS2_DRIVER_REQ_CDFS;
          mass = req_mask PS2_DRIVER_REQ_FILEXIO OR req_mask PS2_DRIVER_REQ_USB OR req_mask PS2_DRIVER_REQ_MX4SIO;
          hdd = req_mask PS2_DRIVER_REQ_FILEXIO OR req_mask PS2_DRIVER_REQ_POWEROFF OR req_mask PS2_DRIVER_REQ_HDD
      in
      [\<lparr>bc_path = ''mc0:/apps/test.elf'', bc_device = BOOT_DEVICE_MC0, bc_expected_requirements = mc\<rparr>,
       \<lparr>bc_path = ''mc1:/apps/test.elf'', bc_device = BOOT_DEVICE_MC1, bc_expected_requirements = mc\<rparr>,
       \<lparr>bc_path = ''cdrom0:/TEST.ELF;1'', bc_device = BOOT_DEVICE_CDROM, bc_expected_requirements = cd\<rparr>,
       \<lparr>bc_path = ''cdfs:/TEST.ELF'', bc_device = BOOT_DEVICE_CDFS, bc_expected_requirements = cd\<rparr>,
       \<lparr>bc_path = ''mass:/apps/test.elf'', bc_device = BOOT_DEVICE_MASS, bc_expected_requirements = mass\<rparr>,
       \<lparr>bc_path = ''mass0:/apps/test.elf'', bc_device = BOOT_DEVICE_MASS0, bc_expected_requirements = mass\<rparr>,
       \<lparr>bc_path = ''mass1:/apps/test.elf'', bc_device = BOOT_DEVICE_MASS1, bc_expected_requirements = mass\<rparr>,
       \<lparr>bc_path = ''mx4sio:/apps/test.elf'', bc_device = BOOT_DEVICE_MX4SIO, bc_expected_requirements = mass\<rparr>,
       \<lparr>bc_path = ''mx4sio0:/apps/test.elf'', bc_device = BOOT_DEVICE_MX4SIO0, bc_expected_requirements = mass\<rparr>,
       \<lparr>bc_path = ''mx4sio1:/apps/test.elf'', bc_device = BOOT_DEVICE_MX4SIO1, bc_expected_requirements = mass\<rparr>,
       \<lparr>bc_path = ''hdd:/apps/test.elf'', bc_device = BOOT_DEVICE_HDD, bc_expected_requirements = hdd\<rparr>,
       \<lparr>bc_path = ''hdd0:/apps/test.elf'', bc_device = BOOT_DEVICE_HDD0, bc_expected_requirements = hdd\<rparr>,
       \<lparr>bc_path = ''host:/apps/test.elf'', bc_device = BOOT_DEVICE_HOST,
         bc_expected_requirements = req_mask PS2_DRIVER_REQ_FILEXIO\<rparr>,
       \<lparr>bc_path = ''host0:/apps/test.elf'', bc_device = BOOT_DEVICE_HOST0,
         bc_expected_requirements = req_mask PS2_DRIVER_REQ_FILEXIO\<rparr>,
       \<lparr>bc_path = ''host1:/apps/test.elf'', bc_device = BOOT_DEVICE_HOST1,
         bc_expected_requirements = req_mask PS2_DRIVER_REQ_FILEXIO\<rparr>,
       \<lparr>bc_path = ''/native/host/path/test.elf'', bc_device = BOOT_DEVICE_UNKNOWN,
         bc_expected_requirements = req_mask PS2_DRIVER_REQ_FILEXIO\<rparr>])"

text \<open>
  One round of the loop of \<^verbatim>\<open>check_boot_helpers\<close>; zero lets the loop go on. The out
  parameter starts as zero, which a call that writes nothing leaves. \<open>rootDevicePath\<close> returns
  a literal for every device, never \<^verbatim>\<open>NULL\<close>.
\<close>

definition check_boot_case :: "boot_case \<Rightarrow> int" where
  "check_boot_case c =
     (let device = getBootDeviceID (Some (bc_path c)) in
      if device \<noteq> bc_device c then 1
      else if ps2_drivers_img_requirements_for_boot_device device \<noteq> bc_expected_requirements c then 2
      else
      let (result, written) =
            ps2_drivers_img_requirements_for_path (Some (bc_path c)) (req_mask PS2_DRIVER_REQ_AUDIO) True;
          requirements = (case written of None \<Rightarrow> 0 | Some q \<Rightarrow> q) in
      if result \<noteq> PS2_DRIVERS_IMG_OK \<or>
         requirements \<noteq> (bc_expected_requirements c OR req_mask PS2_DRIVER_REQ_AUDIO)
      then 3
      else if device \<noteq> BOOT_DEVICE_UNKNOWN \<and>
        (rootDevicePath device = '''' \<or> getBootDeviceID (Some (rootDevicePath device)) \<noteq> device)
      then 4
      else 0)"

primrec check_boot_cases :: "boot_case list \<Rightarrow> int" where
  "check_boot_cases [] = 0"
| "check_boot_cases (c # cs) = (if check_boot_case c \<noteq> 0 then check_boot_case c else check_boot_cases cs)"

definition check_boot_helpers :: int where
  "check_boot_helpers = check_boot_cases boot_cases"

text \<open>
  A staging that \<^verbatim>\<open>check_convenience_staging\<close> expects to succeed with a number of modules,
  and what the code does with a provider that is as expected.
\<close>

definition expect_modules ::
  "nat \<Rightarrow> int \<Rightarrow> img_status \<times> img_state \<Rightarrow> (img_state \<Rightarrow> int \<times> img_state) \<Rightarrow> int \<times> img_state" where
  "expect_modules n failure staging rest =
     (let (result, s) = staging in
      if result \<noteq> PS2_DRIVERS_IMG_OK \<or> ps2_drivers_img_staged_modules s \<noteq> n then (failure, s)
      else rest s)"

definition check_convenience_staging :: "img_state \<Rightarrow> int \<times> img_state" where
  "check_convenience_staging s =
     expect_modules 7 1
       (ps2_drivers_img_stage_default_for_boot_device BOOT_DEVICE_HOST
         (req_mask PS2_DRIVER_REQ_AUDIO OR req_mask PS2_DRIVER_REQ_JOYSTICK) s) (\<lambda>s1.
     let s2 = consume_all_staged_modules s1 in
     if ps2_drivers_img_staged_modules s2 \<noteq> 0 \<or> ps2_drivers_img_staged_bytes s2 \<noteq> 0 then (2, s2)
     else
     expect_modules 7 3 (ps2_drivers_img_restage_last s2) (\<lambda>s3.
     expect_modules 7 4
       (ps2_drivers_img_stage_default_for_path (Some ''mc0:/apps/test.elf'')
         (req_mask PS2_DRIVER_REQ_JOYSTICK) (ps2_drivers_img_discard_staged s3)) (\<lambda>s4.
     expect_modules 5 5
       (ps2_drivers_img_stage_default_for_current_boot
         (req_mask PS2_DRIVER_REQ_JOYSTICK) (ps2_drivers_img_discard_staged s4)) (\<lambda>s5.
     expect_modules 18 6
       (ps2_drivers_img_stage_default_for_all_filesystems
         (req_mask PS2_DRIVER_REQ_AUDIO) (ps2_drivers_img_discard_staged s5)) (\<lambda>s6.
     let (result, s7) = ps2_drivers_img_restage_last
           (ps2_drivers_img_forget_source (ps2_drivers_img_discard_staged s6)) in
     if result \<noteq> PS2_DRIVERS_IMG_ERR_NO_SOURCE then (7, s7) else (0, s7))))))"

definition stage_cases :: "stage_case list" where
  "stage_cases =
     [\<lparr>sc_name = ''sio2man'', sc_requirements = req_mask PS2_DRIVER_REQ_SIO2MAN, sc_expected_modules = 1\<rparr>,
      \<lparr>sc_name = ''filexio'', sc_requirements = req_mask PS2_DRIVER_REQ_FILEXIO, sc_expected_modules = 2\<rparr>,
      \<lparr>sc_name = ''memcard'', sc_requirements = req_mask PS2_DRIVER_REQ_MEMCARD, sc_expected_modules = 3\<rparr>,
      \<lparr>sc_name = ''bdm'', sc_requirements = req_mask PS2_DRIVER_REQ_BDM, sc_expected_modules = 2\<rparr>,
      \<lparr>sc_name = ''usbd'', sc_requirements = req_mask PS2_DRIVER_REQ_USBD, sc_expected_modules = 1\<rparr>,
      \<lparr>sc_name = ''usb'', sc_requirements = req_mask PS2_DRIVER_REQ_USB, sc_expected_modules = 4\<rparr>,
      \<lparr>sc_name = ''mx4sio'', sc_requirements = req_mask PS2_DRIVER_REQ_MX4SIO, sc_expected_modules = 4\<rparr>,
      \<lparr>sc_name = ''cdfs'', sc_requirements = req_mask PS2_DRIVER_REQ_CDFS, sc_expected_modules = 1\<rparr>,
      \<lparr>sc_name = ''dev9'', sc_requirements = req_mask PS2_DRIVER_REQ_DEV9, sc_expected_modules = 1\<rparr>,
      \<lparr>sc_name = ''hdd'', sc_requirements = req_mask PS2_DRIVER_REQ_HDD, sc_expected_modules = 8\<rparr>,
      \<lparr>sc_name = ''joystick'', sc_requirements = req_mask PS2_DRIVER_REQ_JOYSTICK, sc_expected_modules = 3\<rparr>,
      \<lparr>sc_name = ''audio'', sc_requirements = req_mask PS2_DRIVER_REQ_AUDIO, sc_expected_modules = 2\<rparr>,
      \<lparr>sc_name = ''poweroff'', sc_requirements = req_mask PS2_DRIVER_REQ_POWEROFF, sc_expected_modules = 1\<rparr>,
      \<lparr>sc_name = ''mouse'', sc_requirements = req_mask PS2_DRIVER_REQ_MOUSE, sc_expected_modules = 2\<rparr>,
      \<lparr>sc_name = ''keyboard'', sc_requirements = req_mask PS2_DRIVER_REQ_KEYBOARD, sc_expected_modules = 2\<rparr>,
      \<lparr>sc_name = ''camera'', sc_requirements = req_mask PS2_DRIVER_REQ_CAMERA, sc_expected_modules = 2\<rparr>,
      \<lparr>sc_name = ''netman'', sc_requirements = req_mask PS2_DRIVER_REQ_NETMAN, sc_expected_modules = 1\<rparr>,
      \<lparr>sc_name = ''smap'', sc_requirements = req_mask PS2_DRIVER_REQ_SMAP, sc_expected_modules = 1\<rparr>,
      \<lparr>sc_name = ''eeip'', sc_requirements = req_mask PS2_DRIVER_REQ_EEIP, sc_expected_modules = 3\<rparr>,
      \<lparr>sc_name = ''iopip'', sc_requirements = req_mask PS2_DRIVER_REQ_IOPIP, sc_expected_modules = 5\<rparr>,
      \<lparr>sc_name = ''filesystem'', sc_requirements = PS2_DRIVER_REQ_FILESYSTEM_ALL, sc_expected_modules = 16\<rparr>]"

text \<open>
  One round of the loop of \<^verbatim>\<open>main\<close>; the three calls that must be refused are evaluated from
  left to right, up to the first that is not.
\<close>

definition check_stage_case :: "string \<Rightarrow> nat \<Rightarrow> stage_case \<Rightarrow> img_state \<Rightarrow> int \<times> img_state" where
  "check_stage_case path i c s =
     (let (result, s1) = ps2_drivers_img_stage (Some path) (sc_requirements c) s in
      if result \<noteq> PS2_DRIVERS_IMG_OK then (10 + int i, s1)
      else
      let staged_bytes = ps2_drivers_img_staged_bytes s1 in
      if ps2_drivers_img_staged_modules s1 \<noteq> sc_expected_modules c \<or> staged_bytes = 0
      then (40 + int i, s1)
      else
      let (again, s2) = ps2_drivers_img_stage (Some path) (sc_requirements c) s1 in
      if again \<noteq> PS2_DRIVERS_IMG_ERR_ALREADY_STAGED then (70 + int i, s2)
      else
      let (other, s3) = ps2_drivers_img_restage (sc_requirements c) s2 in
      if other \<noteq> PS2_DRIVERS_IMG_ERR_ALREADY_STAGED then (70 + int i, s3)
      else
      let (last, s4) = ps2_drivers_img_restage_last s3 in
      if last \<noteq> PS2_DRIVERS_IMG_ERR_ALREADY_STAGED then (70 + int i, s4)
      else
      let s5 = consume_all_staged_modules s4 in
      if ps2_drivers_img_staged_modules s5 \<noteq> 0 \<or> ps2_drivers_img_staged_bytes s5 \<noteq> 0
      then (100 + int i, s5)
      else
      let (result, s6) = ps2_drivers_img_restage (sc_requirements c) s5 in
      if result \<noteq> PS2_DRIVERS_IMG_OK \<or>
         ps2_drivers_img_staged_modules s6 \<noteq> sc_expected_modules c \<or>
         ps2_drivers_img_staged_bytes s6 \<noteq> staged_bytes
      then (130 + int i, s6)
      else (0, ps2_drivers_img_discard_staged s6))"

primrec check_stage_cases :: "string \<Rightarrow> nat \<Rightarrow> stage_case list \<Rightarrow> img_state \<Rightarrow> int \<times> img_state" where
  "check_stage_cases path i [] s = (0, s)"
| "check_stage_cases path i (c # cs) s =
     (let (result, t) = check_stage_case path i c s in
      if result \<noteq> 0 then (result, t) else check_stage_cases path (Suc i) cs t)"

text \<open>What \<^verbatim>\<open>main\<close> does after its loop.\<close>

definition check_sources :: "img_state \<Rightarrow> int \<times> img_state" where
  "check_sources s =
     (let (missing, s1) = ps2_drivers_img_stage (Some ''__ps2_drivers_missing_image__.irximg'')
            (req_mask PS2_DRIVER_REQ_JOYSTICK) s in
      if missing \<noteq> PS2_DRIVERS_IMG_ERR_OPEN then (190, s1)
      else
      let (result, s2) = ps2_drivers_img_restage (req_mask PS2_DRIVER_REQ_JOYSTICK) s1 in
      if result \<noteq> PS2_DRIVERS_IMG_OK \<or> ps2_drivers_img_staged_modules s2 \<noteq> 3 then (191, s2)
      else
      let s3 = ps2_drivers_img_forget_source (ps2_drivers_img_discard_staged s2);
          (forgotten, s4) = ps2_drivers_img_restage (req_mask PS2_DRIVER_REQ_JOYSTICK) s3 in
      if forgotten \<noteq> PS2_DRIVERS_IMG_ERR_NO_SOURCE then (200, s4)
      else
      let (last, s5) = ps2_drivers_img_restage_last s4 in
      if last \<noteq> PS2_DRIVERS_IMG_ERR_NO_SOURCE then (200, s5)
      else
      let (convenience, s6) = check_convenience_staging s5 in
      if convenience \<noteq> 0 then (201, s6) else (0, s6))"

text \<open>\<^verbatim>\<open>main\<close>, given \<^verbatim>\<open>argv\<close>. Every string of the model is a string, so the test whether an error string is
  \<^verbatim>\<open>NULL\<close> has no counterpart.\<close>

definition stage_test_main :: "string list \<Rightarrow> img_state \<Rightarrow> int \<times> img_state" where
  "stage_test_main argv s =
     (if length argv \<noteq> 2 then (2, s)
      else if ps2_drivers_img_error_string (status_val PS2_DRIVERS_IMG_ERR_OPEN) \<noteq> ''failed to open IRX image''
      then (3, s)
      else if check_boot_helpers \<noteq> 0 then (4, s)
      else
      let (early, s1) = ps2_drivers_img_restage (req_mask PS2_DRIVER_REQ_JOYSTICK) s in
      if early \<noteq> PS2_DRIVERS_IMG_ERR_NO_SOURCE then (5, s1)
      else
      let (last, s2) = ps2_drivers_img_restage_last s1 in
      if last \<noteq> PS2_DRIVERS_IMG_ERR_NO_SOURCE then (5, s2)
      else
      let (result, s3) = check_stage_cases (argv ! 1) 0 stage_cases s2 in
      if result \<noteq> 0 then (result, s3) else check_sources s3)"

subsection \<open>The boot helpers\<close>

lemma check_boot_case_named:
  assumes "device_name d \<noteq> None" and "has_device_prefix (Some p) (the (device_name d))"
  shows "check_boot_case \<lparr>bc_path = p, bc_device = d,
    bc_expected_requirements = ps2_drivers_img_requirements_for_boot_device d\<rparr> = 0"
proof -
  obtain n rest where n: "device_name d = Some n" "p = n @ rest"
    using assms by (auto simp: has_device_prefix_append)
  then have "getBootDeviceID (Some p) = d" "getBootDeviceID (Some (rootDevicePath d)) = d" "rootDevicePath d \<noteq> []"
    by (simp_all add: getBootDeviceID_named rootDevicePath_name)
  then show ?thesis
    by (simp add: check_boot_case_def ps2_drivers_img_requirements_for_path_def)
qed

lemma check_boot_case_unknown:
  "getBootDeviceID (Some p) = BOOT_DEVICE_UNKNOWN \<Longrightarrow>
    check_boot_case \<lparr>bc_path = p, bc_device = BOOT_DEVICE_UNKNOWN,
      bc_expected_requirements = ps2_drivers_img_requirements_for_boot_device BOOT_DEVICE_UNKNOWN\<rparr> = 0"
  by (simp add: check_boot_case_def ps2_drivers_img_requirements_for_path_def)

lemma check_boot_helpers_passes: "check_boot_helpers = 0"
proof -
  have "getBootDeviceID (Some ''/native/host/path/test.elf'') = BOOT_DEVICE_UNKNOWN"
    by (simp add: getBootDeviceID_def has_device_prefix_def)
  note ok = check_boot_case_unknown [OF this] check_boot_case_named [of BOOT_DEVICE_MC0]
    check_boot_case_named [of BOOT_DEVICE_MC1]
    check_boot_case_named [of BOOT_DEVICE_CDROM] check_boot_case_named [of BOOT_DEVICE_CDFS]
    check_boot_case_named [of BOOT_DEVICE_MASS] check_boot_case_named [of BOOT_DEVICE_MASS0]
    check_boot_case_named [of BOOT_DEVICE_MASS1] check_boot_case_named [of BOOT_DEVICE_MX4SIO]
    check_boot_case_named [of BOOT_DEVICE_MX4SIO0] check_boot_case_named [of BOOT_DEVICE_MX4SIO1]
    check_boot_case_named [of BOOT_DEVICE_HDD] check_boot_case_named [of BOOT_DEVICE_HDD0]
    check_boot_case_named [of BOOT_DEVICE_HOST] check_boot_case_named [of BOOT_DEVICE_HOST0]
    check_boot_case_named [of BOOT_DEVICE_HOST1]
  show ?thesis
    using ok by (simp add: check_boot_helpers_def boot_cases_def Let_def has_device_prefix_def)
qed

subsection \<open>A provider that is idle, and one that holds modules\<close>

text \<open>
  The two states of a provider in a world whose calls succeed: nothing staged, with the source
  it remembers, or holding what a source specifies.
\<close>

definition ready :: "(string \<Rightarrow> u8 list option) \<Rightarrow> string option \<Rightarrow> img_state \<Rightarrow> bool" where
  "ready fs dir s \<longleftrightarrow> img_inv s \<and> all_succeed s \<and> files s = fs \<and> cwd s = dir"

definition idle ::
  "(string \<Rightarrow> u8 list option) \<Rightarrow> string option \<Rightarrow> (string \<times> u32) option \<Rightarrow> img_state \<Rightarrow> bool" where
  "idle fs dir source s \<longleftrightarrow> ready fs dir s \<and> staged_map s = Map.empty \<and> remembered s = source"

definition serves :: "(string \<Rightarrow> u8 list option) \<Rightarrow> string \<Rightarrow> u32 \<Rightarrow> bool" where
  "serves fs p q \<longleftrightarrow> (\<exists>ps. stage_outcome Map.empty fs (Some p) q = Inr ps)"

definition holding ::
  "(string \<Rightarrow> u8 list option) \<Rightarrow> string option \<Rightarrow> string \<Rightarrow> u32 \<Rightarrow> img_state \<Rightarrow> bool" where
  "holding fs dir p q s \<longleftrightarrow> ready fs dir s \<and> remembered s = Some (p, q) \<and>
     (\<exists>ps. stage_outcome Map.empty fs (Some p) q = Inr ps \<and> staged_map s = map_of ps)"

lemma serves_known: "serves fs p q \<Longrightarrow> q \<noteq> 0 \<and> \<not> unknown_bits q"
  by (auto simp: serves_def stage_outcome_def split: if_splits)

lemma holding_serves: "holding fs dir p q s \<Longrightarrow> serves fs p q"
  by (auto simp: holding_def serves_def)

lemma holding_ready: "holding fs dir p q s \<Longrightarrow> img_inv s \<and> all_succeed s"
  by (simp add: holding_def ready_def)

lemma holding_dom:
  assumes "holding fs dir p q s"
  shows "dom (staged_map s) = irx_id ` required_modules q" "required_modules q \<noteq> {}"
proof -
  obtain ps where ps: "stage_outcome Map.empty fs (Some p) q = Inr ps" "staged_map s = map_of ps"
    using assms by (auto simp: holding_def)
  then obtain img where "stage_spec img q = Inr ps"
    by (auto simp: stage_outcome_def split: if_splits option.splits)
  from stage_spec_ids(1) [OF this] set_requested_ids [of q]
  have "fst ` set ps = irx_id ` required_modules q"
    by (metis list.set_map)
  with ps show "dom (staged_map s) = irx_id ` required_modules q"
    by (simp add: dom_map_of_conv_image_fst)
  show "required_modules q \<noteq> {}"
    using serves_known [OF holding_serves [OF assms]] required_modules_nonempty by blast
qed

lemma holding_nonempty: "holding fs dir p q s \<Longrightarrow> staged_map s \<noteq> Map.empty"
  using holding_dom [of fs dir p q s] by auto

text \<open>The counters of a provider that holds modules depend on the source alone.\<close>

lemma holding_counts:
  assumes s: "holding fs dir p q s"
  shows "ps2_drivers_img_staged_modules s = card (required_modules q)"
    and "ps2_drivers_img_staged_bytes s \<noteq> 0"
    and "holding fs dir p q t \<Longrightarrow> ps2_drivers_img_staged_bytes t = ps2_drivers_img_staged_bytes s"
proof -
  note inv = conjunct1 [OF holding_ready [OF s]]
  note counts = staged_modules_card [OF inv]
  show "ps2_drivers_img_staged_modules s = card (required_modules q)"
    by (simp add: counts(1) holding_dom(1) [OF s] card_image inj_on_subset [OF inj_irx_id])
  obtain n bs where n: "staged_map s n = Some bs"
    using holding_nonempty [OF s] by (auto simp: fun_eq_iff)
  have fin: "finite (dom (staged_map s))"
    using s by (auto simp: holding_def finite_dom_map_of)
  have "length bs \<le> ps2_drivers_img_staged_bytes s"
    unfolding counts(2) using member_le_sum [of n "dom (staged_map s)" "\<lambda>n. length (the (staged_map s n))"] n fin
    by (auto simp: domI)
  with staged_map_nonempty [OF inv n] show "ps2_drivers_img_staged_bytes s \<noteq> 0"
    by (cases bs) simp_all
  assume t: "holding fs dir p q t"
  then have "staged_map t = staged_map s"
    using s by (auto simp: holding_def)
  then show "ps2_drivers_img_staged_bytes t = ps2_drivers_img_staged_bytes s"
    unfolding counts(2) staged_modules_card(2) [OF conjunct1 [OF holding_ready [OF t]]] by simp
qed

subsection \<open>The calls on an idle provider\<close>

lemma effect_serves:
  assumes "stage_effect (Some p) q s st t" "idle fs dir src s" "serves fs p q"
  shows "st = PS2_DRIVERS_IMG_OK" "holding fs dir p q t"
  using assms by (auto simp: stage_effect_def idle_def ready_def serves_def holding_def split: if_splits)

lemma effect_refused:
  assumes "stage_effect path q s st t" "all_succeed s"
    and "stage_outcome (staged_map s) (files s) path q = Inl e"
  shows "st = e" "img_inv t" "all_succeed t" "files t = files s" "cwd t = cwd s"
    "staged_map t = staged_map s" "remembered t = remembered s"
  using assms by (auto simp: stage_effect_def split: if_splits)

lemma idle_stage:
  assumes "idle fs dir src s"
  shows "serves fs p q \<Longrightarrow> \<exists>t. ps2_drivers_img_stage (Some p) q s = (PS2_DRIVERS_IMG_OK, t) \<and> holding fs dir p q t"
    and "stage_outcome Map.empty fs (Some p) q = Inl e \<Longrightarrow>
      \<exists>t. ps2_drivers_img_stage (Some p) q s = (e, t) \<and> idle fs dir src t"
proof -
  obtain st t where run: "ps2_drivers_img_stage (Some p) q s = (st, t)"
    by fastforce
  have inv: "img_inv s"
    using assms by (simp add: idle_def ready_def)
  note eff = stage_result [OF run inv]
  show "\<exists>t. ps2_drivers_img_stage (Some p) q s = (PS2_DRIVERS_IMG_OK, t) \<and> holding fs dir p q t"
    if "serves fs p q"
    using effect_serves [OF eff assms that] run by simp
  show "\<exists>t. ps2_drivers_img_stage (Some p) q s = (e, t) \<and> idle fs dir src t"
    if "stage_outcome Map.empty fs (Some p) q = Inl e"
    using effect_refused [OF eff, of e] that assms run by (simp add: idle_def ready_def)
qed

lemma idle_restage:
  assumes "idle fs dir (Some (p, r)) s" "serves fs p q"
  shows "\<exists>t. ps2_drivers_img_restage q s = (PS2_DRIVERS_IMG_OK, t) \<and> holding fs dir p q t"
proof -
  obtain st t where run: "ps2_drivers_img_restage q s = (st, t)"
    by fastforce
  have "stage_effect (Some p) q s st t"
    using restage_result [OF run] assms(1) by (simp add: idle_def ready_def)
  from effect_serves [OF this assms] run show ?thesis by simp
qed

lemma idle_restage_last:
  assumes "idle fs dir (Some (p, q)) s" "serves fs p q"
  shows "\<exists>t. ps2_drivers_img_restage_last s = (PS2_DRIVERS_IMG_OK, t) \<and> holding fs dir p q t"
proof -
  obtain st t where run: "ps2_drivers_img_restage_last s = (st, t)"
    by fastforce
  have "stage_effect (Some p) q s st t"
    using restage_last_result [OF run] assms(1) by (simp add: idle_def ready_def)
  from effect_serves [OF this assms] run show ?thesis by simp
qed

lemma idle_no_source:
  assumes "idle fs dir None s"
  shows "q \<noteq> 0 \<Longrightarrow> \<not> unknown_bits q \<Longrightarrow> ps2_drivers_img_restage q s = (PS2_DRIVERS_IMG_ERR_NO_SOURCE, s)"
    and "ps2_drivers_img_restage_last s = (PS2_DRIVERS_IMG_ERR_NO_SOURCE, s)"
  using restage_no_source assms by (simp_all add: idle_def ready_def)

lemma idle_forget: "idle fs dir src s \<Longrightarrow> idle fs dir None (ps2_drivers_img_forget_source s)"
  by (simp add: idle_def ready_def forget_source_result all_succeed_def)

subsection \<open>The calls on a provider that holds modules\<close>

text \<open>Whatever is asked for, a store that is not empty refuses it and stays as it is.\<close>

lemma effect_held:
  assumes "stage_effect (Some p') q' s st t" "holding fs dir p q s" "q' \<noteq> 0" "\<not> unknown_bits q'"
  shows "st = PS2_DRIVERS_IMG_ERR_ALREADY_STAGED" "holding fs dir p q t"
proof -
  have "stage_outcome (staged_map s) (files s) (Some p') q' = Inl PS2_DRIVERS_IMG_ERR_ALREADY_STAGED"
    using holding_nonempty [OF assms(2)] assms(3,4) by (simp add: stage_outcome_def)
  from effect_refused [OF assms(1) _ this] assms(2)
  show "st = PS2_DRIVERS_IMG_ERR_ALREADY_STAGED" "holding fs dir p q t"
    by (simp_all add: holding_def ready_def)
qed

lemma holding_stage:
  assumes "holding fs dir p q s" "q' \<noteq> 0" "\<not> unknown_bits q'"
  shows "\<exists>t. ps2_drivers_img_stage (Some p') q' s = (PS2_DRIVERS_IMG_ERR_ALREADY_STAGED, t) \<and> holding fs dir p q t"
    and "\<exists>t. ps2_drivers_img_restage q' s = (PS2_DRIVERS_IMG_ERR_ALREADY_STAGED, t) \<and> holding fs dir p q t"
    and "\<exists>t. ps2_drivers_img_restage_last s = (PS2_DRIVERS_IMG_ERR_ALREADY_STAGED, t) \<and> holding fs dir p q t"
proof -
  have s: "img_inv s" "remembered s = Some (p, q)"
    using assms(1) by (simp_all add: holding_def ready_def)
  note known = serves_known [OF holding_serves [OF assms(1)]]
  obtain st t where run: "ps2_drivers_img_stage (Some p') q' s = (st, t)" by fastforce
  from effect_held [OF stage_result [OF run s(1)] assms] run
  show "\<exists>t. ps2_drivers_img_stage (Some p') q' s = (PS2_DRIVERS_IMG_ERR_ALREADY_STAGED, t) \<and> holding fs dir p q t"
    by simp
  obtain st t where run: "ps2_drivers_img_restage q' s = (st, t)" by fastforce
  from effect_held [OF restage_result [OF run s] assms] run
  show "\<exists>t. ps2_drivers_img_restage q' s = (PS2_DRIVERS_IMG_ERR_ALREADY_STAGED, t) \<and> holding fs dir p q t"
    by simp
  obtain st t where run: "ps2_drivers_img_restage_last s = (st, t)" by fastforce
  from effect_held [OF restage_last_result [OF run s] assms(1)] known run
  show "\<exists>t. ps2_drivers_img_restage_last s = (PS2_DRIVERS_IMG_ERR_ALREADY_STAGED, t) \<and> holding fs dir p q t"
    by simp
qed

lemma holding_discard: "holding fs dir p q s \<Longrightarrow> idle fs dir (Some (p, q)) (ps2_drivers_img_discard_staged s)"
  by (simp add: holding_def idle_def ready_def discard_staged_result all_succeed_def)

text \<open>Releasing the module numbers one by one empties the store, as the execution of all modules would.\<close>

lemma fold_release_world:
  "files (fold ps2_drivers_img_release_staged ns s) = files s"
  "cwd (fold ps2_drivers_img_release_staged ns s) = cwd s"
  "faults (fold ps2_drivers_img_release_staged ns s) = faults s"
  "img_inv s \<Longrightarrow> remembered (fold ps2_drivers_img_release_staged ns s) = remembered s"
  by (induction ns arbitrary: s) (simp_all add: release_staged_result)

lemma holding_consume:
  assumes "holding fs dir p q s"
  shows "idle fs dir (Some (p, q)) (consume_all_staged_modules s)"
    and "ps2_drivers_img_staged_modules (consume_all_staged_modules s) = 0"
    and "ps2_drivers_img_staged_bytes (consume_all_staged_modules s) = 0"
proof -
  let ?ids = "map of_nat [1..<Suc IRXIMG_MAX_ENTRIES] :: u32 list"
  have inv: "img_inv s"
    using assms by (simp add: holding_def ready_def)
  have "irx_id m \<in> set ?ids" for m
    by (cases m) (auto simp: IRXIMG_MAX_ENTRIES_def image_iff simp del: upt_Suc intro!: bexI [of _ "unat (irx_id m)"])
  then have "dom (staged_map s) \<subseteq> set ?ids"
    unfolding holding_dom(1) [OF assms] by blast
  note empty = staged.release_all_empty [OF inv this]
  have inv': "img_inv (consume_all_staged_modules s)"
    using staged.release_all [OF inv, of ?ids] by (simp add: consume_all_staged_modules_def)
  with empty assms show idle: "idle fs dir (Some (p, q)) (consume_all_staged_modules s)"
    by (simp add: idle_def holding_def ready_def consume_all_staged_modules_def fold_release_world all_succeed_def
        del: upt_Suc)
  show "ps2_drivers_img_staged_modules (consume_all_staged_modules s) = 0"
    "ps2_drivers_img_staged_bytes (consume_all_staged_modules s) = 0"
    using idle staged_modules_card [OF inv'] by (simp_all add: idle_def)
qed

lemma idle_stage_refused:
  assumes "idle fs dir src s" "\<not> serves fs p q"
  shows "fst (ps2_drivers_img_stage (Some p) q s) \<noteq> PS2_DRIVERS_IMG_OK"
proof
  assume "fst (ps2_drivers_img_stage (Some p) q s) = PS2_DRIVERS_IMG_OK"
  then have "ps2_drivers_img_stage (Some p) q s = (PS2_DRIVERS_IMG_OK, snd (ps2_drivers_img_stage (Some p) q s))"
    by (simp add: prod_eq_iff)
  from stage_result [OF this] assms show False
    by (auto simp: stage_effect_def idle_def ready_def serves_def)
qed

subsection \<open>The verdict of a check\<close>

text \<open>
  A check answers zero exactly when \<open>P\<close>, and then leaves a provider as \<open>Q\<close> says: the
  judgement the parts of the test are composed with.
\<close>

definition verdict :: "bool \<Rightarrow> int \<times> img_state \<Rightarrow> (img_state \<Rightarrow> bool) \<Rightarrow> bool" where
  "verdict P x Q \<longleftrightarrow> (if P then fst x = 0 \<and> Q (snd x) else fst x \<noteq> 0)"

lemma verdict_passed: "verdict True (0, t) Q \<longleftrightarrow> Q t"
  by (simp add: verdict_def)

lemma verdict_then:
  assumes "verdict P x Q" and "\<And>t. Q t \<Longrightarrow> verdict P' (rest t) Q'"
  shows "verdict (P \<and> P') (let (result, t) = x in if result \<noteq> 0 then (result, t) else rest t) Q'"
  using assms by (cases P; cases x) (auto simp: verdict_def)

lemma expect_passes:
  "staging = (PS2_DRIVERS_IMG_OK, t) \<Longrightarrow> ps2_drivers_img_staged_modules t = n \<Longrightarrow>
    expect_modules n k staging rest = rest t"
  by (simp add: expect_modules_def)

lemma verdict_expect:
  assumes "idle fs dir src s" "card (required_modules q) = n" "k \<noteq> 0"
    and "\<And>t. holding fs dir p q t \<Longrightarrow> verdict P (rest t) Q"
  shows "verdict (serves fs p q \<and> P) (expect_modules n k (ps2_drivers_img_stage (Some p) q s) rest) Q"
proof (cases "serves fs p q")
  case True
  then obtain t where t: "ps2_drivers_img_stage (Some p) q s = (PS2_DRIVERS_IMG_OK, t)" "holding fs dir p q t"
    using idle_stage(1) [OF assms(1)] by blast
  with assms(2) have "expect_modules n k (ps2_drivers_img_stage (Some p) q s) rest = rest t"
    by (intro expect_passes) (simp_all add: holding_counts)
  with True t assms(4) show ?thesis by simp
next
  case False
  with assms(3) idle_stage_refused [OF assms(1) False] show ?thesis
    by (simp add: verdict_def expect_modules_def split_beta Let_def)
qed

subsection \<open>The loop over the cases\<close>

lemma check_stage_case_serves:
  assumes s: "idle fs dir src s" and srv: "serves fs path q"
    and c: "sc_requirements c = q" "sc_expected_modules c = card (required_modules q)"
  shows "\<exists>t. check_stage_case path i c s = (0, t) \<and> idle fs dir (Some (path, q)) t"
proof -
  note q = conjunct1 [OF serves_known [OF srv]] conjunct2 [OF serves_known [OF srv]]
  obtain s1 where s1: "ps2_drivers_img_stage (Some path) q s = (PS2_DRIVERS_IMG_OK, s1)" "holding fs dir path q s1"
    using idle_stage(1) [OF s srv] by blast
  obtain s2 where s2: "ps2_drivers_img_stage (Some path) q s1 = (PS2_DRIVERS_IMG_ERR_ALREADY_STAGED, s2)"
      "holding fs dir path q s2"
    using holding_stage(1) [OF s1(2) q] by blast
  obtain s3 where s3: "ps2_drivers_img_restage q s2 = (PS2_DRIVERS_IMG_ERR_ALREADY_STAGED, s3)"
      "holding fs dir path q s3"
    using holding_stage(2) [OF s2(2) q] by blast
  obtain s4 where s4: "ps2_drivers_img_restage_last s3 = (PS2_DRIVERS_IMG_ERR_ALREADY_STAGED, s4)"
      "holding fs dir path q s4"
    using holding_stage(3) [OF s3(2) q] by blast
  note s5 = holding_consume [OF s4(2)]
  obtain s6 where s6: "ps2_drivers_img_restage q (consume_all_staged_modules s4) = (PS2_DRIVERS_IMG_OK, s6)"
      "holding fs dir path q s6"
    using idle_restage [OF s5(1) srv] by blast
  have "check_stage_case path i c s = (0, ps2_drivers_img_discard_staged s6)"
    using s1(1) s2(1) s3(1) s4(1) s5(2,3) s6(1) holding_counts [OF s1(2)] holding_counts(1) [OF s6(2)] s6(2)
    by (simp add: check_stage_case_def c)
  with holding_discard [OF s6(2)] show ?thesis by simp
qed

lemma check_stage_case_refused:
  "idle fs dir src s \<Longrightarrow> \<not> serves fs path (sc_requirements c) \<Longrightarrow>
    fst (check_stage_case path i c s) = 10 + int i"
  using idle_stage_refused by (auto simp: check_stage_case_def split_beta Let_def)

lemma check_stage_cases_serves:
  assumes "idle fs dir src s"
    and "\<forall>c \<in> set cs. sc_expected_modules c = card (required_modules (sc_requirements c))"
    and "\<forall>c \<in> set cs. serves fs path (sc_requirements c)" and "cs \<noteq> []"
  shows "\<exists>t q. check_stage_cases path i cs s = (0, t) \<and> idle fs dir (Some (path, q)) t"
  using assms
proof (induction cs arbitrary: i s src)
  case Nil
  then show ?case by simp
next
  case (Cons c cs)
  then obtain t where t: "check_stage_case path i c s = (0, t)" "idle fs dir (Some (path, sc_requirements c)) t"
    using check_stage_case_serves [OF Cons.prems(1), of path "sc_requirements c" c i] by auto
  show ?case
  proof (cases "cs = []")
    case True
    with t show ?thesis by auto
  next
    case False
    with Cons.IH [OF t(2), of "Suc i"] Cons.prems t(1) show ?thesis by simp
  qed
qed

text \<open>The first case that is not served ends the loop with its own number.\<close>

lemma check_stage_cases_refused:
  assumes "idle fs dir src s"
    and "\<forall>c \<in> set cs. sc_expected_modules c = card (required_modules (sc_requirements c))"
    and "j < length cs" "\<not> serves fs path (sc_requirements (cs ! j))"
      "\<forall>k < j. serves fs path (sc_requirements (cs ! k))"
  shows "fst (check_stage_cases path i cs s) = 10 + int (i + j)"
  using assms
proof (induction cs arbitrary: i j s src)
  case Nil
  then show ?case by simp
next
  case (Cons c cs)
  show ?case
  proof (cases j)
    case 0
    with check_stage_case_refused [OF Cons.prems(1), of path c i] Cons.prems(4) show ?thesis
      by (auto simp: split_beta Let_def)
  next
    case (Suc k)
    then have "serves fs path (sc_requirements c)"
      using Cons.prems(5) by fastforce
    then obtain t where t: "check_stage_case path i c s = (0, t)" "idle fs dir (Some (path, sc_requirements c)) t"
      using check_stage_case_serves [OF Cons.prems(1), of path "sc_requirements c" c i] Cons.prems(2) by auto
    have "serves fs path (sc_requirements (cs ! n))" if "n < k" for n
      using Cons.prems(5) [rule_format, of "Suc n"] that Suc by simp
    then have "fst (check_stage_cases path (Suc i) cs t) = 10 + int (Suc i + k)"
      using Cons.prems(2-4) Suc by (intro Cons.IH [OF t(2)]) simp_all
    with t Suc show ?thesis by simp
  qed
qed

lemma stage_cases_counts:
  "\<forall>c \<in> set stage_cases. sc_expected_modules c = card (required_modules (sc_requirements c))"
  by (simp add: stage_cases_def PS2_DRIVER_REQ_FILESYSTEM_ALL_def required_modules_or card_insert_if)

subsection \<open>The checks after the loop\<close>

text \<open>The requirements the convenience functions are tried with, on the default image.\<close>

definition default_requirements :: "u32 list" where
  "default_requirements =
     [req_mask PS2_DRIVER_REQ_FILEXIO OR (req_mask PS2_DRIVER_REQ_AUDIO OR req_mask PS2_DRIVER_REQ_JOYSTICK),
      (req_mask PS2_DRIVER_REQ_FILEXIO OR req_mask PS2_DRIVER_REQ_MEMCARD) OR req_mask PS2_DRIVER_REQ_JOYSTICK,
      req_mask PS2_DRIVER_REQ_FILEXIO OR req_mask PS2_DRIVER_REQ_JOYSTICK,
      PS2_DRIVER_REQ_FILESYSTEM_ALL OR req_mask PS2_DRIVER_REQ_AUDIO]"

lemma convenience_calls:
  "ps2_drivers_img_stage_default_for_boot_device BOOT_DEVICE_HOST
     (req_mask PS2_DRIVER_REQ_AUDIO OR req_mask PS2_DRIVER_REQ_JOYSTICK) s =
   ps2_drivers_img_stage (Some PS2_DRIVERS_IMG_DEFAULT_PATH) (default_requirements ! 0) s"
  "ps2_drivers_img_stage_default_for_path (Some ''mc0:/apps/test.elf'') (req_mask PS2_DRIVER_REQ_JOYSTICK) s =
   ps2_drivers_img_stage (Some PS2_DRIVERS_IMG_DEFAULT_PATH) (default_requirements ! 1) s"
  "ps2_drivers_img_stage_default_for_all_filesystems (req_mask PS2_DRIVER_REQ_AUDIO) s =
   ps2_drivers_img_stage (Some PS2_DRIVERS_IMG_DEFAULT_PATH) (default_requirements ! 3) s"
proof -
  have "getBootDeviceID (Some ''mc0:/apps/test.elf'') = BOOT_DEVICE_MC0"
    using getBootDeviceID_named [of BOOT_DEVICE_MC0 DEVICE_MC0 "''/apps/test.elf''"] by simp
  then show "ps2_drivers_img_stage_default_for_path (Some ''mc0:/apps/test.elf'') (req_mask PS2_DRIVER_REQ_JOYSTICK) s =
      ps2_drivers_img_stage (Some PS2_DRIVERS_IMG_DEFAULT_PATH) (default_requirements ! 1) s"
    by (simp add: ps2_drivers_img_stage_default_for_path_def ps2_drivers_img_stage_for_path_def stage_with_def
        ps2_drivers_img_requirements_for_path_def default_requirements_def)
qed (simp_all add: ps2_drivers_img_stage_default_for_boot_device_def ps2_drivers_img_stage_for_boot_device_def
    ps2_drivers_img_stage_default_for_all_filesystems_def ps2_drivers_img_stage_for_all_filesystems_def
    default_requirements_def unknown_bits_or)

lemma current_boot_call:
  assumes "cwd s = Some d"
    and "ps2_drivers_img_requirements_for_boot_device (getBootDeviceID (Some d)) = req_mask PS2_DRIVER_REQ_FILEXIO"
  shows "ps2_drivers_img_stage_default_for_current_boot (req_mask PS2_DRIVER_REQ_JOYSTICK) s =
    ps2_drivers_img_stage (Some PS2_DRIVERS_IMG_DEFAULT_PATH) (default_requirements ! 2) s"
  using assms
  by (simp add: ps2_drivers_img_stage_default_for_current_boot_def ps2_drivers_img_stage_for_current_boot_def
      stage_with_def ps2_drivers_img_requirements_for_current_boot_def getcwd_def
      ps2_drivers_img_requirements_for_path_def default_requirements_def)

lemma default_counts:
  "card (required_modules (default_requirements ! 0)) = 7"
  "card (required_modules (default_requirements ! 1)) = 7"
  "card (required_modules (default_requirements ! 2)) = 5"
  "card (required_modules (default_requirements ! 3)) = 18"
  by (simp_all add: default_requirements_def PS2_DRIVER_REQ_FILESYSTEM_ALL_def required_modules_or card_insert_if)

lemma verdict_restage_last:
  assumes "idle fs dir (Some (p, q)) s" "serves fs p q" "card (required_modules q) = n"
    and "\<And>t. holding fs dir p q t \<Longrightarrow> verdict P (rest t) Q"
  shows "verdict P (expect_modules n k (ps2_drivers_img_restage_last s) rest) Q"
proof -
  obtain t where t: "ps2_drivers_img_restage_last s = (PS2_DRIVERS_IMG_OK, t)" "holding fs dir p q t"
    using idle_restage_last [OF assms(1,2)] by blast
  with assms(3) have "expect_modules n k (ps2_drivers_img_restage_last s) rest = rest t"
    by (intro expect_passes) (simp_all add: holding_counts)
  with t assms(4) show ?thesis by simp
qed

lemma verdict_otherwise: "\<not> c \<Longrightarrow> verdict P y Q \<Longrightarrow> verdict P (if c then x else y) Q"
  by simp

lemma check_convenience_verdict:
  assumes s: "idle fs dir src s"
    and dir: "dir = Some d"
      "ps2_drivers_img_requirements_for_boot_device (getBootDeviceID (Some d)) = req_mask PS2_DRIVER_REQ_FILEXIO"
  shows "verdict (\<forall>q \<in> set default_requirements. serves fs PS2_DRIVERS_IMG_DEFAULT_PATH q)
    (check_convenience_staging s) (idle fs dir None)"
proof -
  let ?serves = "\<lambda>i. serves fs PS2_DRIVERS_IMG_DEFAULT_PATH (default_requirements ! i)"
  let ?holding = "\<lambda>i. holding fs dir PS2_DRIVERS_IMG_DEFAULT_PATH (default_requirements ! i)"
  have current: "ps2_drivers_img_stage_default_for_current_boot (req_mask PS2_DRIVER_REQ_JOYSTICK)
      (ps2_drivers_img_discard_staged t) =
    ps2_drivers_img_stage (Some PS2_DRIVERS_IMG_DEFAULT_PATH) (default_requirements ! 2)
      (ps2_drivers_img_discard_staged t)" if "?holding 1 t" for t
    using that dir by (intro current_boot_call) (simp_all add: holding_def ready_def)
  have "verdict (?serves 0 \<and> ?serves 1 \<and> ?serves 2 \<and> ?serves 3 \<and> True)
      (check_convenience_staging s) (idle fs dir None)"
    unfolding check_convenience_staging_def convenience_calls Let_def
    apply (rule verdict_expect [OF s default_counts(1)], simp)
    subgoal for s1
      apply (rule verdict_otherwise, simp add: holding_consume)
      apply (rule verdict_restage_last [OF holding_consume(1) holding_serves default_counts(1)], assumption+)
      apply (rule verdict_expect [OF holding_discard default_counts(2)], assumption, simp)
      apply (subst current, assumption)
      apply (rule verdict_expect [OF holding_discard default_counts(3)], assumption, simp)
      apply (rule verdict_expect [OF holding_discard default_counts(4)], assumption, simp)
      apply (simp add: idle_no_source(2) [OF idle_forget [OF holding_discard]] verdict_passed
          idle_forget [OF holding_discard])
      done
    done
  then show ?thesis
    by (simp add: default_requirements_def)
qed

text \<open>
  A staging from a file that does not exist leaves the remembered source alone, so the last
  path of the loop can be staged from again, until it is forgotten.
\<close>

lemma check_sources_verdict:
  assumes s: "idle fs dir (Some (path, r)) s"
    and srv: "serves fs path (req_mask PS2_DRIVER_REQ_JOYSTICK)"
    and missing: "fs ''__ps2_drivers_missing_image__.irximg'' = None"
    and dir: "dir = Some d"
      "ps2_drivers_img_requirements_for_boot_device (getBootDeviceID (Some d)) = req_mask PS2_DRIVER_REQ_FILEXIO"
  shows "verdict (\<forall>q \<in> set default_requirements. serves fs PS2_DRIVERS_IMG_DEFAULT_PATH q)
    (check_sources s) (idle fs dir None)"
proof -
  let ?q = "req_mask PS2_DRIVER_REQ_JOYSTICK"
  note q = serves_known [OF srv]
  have "stage_outcome Map.empty fs (Some ''__ps2_drivers_missing_image__.irximg'') ?q = Inl PS2_DRIVERS_IMG_ERR_OPEN"
    using q missing by (simp add: stage_outcome_def)
  then obtain s1 where s1: "ps2_drivers_img_stage (Some ''__ps2_drivers_missing_image__.irximg'') ?q s =
        (PS2_DRIVERS_IMG_ERR_OPEN, s1)" "idle fs dir (Some (path, r)) s1"
    using idle_stage(2) [OF s] by blast
  obtain s2 where s2: "ps2_drivers_img_restage ?q s1 = (PS2_DRIVERS_IMG_OK, s2)" "holding fs dir path ?q s2"
    using idle_restage [OF s1(2) srv] by blast
  have n: "ps2_drivers_img_staged_modules s2 = 3"
    using holding_counts(1) [OF s2(2)] by simp
  note s3 = idle_forget [OF holding_discard [OF s2(2)]]
  note none = idle_no_source(1) [OF s3, of ?q] idle_no_source(2) [OF s3]
  let ?s3 = "ps2_drivers_img_forget_source (ps2_drivers_img_discard_staged s2)"
  have "check_sources s = (let (result, t) = check_convenience_staging ?s3 in
      if result \<noteq> 0 then (201, t) else (0, t))"
    using q n by (simp add: check_sources_def s1(1) s2(1) none)
  with check_convenience_verdict [OF s3 dir] show ?thesis
    by (auto simp: verdict_def split_beta Let_def)
qed

lemma stage_test_start:
  assumes "img_initial s" "all_succeed s"
  shows "idle (files s) (cwd s) None s"
    and "stage_test_main [prog, path] s =
      (let (result, t) = check_stage_cases path 0 stage_cases s in
       if result \<noteq> 0 then (result, t) else check_sources t)"
proof -
  have "heap s = Map.empty" "img_inv s"
    using assms(1) by (simp_all add: img_initial_inv) (simp add: img_initial_def)
  then show s: "idle (files s) (cwd s) None s"
    using assms(2) by (simp add: idle_def ready_def staged_map_def remembered_def)
  have "req_mask PS2_DRIVER_REQ_JOYSTICK \<noteq> 0"
    by (simp add: req_mask_def)
  then show "stage_test_main [prog, path] s =
      (let (result, t) = check_stage_cases path 0 stage_cases s in
       if result \<noteq> 0 then (result, t) else check_sources t)"
    using idle_no_source [OF s]
    by (simp add: stage_test_main_def check_boot_helpers_passes ps2_drivers_img_error_string_def)
qed

subsection \<open>The whole test\<close>

definition test_requirements :: "u32 list" where
  "test_requirements = map sc_requirements stage_cases"

lemma test_requirement: "req_mask PS2_DRIVER_REQ_JOYSTICK \<in> set test_requirements"
  by (simp add: test_requirements_def stage_cases_def)

text \<open>The world the test is meant for: no call fails, and the program starts on the host.\<close>

definition test_world :: "img_state \<Rightarrow> bool" where
  "test_world s \<longleftrightarrow> img_initial s \<and> all_succeed s \<and>
     files s ''__ps2_drivers_missing_image__.irximg'' = None \<and>
     (\<exists>d. cwd s = Some d \<and>
       ps2_drivers_img_requirements_for_boot_device (getBootDeviceID (Some d)) = req_mask PS2_DRIVER_REQ_FILEXIO)"

lemma stage_test_serves:
  assumes s: "test_world s" and path: "\<forall>q \<in> set test_requirements. serves (files s) path q"
  shows "verdict (\<forall>q \<in> set default_requirements. serves (files s) PS2_DRIVERS_IMG_DEFAULT_PATH q)
    (stage_test_main [prog, path] s) (idle (files s) (cwd s) None)"
proof -
  obtain d where d: "cwd s = Some d"
      "ps2_drivers_img_requirements_for_boot_device (getBootDeviceID (Some d)) = req_mask PS2_DRIVER_REQ_FILEXIO"
    and w: "img_initial s" "all_succeed s" "files s ''__ps2_drivers_missing_image__.irximg'' = None"
    using s by (auto simp: test_world_def)
  note start = stage_test_start [OF w(1,2)]
  have "\<forall>c \<in> set stage_cases. serves (files s) path (sc_requirements c)" "stage_cases \<noteq> []"
    using path by (auto simp: test_requirements_def) (simp add: stage_cases_def)
  then obtain t r where t: "check_stage_cases path 0 stage_cases s = (0, t)"
      "idle (files s) (cwd s) (Some (path, r)) t"
    using check_stage_cases_serves [OF start(1) stage_cases_counts] by blast
  have "serves (files s) path (req_mask PS2_DRIVER_REQ_JOYSTICK)"
    using path test_requirement by blast
  from check_sources_verdict [OF t(2) this w(3) d] show ?thesis
    by (simp add: start(2) t(1))
qed

lemma stage_test_refused:
  assumes s: "test_world s" and j: "j < length test_requirements" "\<not> serves (files s) path (test_requirements ! j)"
    "\<forall>k < j. serves (files s) path (test_requirements ! k)"
  shows "fst (stage_test_main [prog, path] s) = 10 + int j"
proof -
  have w: "img_initial s" "all_succeed s"
    using s by (simp_all add: test_world_def)
  note start = stage_test_start [OF w]
  have "fst (check_stage_cases path 0 stage_cases s) = 10 + int (0 + j)"
    using j by (intro check_stage_cases_refused [OF start(1) stage_cases_counts])
      (simp_all add: test_requirements_def)
  then show ?thesis
    by (simp add: start(2) split_beta Let_def)
qed

text \<open>An image that holds every module of the repository serves everything.\<close>

lemma complete_image_serves:
  assumes "packable ps" "range irx_id \<subseteq> fst ` set ps" "fs path = Some (image_of ps crc)" "q \<noteq> 0" "\<not> unknown_bits q"
  shows "serves fs path q"
proof -
  have "irx_id ` required_modules q \<subseteq> fst ` set ps"
    using assms(2) by blast
  from stage_spec_image [OF assms(1) this, of crc] assms(3-5) show ?thesis
    by (simp add: serves_def stage_outcome_def)
qed

lemma requirements_known:
  "\<forall>q \<in> set (test_requirements @ default_requirements). q \<noteq> 0 \<and> \<not> unknown_bits q"
proof -
  have "p \<noteq> 0 \<Longrightarrow> p OR q \<noteq> 0" for p q :: u32
    by (simp add: or_eq_0_iff)
  moreover have "req_mask r \<noteq> 0" for r
    using bit_req_mask [of r "req_bit r"] by auto
  ultimately show ?thesis
    by (simp add: test_requirements_def stage_cases_def default_requirements_def unknown_bits_or
        PS2_DRIVER_REQ_FILESYSTEM_ALL_def)
qed

text \<open>A concrete such image, in both places, and the start of the test.\<close>

definition complete_modules :: "(u32 \<times> u8 list) list" where
  "complete_modules = map (\<lambda>n. (of_nat n, [of_nat n])) [1..<28]"

definition complete_start :: img_state where
  "complete_start = (fresh [])\<lparr>cwd := Some ''/build'', files := (\<lambda>p.
     if p \<in> {''out.irximg'', PS2_DRIVERS_IMG_DEFAULT_PATH} then Some (image_of complete_modules 0) else None)\<rparr>"

lemma complete_modules_range: "range irx_id \<subseteq> fst ` set complete_modules"
proof -
  have "irx_id m \<in> fst ` set complete_modules" for m
    by (cases m) (simp_all add: complete_modules_def upt_rec)
  then show ?thesis by blast
qed

lemma complete_modules_packable: "packable complete_modules"
  by (simp add: packable_def complete_modules_def upt_rec image_small_def payload_start_def up16_def)

lemma complete_start_world: "test_world complete_start"
proof -
  have "getBootDeviceID (Some ''/build'') = BOOT_DEVICE_UNKNOWN"
    by (simp add: getBootDeviceID_def has_device_prefix_def)
  then show ?thesis
    using fresh_initial [of "[]"]
    by (simp add: test_world_def complete_start_def img_initial_def heap_wf_def all_succeed_def fresh_def
        PS2_DRIVERS_IMG_DEFAULT_PATH_def)
qed

lemma complete_start_files:
  "files complete_start ''out.irximg'' = Some (image_of complete_modules 0)"
  "files complete_start PS2_DRIVERS_IMG_DEFAULT_PATH = Some (image_of complete_modules 0)"
  by (simp_all add: complete_start_def)

end
