(* ===== verification/Repo_Manifest.thy ===== *)
theory Repo_Manifest
  imports Sample_Tool Stage_Test
begin

text \<open>
  The manifest of the repository, irx/manifest.txt, as the image tool reads it: its entries are those of the
  modules of \<open>irx\<close>, in order. The second part is a run of the tool on it, with files of one byte.
\<close>

definition module_names :: "string list" where
  "module_names =
     [''sio2man'', ''iomanX'', ''fileXio'', ''mcman'', ''mcserv'', ''bdm'', ''bdmfs_fatfs'', ''usbd'', ''usbmass_bd'',
      ''mx4sio_bd'', ''cdfs'', ''ps2dev9'', ''ps2atad'', ''ps2hdd'', ''ps2fs'', ''mtapman'', ''padman'', ''libsd'',
      ''audsrv'', ''poweroff'', ''ps2mouse'', ''ps2kbd'', ''ps2cam'', ''netman'', ''smap'', ''ps2ip-nm'', ''ps2ips'']"

definition module_entry :: "irx \<Rightarrow> string \<Rightarrow> manifest_entry" where
  "module_entry m module_name =
     \<lparr>me_id = irx_id m, me_filename = module_name @ ''.irx'',
      me_symbol = map (\<lambda>c. if c = CHR ''-'' then CHR ''_'' else c) module_name @ ''_irx'', me_name = module_name\<rparr>"

definition module_entries :: "manifest_entry list" where
  "module_entries = map2 module_entry all_irx module_names"

subsection \<open>Lines\<close>

text \<open>A line of the file, with its end; and the entry of a line does not depend on the ones before.\<close>

abbreviation ended :: "string \<Rightarrow> string" where
  "ended line \<equiv> line @ [CHR 0x0A]"

definition line_text :: "string \<Rightarrow> bool" where
  "line_text line \<longleftrightarrow> CHR 0x0A \<notin> set line \<and> CHR 0x00 \<notin> set line \<and> length line < 510"

lemma string_bytes_line:
  assumes "line_text line"
  shows "fgets_bytes (string_bytes (ended line @ rest)) = string_bytes (ended line)"
    "c_string (string_bytes (ended line)) = ended line"
    "drop (length (string_bytes (ended line))) (string_bytes (ended line @ rest)) = string_bytes rest"
proof -
  have "(of_char CHR 0x0A :: u8) = 10" "(of_char CHR 0x00 :: u8) = 0"
    by simp_all
  then have nl: "(of_char c :: u8) = 10 \<longleftrightarrow> c = CHR 0x0A" and z: "(of_char c :: u8) = 0 \<longleftrightarrow> c = CHR 0x00" for c
    by (metis of_char_u8_inject)+
  have split: "string_bytes (ended line @ rest) = string_bytes line @ 10 # string_bytes rest"
    by (simp add: string_bytes_def)
  have "takeWhile (\<lambda>b. b \<noteq> 10) (string_bytes (ended line @ rest)) = string_bytes line"
    unfolding split using assms by (subst takeWhile_append2) (auto simp: string_bytes_def line_text_def nl)
  then show "fgets_bytes (string_bytes (ended line @ rest)) = string_bytes (ended line)"
    using assms by (simp add: fgets_bytes_def line_text_def string_bytes_def Let_def min_def)
  have "takeWhile (\<lambda>b. b \<noteq> 0) (string_bytes (ended line)) = string_bytes (ended line)"
    using assms nl z by (auto simp: string_bytes_def line_text_def takeWhile_eq_all_conv)
  then have "c_string (string_bytes (ended line)) = map (\<lambda>b. char_of (unat b)) (string_bytes (ended line))"
    by (simp only: c_string_def)
  then show "c_string (string_bytes (ended line)) = ended line"
    by (simp add: string_bytes_def comp_def unat_of_char del: of_char_Char)
  show "drop (length (string_bytes (ended line))) (string_bytes (ended line @ rest)) = string_bytes rest"
    by (simp add: string_bytes_def)
qed

lemma manifest_line_after:
  assumes "manifest_line [] line = Some (Some e)" "length es < 128" "me_id e \<notin> me_id ` set es"
  shows "manifest_line es line = Some (Some e)"
  using assms by (auto simp: manifest_line_def Let_def IRXIMG_MAX_ENTRIES_def list_ex_iff split: prod.splits if_splits option.splits)

lemma manifest_lines_step:
  assumes "line_text line" "manifest_line es (ended line) = Some r" "faults w = []"
  shows "manifest_lines (string_bytes (ended line @ rest)) es w =
    manifest_lines (string_bytes rest) (es @ (case r of None \<Rightarrow> [] | Some e \<Rightarrow> [e])) w"
proof -
  define bytes where "bytes = string_bytes (ended line @ rest)"
  have bytes: "bytes \<noteq> []" "c_string (fgets_bytes bytes) = ended line"
      "drop (length (fgets_bytes bytes)) bytes = string_bytes rest"
    unfolding bytes_def string_bytes_line(1) [OF assms(1)] string_bytes_line(2) [OF assms(1)] string_bytes_line(3)
    by (simp_all add: string_bytes_def)
  have "next_call w = (True, w)"
    using assms(3) by (simp add: next_call_def)
  with bytes(1) have "manifest_lines bytes es w =
      (case manifest_line es (c_string (fgets_bytes bytes)) of None \<Rightarrow> (None, w)
       | Some None \<Rightarrow> manifest_lines (drop (length (fgets_bytes bytes)) bytes) es w
       | Some (Some e) \<Rightarrow> manifest_lines (drop (length (fgets_bytes bytes)) bytes) (es @ [e]) w)"
    by (subst manifest_lines.simps) (simp only: prod.case Let_def simp_thms if_False)
  then show ?thesis
    unfolding bytes(2,3) assms(2) by (cases r) (simp_all add: bytes_def)
qed

lemma manifest_lines_entries:
  assumes "list_all2 (\<lambda>line e. line_text line \<and> manifest_line [] (ended line) = Some (Some e)) ls new"
    "faults w = []" "length es + length new \<le> 128" "distinct (map me_id (es @ new))"
  shows "manifest_lines (string_bytes (concat (map ended ls))) es w = (Some (es @ new), w)"
  using assms
proof (induction ls new arbitrary: es rule: list_all2_induct)
  case Nil
  then show ?case
    by (simp add: manifest_lines.simps [of "[]"] string_bytes_def next_call_def)
next
  case (Cons line ls e new)
  have "manifest_line es (ended line) = Some (Some e)"
    using Cons.hyps(1) Cons.prems(2,3) by (auto intro: manifest_line_after [of "ended line"])
  from manifest_lines_step [OF _ this Cons.prems(1)] have
    "manifest_lines (string_bytes (concat (map ended (line # ls)))) es w =
     manifest_lines (string_bytes (concat (map ended ls))) (es @ [e]) w"
    using Cons.hyps(1) by simp
  with Cons.IH [of "es @ [e]"] Cons.prems show ?case
    by simp
qed

subsection \<open>The manifest\<close>

definition module_numbers :: "string list" where
  "module_numbers = [''1'', ''2'', ''3'', ''4'', ''5'', ''6'', ''7'', ''8'', ''9'', ''10'', ''11'', ''12'', ''13'', ''14'',
     ''15'', ''16'', ''17'', ''18'', ''19'', ''20'', ''21'', ''22'', ''23'', ''24'', ''25'', ''26'', ''27'']"

text \<open>A line of four good fields gives its entry.\<close>

definition row :: "string \<Rightarrow> manifest_entry \<Rightarrow> string" where
  "row n e = n @ ''|'' @ me_filename e @ ''|'' @ me_symbol e @ ''|'' @ me_name e"

definition good_field :: "string \<Rightarrow> bool" where
  "good_field t \<longleftrightarrow> t \<noteq> [] \<and> length t < 100 \<and> (\<forall>c \<in> set t. c \<notin> {CHR ''|'', CHR '' '', CHR 0x09, CHR 0x0A, CHR 0x0D, CHR 0x00})"

lemma trim_ended:
  assumes "t \<noteq> []" "hd t \<notin> {CHR '' '', CHR 0x09}" "last t \<notin> {CHR 0x0A, CHR 0x0D, CHR '' '', CHR 0x09}"
  shows "trim_line (ended t) = t"
proof -
  have "dropWhile (\<lambda>c. c = CHR '' '' \<or> c = CHR 0x09) (ended t) = ended t"
    using assms(1,2) by (cases t) auto
  moreover have "dropWhile (\<lambda>c. c \<in> {CHR 0x0A, CHR 0x0D, CHR '' '', CHR 0x09}) (rev t) = rev t"
    using assms(1,3) by (cases t rule: rev_cases) auto
  ultimately show ?thesis
    by (simp add: trim_line_def Let_def)
qed

lemma good_fieldD:
  assumes "good_field t"
  shows "t \<noteq> []" "length t < 100" "CHR ''|'' \<notin> set t" "CHR 0x0A \<notin> set t" "CHR 0x00 \<notin> set t"
    "hd t \<notin> {CHR '' '', CHR 0x09}" "last t \<notin> {CHR 0x0A, CHR 0x0D, CHR '' '', CHR 0x09}"
    "copy_field IRXIMG_MAX_FIELD t = Some t"
proof -
  show t: "t \<noteq> []" "length t < 100" "CHR ''|'' \<notin> set t" "CHR 0x0A \<notin> set t" "CHR 0x00 \<notin> set t"
    using assms by (auto simp: good_field_def)
  have "hd t \<in> set t" "last t \<in> set t"
    using t(1) by simp_all
  with assms show "hd t \<notin> {CHR '' '', CHR 0x09}" "last t \<notin> {CHR 0x0A, CHR 0x0D, CHR '' '', CHR 0x09}"
    unfolding good_field_def by blast+
  show "copy_field IRXIMG_MAX_FIELD t = Some t"
    using t(1,2) by (simp add: copy_field_def IRXIMG_MAX_FIELD_def)
qed

lemma row_fields:
  assumes "good_field n" "good_field a" "good_field b" "good_field c"
  shows "take_fields 4 (n @ ''|'' @ a @ ''|'' @ b @ ''|'' @ c) = ([n, a, b, c], None)"
proof -
  have four: "(4 :: nat) = Suc (Suc (Suc (Suc 0)))"
    by simp
  have "strtok CHR ''|'' [] = None"
    by (simp add: strtok_def)
  then show ?thesis
    unfolding four using assms by (simp add: strtok_part strtok_last good_fieldD)
qed

lemma row_parses:
  assumes "good_field n" "good_field (me_filename e)" "good_field (me_symbol e)" "good_field (me_name e)"
    "hd n \<noteq> CHR ''#''" "parse_u32 n = Some (me_id e)" "me_id e \<noteq> 0"
  shows "manifest_line [] (ended (row n e)) = Some (Some e)"
proof -
  have row: "hd (row n e) = hd n" "last (row n e) = last (me_name e)" "row n e \<noteq> []"
    using good_fieldD(1) [OF assms(1)] good_fieldD(1) [OF assms(4)] by (simp_all add: row_def)
  have "trim_line (ended (row n e)) = row n e"
    using row good_fieldD(6) [OF assms(1)] good_fieldD(7) [OF assms(4)] by (intro trim_ended) simp_all
  moreover have "take_fields 4 (row n e) = ([n, me_filename e, me_symbol e, me_name e], None)"
    unfolding row_def by (rule row_fields [OF assms(1-4)])
  ultimately show ?thesis
    using row(1,3) assms(5-7) good_fieldD(8) [OF assms(2)] good_fieldD(8) [OF assms(3)] good_fieldD(8) [OF assms(4)]
    by (simp add: manifest_line_def IRXIMG_MAX_ENTRIES_def Let_def)
qed

lemma row_line:
  assumes "good_field n" "good_field (me_filename e)" "good_field (me_symbol e)" "good_field (me_name e)"
  shows "line_text (row n e)"
  using assms [THEN good_fieldD(2)] assms [THEN good_fieldD(4)] assms [THEN good_fieldD(5)]
  by (simp add: line_text_def row_def)

lemma numbers_parse:
  "list_all2 (\<lambda>n e. good_field n \<and> hd n \<noteq> CHR ''#'' \<and> parse_u32 n = Some (me_id e) \<and> me_id e \<noteq> 0 \<and>
     good_field (me_filename e) \<and> good_field (me_symbol e) \<and> good_field (me_name e)) module_numbers module_entries"
  by (simp add: module_numbers_def module_entries_def module_names_def all_irx_def module_entry_def good_field_def
      parse_u32_def is_space_def is_digit_def digits_value_def Let_def)

lemma manifest_rows_parse:
  "list_all2 (\<lambda>line e. line_text line \<and> manifest_line [] (ended line) = Some (Some e))
     (map2 row module_numbers module_entries) module_entries"
proof -
  have "length module_numbers = length module_entries"
    using list_all2_lengthD [OF numbers_parse] .
  with numbers_parse show ?thesis
    by (simp add: list_all2_conv_all_nth row_parses row_line)
qed

lemma module_entries_ids: "map me_id module_entries = map irx_id all_irx"
  by (simp add: module_entries_def module_names_def all_irx_def module_entry_def)

lemma manifest_txt_rows:
  "manifest_txt = ended ''# id|filename|embedded_symbol|name'' @ concat (map ended (map2 row module_numbers module_entries))"
  by code_simp

lemma header_skipped:
  "line_text ''# id|filename|embedded_symbol|name''"
  "manifest_line [] (ended ''# id|filename|embedded_symbol|name'') = Some None"
proof -
  show "line_text ''# id|filename|embedded_symbol|name''"
    by (simp add: line_text_def)
  have "trim_line (ended ''# id|filename|embedded_symbol|name'') = ''# id|filename|embedded_symbol|name''"
    by (rule trim_ended) simp_all
  then show "manifest_line [] (ended ''# id|filename|embedded_symbol|name'') = Some None"
    by (simp add: manifest_line_def)
qed

lemma manifest_txt_lines:
  assumes "faults w = []"
  shows "manifest_lines (string_bytes manifest_txt) [] w = (Some module_entries, w)"
proof -
  have "length module_entries = 27" "distinct (map me_id module_entries)"
    unfolding module_entries_ids by (simp_all add: module_entries_def module_names_def all_irx_def)
  then show ?thesis
    using manifest_lines_entries [OF manifest_rows_parse assms, of "[]"]
    unfolding manifest_txt_rows manifest_lines_step [OF header_skipped assms] by simp
qed

definition repo_manifest :: manifest where
  "repo_manifest = \<lparr>m_entries = module_entries, m_crc32 = manifest_logical_crc module_entries\<rparr>"

lemma load_repo_manifest:
  assumes "map_of fs path = Some (string_bytes manifest_txt)"
  shows "load_manifest path (tool_start fs) = (Some repo_manifest, tool_start fs)"
proof -
  have call: "next_call w = (True, w)" if "faults w = []" for w :: tool_world
    using that by (simp add: next_call_def)
  have "module_entries \<noteq> []"
    by (simp add: module_entries_def module_names_def all_irx_def)
  with assms manifest_txt_lines show ?thesis
    by (simp add: load_manifest_def fopen_def call tool_start_def fclose_def repo_manifest_def Let_def)
qed

lemma repo_manifest_loads:
  assumes "files w path = Some (string_bytes manifest_txt)" "all_succeed w"
  shows "fst (load_manifest path w) = Some repo_manifest"
proof -
  have "load_manifest path (tool_start [(path, string_bytes manifest_txt)]) =
      (Some repo_manifest, tool_start [(path, string_bytes manifest_txt)])"
    by (rule load_repo_manifest) simp
  from load_manifest_again [OF this _ assms(2)] assms(1) show ?thesis
    by simp
qed

lemma all_irx_count: "length all_irx = 27"
  by (simp add: all_irx_def)

lemma repo_manifest_ids:
  "map me_id (m_entries repo_manifest) = map irx_id all_irx" "me_id ` set (m_entries repo_manifest) = range irx_id"
proof -
  show "map me_id (m_entries repo_manifest) = map irx_id all_irx"
    by (simp add: repo_manifest_def module_entries_ids)
  then show "me_id ` set (m_entries repo_manifest) = range irx_id"
    by (metis list.set_map set_all_irx)
qed

lemma repo_manifest_names:
  "map me_name (m_entries repo_manifest) = module_names"
  "\<forall>e \<in> set (m_entries repo_manifest). me_filename e = me_name e @ ''.irx'' \<and>
     me_symbol e = map (\<lambda>c. if c = CHR ''-'' then CHR ''_'' else c) (me_name e) @ ''_irx''"
proof -
  have "length all_irx = length module_names"
    by (simp add: all_irx_def module_names_def)
  then show "map me_name (m_entries repo_manifest) = module_names"
    by (intro nth_equalityI) (simp_all add: repo_manifest_def module_entries_def module_entry_def)
  show "\<forall>e \<in> set (m_entries repo_manifest). me_filename e = me_name e @ ''.irx'' \<and>
     me_symbol e = map (\<lambda>c. if c = CHR ''-'' then CHR ''_'' else c) (me_name e) @ ''_irx''"
    by (auto simp: repo_manifest_def module_entries_def module_entry_def)
qed

subsection \<open>Packing it\<close>

text \<open>What the tool packs from a manifest with all modules serves every requirement.\<close>

lemma packed_serves:
  assumes "heap_wf w" "pack_image manifest_path dir_path out w = (0, w')" "load_manifest manifest_path w = (Some m, w1)"
    "image_small (packed (files w) dir_path (m_entries m))" "range irx_id \<subseteq> me_id ` set (m_entries m)"
    "fs path = files w' out" "q \<noteq> 0" "\<not> unknown_bits q"
  shows "serves fs path q"
proof -
  let ?ps = "packed (files w) dir_path (m_entries m)"
  have there: "modules_there (files w) dir_path (m_entries m)" and img: "files w' out = Some (image_of ?ps (m_crc32 m))"
    using pack_image_result [OF assms(2,1)] assms(3,4) by auto
  have "manifest_ok (m_entries m)"
    using load_manifest_result [OF assms(3)] by simp
  note ps = packable_packed [OF this there assms(4)]
  have "range irx_id \<subseteq> fst ` set ?ps"
    using assms(5) ps(2) by (metis list.set_map)
  then show ?thesis
    using complete_image_serves [OF ps(1) _ _ assms(7,8), of fs path "m_crc32 m"] assms(6) img by simp
qed


text \<open>The tool runs on the manifest and a directory with a file of one byte for each module.\<close>

definition repo_run :: tool_world where
  "repo_run = tool_start ((''manifest'', string_bytes manifest_txt) #
     map (\<lambda>e. (''irx/'' @ me_filename e, [ucast (me_id e)])) module_entries)"

lemma repo_run_wf: "heap_wf repo_run" and repo_run_succeeds: "all_succeed repo_run"
  by (simp_all add: repo_run_def tool_start_wf tool_start_succeeds)

lemma repo_run_manifest: "load_manifest ''manifest'' repo_run = (Some repo_manifest, repo_run)"
  unfolding repo_run_def by (rule load_repo_manifest) simp

lemma repo_run_modules:
  "modules_there (files repo_run) ''irx'' module_entries"
  "packed (files repo_run) ''irx'' module_entries = map (\<lambda>e. (me_id e, [ucast (me_id e)])) module_entries"
  by (simp_all add: modules_there_def packed_def module_files_def payload_path_def build_payload_path_def
      IRXIMG_PATH_MAX_def repo_run_def module_entries_def module_names_def all_irx_def module_entry_def Let_def)

lemma repo_run_small: "image_small (packed (files repo_run) ''irx'' module_entries)"
  unfolding repo_run_modules(2)
  by (simp add: image_small_def module_entries_def module_names_def all_irx_def payload_start_def up16_def)

lemma repo_packed:
  obtains w' where "pack_image ''manifest'' ''irx'' ''out'' repo_run = (0, w')"
proof -
  obtain r w' where run: "pack_image ''manifest'' ''irx'' ''out'' repo_run = (r, w')"
    by fastforce
  then have "r = 0"
    using pack_image_result [OF run repo_run_wf] repo_run_manifest repo_run_small repo_run_modules(1)
      repo_run_succeeds by (auto simp: repo_manifest_def)
  with run that show thesis by simp
qed

text \<open>The start of the staging test, with the packed image in both places.\<close>

definition repo_start :: "u8 list option \<Rightarrow> img_state" where
  "repo_start img = complete_start\<lparr>files := (\<lambda>p. if p \<in> {''out.irximg'', PS2_DRIVERS_IMG_DEFAULT_PATH} then img else None)\<rparr>"

lemma repo_start_world: "test_world (repo_start img)"
  using complete_start_world
  by (auto simp: test_world_def repo_start_def img_initial_def heap_wf_def all_succeed_def PS2_DRIVERS_IMG_DEFAULT_PATH_def)

lemma repo_start_files:
  "files (repo_start img) ''out.irximg'' = img" "files (repo_start img) PS2_DRIVERS_IMG_DEFAULT_PATH = img"
  by (simp_all add: repo_start_def)

end
