(* ===== verification/Network_Config.thy ===== *)
theory Network_Config
  imports Drivers
begin

text \<open>
  Configuring the network (src/ps2_eeip_driver.c and src/ps2_iopip_driver.c): initialising the IP
  stack, setting the link mode, applying addresses or DHCP, and polling the link and the lease
  once a second until a bound is reached, with a callback that reports the progress.

  The numbers of the network library the code compares with are parameters, in a record.
  Calling the callback is one of the events.
\<close>

record net_numbers =
  LINK_STATE_UP :: int
  LINK_MODE_AUTO :: int
  DHCP_STATE_BOUND :: int
  DHCP_STATE_OFF :: int

record eeip_network_config =
  use_dhcp :: bool
  cfg_ip :: u32
  cfg_netmask :: u32
  cfg_gateway :: u32
  link_mode :: int
  timeout_seconds :: int
  on_progress :: bool

text \<open>The structure of the I/O processor's stack has no \<^verbatim>\<open>use_dhcp\<close>.\<close>

record iopip_network_config =
  iop_ip :: u32
  iop_netmask :: u32
  iop_gateway :: u32
  iop_link_mode :: int
  iop_timeout_seconds :: int
  iop_on_progress :: bool

definition EEIP_DEFAULT_TIMEOUT_SECONDS :: int where "EEIP_DEFAULT_TIMEOUT_SECONDS = 10"
definition IOPIP_DEFAULT_TIMEOUT_SECONDS :: int where "IOPIP_DEFAULT_TIMEOUT_SECONDS = 10"

subsection \<open>Shared helpers\<close>

definition link_is_up :: "net_numbers \<Rightarrow> 'p drv_env \<Rightarrow> 'p drv \<Rightarrow> bool \<times> 'p drv" where
  "link_is_up k env s = (let (r, s1) = lib env NetManGetLinkStatus s in (r = LINK_STATE_UP k, s1))"

definition ps2ip_getconfig :: "'p drv_env \<Rightarrow> 'p drv \<Rightarrow> (int \<times> ip_info) \<times> 'p drv" where
  "ps2ip_getconfig env s =
     (let (r, s1) = lib env (Ps2ip_getconfig ''sm0'') s in ((r, ipconfig env (events s)), s1))"

definition dhcp_is_bound :: "net_numbers \<Rightarrow> 'p drv_env \<Rightarrow> 'p drv \<Rightarrow> bool \<times> 'p drv" where
  "dhcp_is_bound k env s =
     (let ((r, info), s1) = ps2ip_getconfig env s in
      if r < 0 then (False, s1)
      else if dhcp_enabled info = 0 then (False, s1)
      else (dhcp_status info = DHCP_STATE_BOUND k \<or> dhcp_status info = DHCP_STATE_OFF k, s1))"

text \<open>The loop, over the tries that are left.\<close>

fun wait_tries ::
  "'p drv_env \<Rightarrow> ('p drv \<Rightarrow> bool \<times> 'p drv) \<Rightarrow> nat \<Rightarrow> 'p drv \<Rightarrow> int \<times> 'p drv" where
  "wait_tries env check 0 s = (-1, s)"
| "wait_tries env check (Suc n) s =
     (let (ok, s1) = check s in
      if ok then (0, s1) else wait_tries env check n (snd (lib env (Usleep (1000 * 1000)) s1)))"

definition wait_until ::
  "'p drv_env \<Rightarrow> ('p drv \<Rightarrow> bool \<times> 'p drv) \<Rightarrow> int \<Rightarrow> 'p drv \<Rightarrow> int \<times> 'p drv" where
  "wait_until env check timeout s = wait_tries env check (nat timeout) s"

subsection \<open>The stack on the main processor\<close>

definition eeip_network_config_default_dhcp ::
  "net_numbers \<Rightarrow> eeip_network_config option \<Rightarrow> eeip_network_config option" where
  "eeip_network_config_default_dhcp k cfg =
     (case cfg of
        None \<Rightarrow> None
      | Some c \<Rightarrow> Some \<lparr>use_dhcp = True, cfg_ip = 0, cfg_netmask = 0, cfg_gateway = 0,
          link_mode = LINK_MODE_AUTO k, timeout_seconds = EEIP_DEFAULT_TIMEOUT_SECONDS, on_progress = False\<rparr>)"

definition emit_progress :: "'p drv_env \<Rightarrow> eeip_network_config \<Rightarrow> EEIP_PROGRESS_EVENT \<Rightarrow> 'p drv \<Rightarrow> 'p drv" where
  "emit_progress env cfg ev s = (if on_progress cfg then snd (lib env (EEIP_progress ev) s) else s)"

definition apply_ip_config ::
  "'p drv_env \<Rightarrow> eeip_network_config \<Rightarrow> 'p drv \<Rightarrow> EEIP_NET_STATUS \<times> 'p drv" where
  "apply_ip_config env cfg s =
     (let ((r, info), s1) = ps2ip_getconfig env s in
      if r < 0 then (EEIP_NET_STATUS_CONFIG_ERROR, s1)
      else
      let info' = (if use_dhcp cfg then info\<lparr>dhcp_enabled := 1\<rparr>
                   else info\<lparr>ipaddr := cfg_ip cfg, netmask := cfg_netmask cfg, gw := cfg_gateway cfg,
                             dhcp_enabled := 0\<rparr>);
          (r', s2) = lib env (Ps2ip_setconfig info') s1
      in (if r' < 0 then EEIP_NET_STATUS_CONFIG_ERROR else EEIP_NET_STATUS_OK, s2))"

definition configure_eeip_network ::
  "net_numbers \<Rightarrow> 'p drv_env \<Rightarrow> eeip_network_config option \<Rightarrow> 'p drv \<Rightarrow> EEIP_NET_STATUS \<times> 'p drv" where
  "configure_eeip_network k env config s =
     (case config of
        None \<Rightarrow> (EEIP_NET_STATUS_CONFIG_ERROR, s)
      | Some cfg \<Rightarrow>
          let timeout = (if timeout_seconds cfg > 0 then timeout_seconds cfg
                         else EEIP_DEFAULT_TIMEOUT_SECONDS);
              s1 = emit_progress env cfg EEIP_PROGRESS_TCPIP_INIT s;
              s2 = snd (lib env (Ps2ipInit 0 0 0) s1);
              s3 = emit_progress env cfg EEIP_PROGRESS_SETTING_LINK_MODE s2;
              (r, s4) = (if link_mode cfg \<noteq> LINK_MODE_AUTO k
                         then lib env (NetManSetLinkMode (link_mode cfg)) s3 else (0, s3))
          in if r \<noteq> 0 then (EEIP_NET_STATUS_LINK_MODE_ERROR, s4)
             else
             let s5 = emit_progress env cfg EEIP_PROGRESS_APPLYING_IP_CONFIG s4;
                 (rc, s6) = apply_ip_config env cfg s5
             in if rc \<noteq> EEIP_NET_STATUS_OK then (rc, s6)
                else
                let s7 = emit_progress env cfg EEIP_PROGRESS_WAITING_LINK_UP s6;
                    (up, s8) = wait_until env (link_is_up k env) timeout s7
                in if up \<noteq> 0 then (EEIP_NET_STATUS_LINK_TIMEOUT, s8)
                   else
                   let s9 = emit_progress env cfg EEIP_PROGRESS_LINK_UP s8 in
                   if use_dhcp cfg
                   then let s10 = emit_progress env cfg EEIP_PROGRESS_WAITING_DHCP s9;
                            (bound, s11) = wait_until env (dhcp_is_bound k env) timeout s10
                        in if bound \<noteq> 0 then (EEIP_NET_STATUS_DHCP_TIMEOUT, s11)
                           else (EEIP_NET_STATUS_OK,
                                 emit_progress env cfg EEIP_PROGRESS_READY
                                   (emit_progress env cfg EEIP_PROGRESS_DHCP_BOUND s11))
                   else (EEIP_NET_STATUS_OK, emit_progress env cfg EEIP_PROGRESS_READY s9))"

text \<open>The three out parameters may be null pointers each.\<close>

definition eeip_get_current_config ::
  "'p drv_env \<Rightarrow> bool \<Rightarrow> bool \<Rightarrow> bool \<Rightarrow> 'p drv \<Rightarrow> (int \<times> u32 option \<times> u32 option \<times> u32 option) \<times> 'p drv" where
  "eeip_get_current_config env ip nm gateway s =
     (let ((r, info), s1) = ps2ip_getconfig env s in
      if r < 0 then ((-1, None, None, None), s1)
      else ((0, if ip then Some (ipaddr info) else None, if nm then Some (netmask info) else None,
             if gateway then Some (gw info) else None), s1))"

subsection \<open>The stack on the I/O processor\<close>

definition iopip_network_config_default ::
  "net_numbers \<Rightarrow> iopip_network_config option \<Rightarrow> iopip_network_config option" where
  "iopip_network_config_default k cfg =
     (case cfg of
        None \<Rightarrow> None
      | Some c \<Rightarrow> Some \<lparr>iop_ip = 0, iop_netmask = 0, iop_gateway = 0,
          iop_link_mode = LINK_MODE_AUTO k, iop_timeout_seconds = IOPIP_DEFAULT_TIMEOUT_SECONDS,
          iop_on_progress = False\<rparr>)"

definition iop_emit_progress ::
  "'p drv_env \<Rightarrow> iopip_network_config \<Rightarrow> IOPIP_PROGRESS_EVENT \<Rightarrow> 'p drv \<Rightarrow> 'p drv" where
  "iop_emit_progress env cfg ev s =
     (if iop_on_progress cfg then snd (lib env (IOPIP_progress ev) s) else s)"

definition iop_apply_ip_config ::
  "'p drv_env \<Rightarrow> iopip_network_config \<Rightarrow> 'p drv \<Rightarrow> IOPIP_NET_STATUS \<times> 'p drv" where
  "iop_apply_ip_config env cfg s =
     (let ((r, info), s1) = ps2ip_getconfig env s in
      if r < 0 then (IOPIP_NET_STATUS_CONFIG_ERROR, s1)
      else
      let info' = info\<lparr>ipaddr := iop_ip cfg, netmask := iop_netmask cfg, gw := iop_gateway cfg,
                       dhcp_enabled := 0\<rparr>;
          (r', s2) = lib env (Ps2ip_setconfig info') s1
      in (if r' < 0 then IOPIP_NET_STATUS_CONFIG_ERROR else IOPIP_NET_STATUS_OK, s2))"

definition configure_iopip_network ::
  "net_numbers \<Rightarrow> 'p drv_env \<Rightarrow> iopip_network_config option \<Rightarrow> 'p drv \<Rightarrow> IOPIP_NET_STATUS \<times> 'p drv" where
  "configure_iopip_network k env config s =
     (case config of
        None \<Rightarrow> (IOPIP_NET_STATUS_CONFIG_ERROR, s)
      | Some cfg \<Rightarrow>
          let timeout = (if iop_timeout_seconds cfg > 0 then iop_timeout_seconds cfg
                         else IOPIP_DEFAULT_TIMEOUT_SECONDS);
              s1 = iop_emit_progress env cfg IOPIP_PROGRESS_SETTING_LINK_MODE s;
              (r, s2) = (if iop_link_mode cfg \<noteq> LINK_MODE_AUTO k
                         then lib env (NetManSetLinkMode (iop_link_mode cfg)) s1 else (0, s1))
          in if r \<noteq> 0 then (IOPIP_NET_STATUS_LINK_MODE_ERROR, s2)
             else
             let s3 = iop_emit_progress env cfg IOPIP_PROGRESS_APPLYING_IP_CONFIG s2;
                 (rc, s4) = iop_apply_ip_config env cfg s3
             in if rc \<noteq> IOPIP_NET_STATUS_OK then (rc, s4)
                else
                let s5 = iop_emit_progress env cfg IOPIP_PROGRESS_WAITING_LINK_UP s4;
                    (up, s6) = wait_until env (link_is_up k env) timeout s5
                in if up \<noteq> 0 then (IOPIP_NET_STATUS_LINK_TIMEOUT, s6)
                   else (IOPIP_NET_STATUS_OK,
                         iop_emit_progress env cfg IOPIP_PROGRESS_READY
                           (iop_emit_progress env cfg IOPIP_PROGRESS_LINK_UP s6)))"

definition iopip_get_current_config ::
  "'p drv_env \<Rightarrow> bool \<Rightarrow> bool \<Rightarrow> bool \<Rightarrow> 'p drv \<Rightarrow> (int \<times> u32 option \<times> u32 option \<times> u32 option) \<times> 'p drv" where
  "iopip_get_current_config env ip nm gateway s =
     (let ((r, info), s1) = ps2ip_getconfig env s in
      if r < 0 then ((-1, None, None, None), s1)
      else ((0, if ip then Some (ipaddr info) else None, if nm then Some (netmask info) else None,
             if gateway then Some (gw info) else None), s1))"

subsection \<open>Specification: progress and waiting\<close>

text \<open>The reports a program sees, and the seconds it waits, among the events.\<close>

fun progress :: "event list \<Rightarrow> EEIP_PROGRESS_EVENT list" where
  "progress [] = []"
| "progress (Lib (EEIP_progress ev) r # es) = ev # progress es"
| "progress (e # es) = progress es"

fun iop_progress :: "event list \<Rightarrow> IOPIP_PROGRESS_EVENT list" where
  "iop_progress [] = []"
| "iop_progress (Lib (IOPIP_progress ev) r # es) = ev # iop_progress es"
| "iop_progress (e # es) = iop_progress es"

fun sleeps :: "event list \<Rightarrow> nat" where
  "sleeps [] = 0"
| "sleeps (Lib (Usleep t) r # es) = Suc (sleeps es)"
| "sleeps (e # es) = sleeps es"

text \<open>The stages a configuration went through, from how it ended.\<close>

fun eeip_stages :: "bool \<Rightarrow> EEIP_NET_STATUS \<Rightarrow> EEIP_PROGRESS_EVENT list" where
  "eeip_stages dhcp EEIP_NET_STATUS_LINK_MODE_ERROR =
     [EEIP_PROGRESS_TCPIP_INIT, EEIP_PROGRESS_SETTING_LINK_MODE]"
| "eeip_stages dhcp EEIP_NET_STATUS_CONFIG_ERROR =
     [EEIP_PROGRESS_TCPIP_INIT, EEIP_PROGRESS_SETTING_LINK_MODE, EEIP_PROGRESS_APPLYING_IP_CONFIG]"
| "eeip_stages dhcp EEIP_NET_STATUS_LINK_TIMEOUT =
     [EEIP_PROGRESS_TCPIP_INIT, EEIP_PROGRESS_SETTING_LINK_MODE, EEIP_PROGRESS_APPLYING_IP_CONFIG,
      EEIP_PROGRESS_WAITING_LINK_UP]"
| "eeip_stages dhcp EEIP_NET_STATUS_DHCP_TIMEOUT =
     [EEIP_PROGRESS_TCPIP_INIT, EEIP_PROGRESS_SETTING_LINK_MODE, EEIP_PROGRESS_APPLYING_IP_CONFIG,
      EEIP_PROGRESS_WAITING_LINK_UP, EEIP_PROGRESS_LINK_UP, EEIP_PROGRESS_WAITING_DHCP]"
| "eeip_stages dhcp EEIP_NET_STATUS_OK =
     [EEIP_PROGRESS_TCPIP_INIT, EEIP_PROGRESS_SETTING_LINK_MODE, EEIP_PROGRESS_APPLYING_IP_CONFIG,
      EEIP_PROGRESS_WAITING_LINK_UP, EEIP_PROGRESS_LINK_UP] @
     (if dhcp then [EEIP_PROGRESS_WAITING_DHCP, EEIP_PROGRESS_DHCP_BOUND] else []) @
     [EEIP_PROGRESS_READY]"

fun iopip_stages :: "IOPIP_NET_STATUS \<Rightarrow> IOPIP_PROGRESS_EVENT list" where
  "iopip_stages IOPIP_NET_STATUS_LINK_MODE_ERROR = [IOPIP_PROGRESS_SETTING_LINK_MODE]"
| "iopip_stages IOPIP_NET_STATUS_CONFIG_ERROR =
     [IOPIP_PROGRESS_SETTING_LINK_MODE, IOPIP_PROGRESS_APPLYING_IP_CONFIG]"
| "iopip_stages IOPIP_NET_STATUS_LINK_TIMEOUT =
     [IOPIP_PROGRESS_SETTING_LINK_MODE, IOPIP_PROGRESS_APPLYING_IP_CONFIG, IOPIP_PROGRESS_WAITING_LINK_UP]"
| "iopip_stages IOPIP_NET_STATUS_OK =
     [IOPIP_PROGRESS_SETTING_LINK_MODE, IOPIP_PROGRESS_APPLYING_IP_CONFIG, IOPIP_PROGRESS_WAITING_LINK_UP,
      IOPIP_PROGRESS_LINK_UP, IOPIP_PROGRESS_READY]"

definition eeip_timeout :: "eeip_network_config \<Rightarrow> nat" where
  "eeip_timeout cfg = (if timeout_seconds cfg > 0 then nat (timeout_seconds cfg) else 10)"

definition iopip_timeout :: "iopip_network_config \<Rightarrow> nat" where
  "iopip_timeout cfg = (if iop_timeout_seconds cfg > 0 then nat (iop_timeout_seconds cfg) else 10)"

text \<open>From one state to a later one: reports \<open>ps\<close> and \<open>qs\<close>, \<open>n\<close> seconds, nothing executed.\<close>

definition net_run ::
  "'p drv \<Rightarrow> EEIP_PROGRESS_EVENT list \<Rightarrow> IOPIP_PROGRESS_EVENT list \<Rightarrow> nat \<Rightarrow> 'p drv \<Rightarrow> bool" where
  "net_run s ps qs n t \<longleftrightarrow> prov t = prov s \<and> slots t = slots s \<and>
     (\<exists>es. events t = events s @ es \<and> progress es = ps \<and> iop_progress es = qs \<and> sleeps es = n \<and> execs es = [])"

lemma progress_append [simp]: "progress (xs @ ys) = progress xs @ progress ys"
  by (induction xs rule: progress.induct) simp_all

lemma iop_progress_append [simp]: "iop_progress (xs @ ys) = iop_progress xs @ iop_progress ys"
  by (induction xs rule: iop_progress.induct) simp_all

lemma sleeps_append [simp]: "sleeps (xs @ ys) = sleeps xs + sleeps ys"
  by (induction xs rule: sleeps.induct) simp_all

lemma net_run_refl: "net_run s [] [] 0 s"
  by (auto simp: net_run_def intro: exI [of _ "[]"])

lemma net_run_trans:
  assumes "net_run s ps qs m t" "net_run t ps' qs' n u"
  shows "net_run s (ps @ ps') (qs @ qs') (m + n) u"
proof -
  obtain es fs where "events t = events s @ es" "progress es = ps" "iop_progress es = qs" "sleeps es = m"
      "execs es = []" "events u = events t @ fs" "progress fs = ps'" "iop_progress fs = qs'" "sleeps fs = n"
      "execs fs = []" "prov t = prov s" "slots t = slots s" "prov u = prov t" "slots u = slots t"
    using assms unfolding net_run_def by blast
  then show ?thesis
    unfolding net_run_def by (intro conjI exI [of _ "es @ fs"]) simp_all
qed

text \<open>What one library call reports does not depend on its answer.\<close>

lemma net_run_call:
  "net_run s (progress [Lib c 0]) (iop_progress [Lib c 0]) (sleeps [Lib c 0]) (snd (lib env c s))"
  by (cases c) (simp_all add: net_run_def lib_def Let_def)

lemma net_run_link: "net_run s [] [] 0 (snd (link_is_up k env s))"
  using net_run_call [of s NetManGetLinkStatus env] by (simp add: link_is_up_def case_prod_unfold Let_def)

lemma net_run_getconfig: "net_run s [] [] 0 (snd (ps2ip_getconfig env s))"
  using net_run_call [of s "Ps2ip_getconfig ''sm0''" env]
  by (simp add: ps2ip_getconfig_def case_prod_unfold Let_def)

lemma net_run_setconfig: "net_run s [] [] 0 (snd (lib env (Ps2ip_setconfig c) s))"
  using net_run_call [of s "Ps2ip_setconfig c" env] by simp

lemma net_run_dhcp: "net_run s [] [] 0 (snd (dhcp_is_bound k env s))"
  using net_run_getconfig [of s env] by (simp add: dhcp_is_bound_def case_prod_unfold Let_def)

text \<open>
  Waiting: the check succeeded after at most as many seconds as there are tries, or it failed
  at every try and all the time has passed.
\<close>

lemma wait_tries_result:
  assumes "\<And>s. net_run s [] [] 0 (snd (check s))"
  shows "wait_tries env check n s = (r, t) \<Longrightarrow>
    \<exists>j \<le> n. net_run s [] [] j t \<and> (r = 0 \<and> j < n \<or> r = -1 \<and> j = n)"
proof (induction n arbitrary: s)
  case 0
  then show ?case
    by (simp add: net_run_refl)
next
  case (Suc n)
  obtain ok s1 where c: "check s = (ok, s1)" by fastforce
  have s1: "net_run s [] [] 0 s1"
    using assms [of s] c by simp
  show ?case
  proof (cases ok)
    case True
    with Suc.prems c s1 show ?thesis
      by auto
  next
    case False
    let ?s2 = "snd (lib env (Usleep (1000 * 1000)) s1)"
    have s2: "net_run s [] [] 1 ?s2"
      using net_run_trans [OF s1 net_run_call [of s1 "Usleep (1000 * 1000)" env]] by simp
    from Suc.IH [of ?s2] Suc.prems c False obtain j where
      j: "j \<le> n" "net_run ?s2 [] [] j t" "r = 0 \<and> j < n \<or> r = -1 \<and> j = n"
      by auto
    show ?thesis
      using net_run_trans [OF s2 j(2)] j(1,3) by (intro exI [of _ "Suc j"]) auto
  qed
qed

lemma wait_until_result:
  assumes "\<And>s. net_run s [] [] 0 (snd (check s))" and "wait_until env check timeout s = (r, t)"
  obtains j where "net_run s [] [] j t" "r = 0 \<and> j < nat timeout \<or> r = -1 \<and> j = nat timeout"
  using wait_tries_result [OF assms(1), of env "nat timeout" s r t] assms(2) by (auto simp: wait_until_def)

lemma apply_ip_config_result:
  assumes "apply_ip_config env cfg s = (rc, t)"
  shows "net_run s [] [] 0 t" "rc \<in> {EEIP_NET_STATUS_OK, EEIP_NET_STATUS_CONFIG_ERROR}"
proof -
  note def = apply_ip_config_def case_prod_unfold Let_def
  show "rc \<in> {EEIP_NET_STATUS_OK, EEIP_NET_STATUS_CONFIG_ERROR}"
    using assms by (auto simp: def split: if_splits)
  show "net_run s [] [] 0 t"
    using assms net_run_getconfig [of s env] net_run_trans [OF net_run_getconfig [of s env] net_run_setconfig]
    by (auto simp: def split: if_splits)
qed

lemma iop_apply_ip_config_result:
  assumes "iop_apply_ip_config env cfg s = (rc, t)"
  shows "net_run s [] [] 0 t" "rc \<in> {IOPIP_NET_STATUS_OK, IOPIP_NET_STATUS_CONFIG_ERROR}"
proof -
  note def = iop_apply_ip_config_def case_prod_unfold Let_def
  show "rc \<in> {IOPIP_NET_STATUS_OK, IOPIP_NET_STATUS_CONFIG_ERROR}"
    using assms by (auto simp: def split: if_splits)
  show "net_run s [] [] 0 t"
    using assms net_run_getconfig [of s env] net_run_trans [OF net_run_getconfig [of s env] net_run_setconfig]
    by (auto simp: def split: if_splits)
qed

subsection \<open>Reporting progress\<close>

text \<open>The reports \<open>evs\<close>, when there is a callback, and \<open>n\<close> seconds.\<close>

definition reported ::
  "(event list \<Rightarrow> 'e list) \<Rightarrow> bool \<Rightarrow> 'p drv \<Rightarrow> 'e list \<Rightarrow> nat \<Rightarrow> 'p drv \<Rightarrow> bool" where
  "reported reports wanted s evs n t \<longleftrightarrow> prov t = prov s \<and> slots t = slots s \<and>
     (\<exists>es. events t = events s @ es \<and> reports es = (if wanted then evs else []) \<and> sleeps es = n \<and>
        execs es = [])"

text \<open>What both stacks rely on when they report.\<close>

locale progress_reporter =
  fixes reports :: "event list \<Rightarrow> 'e list"
    and wanted :: bool
    and emit :: "'e \<Rightarrow> 'p drv \<Rightarrow> 'p drv"
  assumes reports_append: "reports (xs @ ys) = reports xs @ reports ys"
    and reports_quiet: "progress es = [] \<Longrightarrow> iop_progress es = [] \<Longrightarrow> reports es = []"
    and emit_one: "reported reports wanted s [ev] 0 (emit ev s)"
begin

lemma reported_trans:
  assumes "reported reports wanted s evs m t" "reported reports wanted t fvs n u"
  shows "reported reports wanted s (evs @ fvs) (m + n) u"
proof -
  obtain es fs where "events t = events s @ es" "reports es = (if wanted then evs else [])" "sleeps es = m"
      "execs es = []" "events u = events t @ fs" "reports fs = (if wanted then fvs else [])" "sleeps fs = n"
      "execs fs = []" "prov t = prov s" "slots t = slots s" "prov u = prov t" "slots u = slots t"
    using assms unfolding reported_def by blast
  then show ?thesis
    unfolding reported_def by (intro conjI exI [of _ "es @ fs"]) (simp_all add: reports_append)
qed

lemma reported_silent:
  assumes "net_run s [] [] n t"
  shows "reported reports wanted s [] n t"
proof -
  obtain es where "events t = events s @ es" "progress es = []" "iop_progress es = []" "sleeps es = n"
      "execs es = []" "prov t = prov s" "slots t = slots s"
    using assms unfolding net_run_def by blast
  with reports_quiet [of es] show ?thesis
    unfolding reported_def by (intro conjI exI [of _ es]) simp_all
qed

lemma reported_refl: "reported reports wanted s [] 0 s"
  by (rule reported_silent [OF net_run_refl])

lemma reported_emit:
  "reported reports wanted s evs n t \<Longrightarrow> reported reports wanted s (evs @ [ev]) n (emit ev t)"
  using reported_trans [OF _ emit_one] by fastforce

lemma reported_quiet:
  "reported reports wanted s evs m t \<Longrightarrow> net_run t [] [] n u \<Longrightarrow> reported reports wanted s evs (m + n) u"
  using reported_trans [OF _ reported_silent] by fastforce

lemma reported_call:
  "reported reports wanted s evs m t \<Longrightarrow> reported reports wanted s evs m (snd (lib env (Ps2ipInit a b g) t))"
  "reported reports wanted s evs m t \<Longrightarrow> reported reports wanted s evs m (snd (lib env (NetManSetLinkMode l) t))"
  using reported_quiet [of s evs m t 0] net_run_call [of t "Ps2ipInit a b g" env]
    net_run_call [of t "NetManSetLinkMode l" env] by auto

lemma reported_wait:
  assumes "reported reports wanted s evs m t" "\<And>s. net_run s [] [] 0 (snd (check s))"
    and "wait_until env check timeout t = (r, u)" "nat timeout = n"
  obtains j where "reported reports wanted s evs (m + j) u" "r = 0 \<and> j < n \<or> r = -1 \<and> j = n"
  using wait_until_result [OF assms(2,3)] reported_quiet [OF assms(1)] assms(4) that by metis

end

interpretation eeip: progress_reporter progress "on_progress cfg" "emit_progress env cfg"
  for env :: "'p drv_env" and cfg
proof unfold_locales
  fix es ev and s :: "'p drv"
  show "progress es = [] \<Longrightarrow> progress es = []" .
  show "reported progress (on_progress cfg) s [ev] 0 (emit_progress env cfg ev s)"
    by (auto simp: reported_def emit_progress_def lib_def Let_def)
qed simp

interpretation iopip: progress_reporter iop_progress "iop_on_progress cfg" "iop_emit_progress env cfg"
  for env :: "'p drv_env" and cfg
proof unfold_locales
  fix es ev and s :: "'p drv"
  show "iop_progress es = [] \<Longrightarrow> iop_progress es = []" .
  show "reported iop_progress (iop_on_progress cfg) s [ev] 0 (iop_emit_progress env cfg ev s)"
    by (auto simp: reported_def iop_emit_progress_def lib_def Let_def)
qed simp

lemma eeip_timeout_alt:
  "nat (if timeout_seconds cfg > 0 then timeout_seconds cfg else EEIP_DEFAULT_TIMEOUT_SECONDS) = eeip_timeout cfg"
  by (simp add: eeip_timeout_def EEIP_DEFAULT_TIMEOUT_SECONDS_def)

lemma iopip_timeout_alt:
  "nat (if iop_timeout_seconds cfg > 0 then iop_timeout_seconds cfg else IOPIP_DEFAULT_TIMEOUT_SECONDS) = iopip_timeout cfg"
  by (simp add: iopip_timeout_def IOPIP_DEFAULT_TIMEOUT_SECONDS_def)

subsection \<open>The two phases\<close>

text \<open>
  How often a call was made. The link is only asked for in the first phase, and the lease only in the second;
  applying the addresses asks once for the configuration.
\<close>

definition asks :: "lib_call \<Rightarrow> event list \<Rightarrow> nat" where
  "asks c es = length (filter (\<lambda>e. case e of Exec m a r \<Rightarrow> False | Lib d r \<Rightarrow> d = c) es)"

lemma asks_append [simp]: "asks c (xs @ ys) = asks c xs + asks c ys"
  by (simp add: asks_def)

lemma asks_lib [simp]:
  "asks c (events (snd (lib env d s))) = asks c (events s) + (if d = c then 1 else 0)"
  by (simp add: asks_def lib_def Let_def)

lemma asks_emit [simp]:
  "asks NetManGetLinkStatus (events (emit_progress env cfg ev s)) = asks NetManGetLinkStatus (events s)"
  "asks (Ps2ip_getconfig d) (events (emit_progress env cfg ev s)) = asks (Ps2ip_getconfig d) (events s)"
  by (simp_all add: emit_progress_def)

lemma asks_wait:
  assumes "\<And>s. asks c (events (snd (check s))) = asks c (events s)" "\<And>n. c \<noteq> Usleep n"
  shows "asks c (events (snd (wait_until env check timeout s))) = asks c (events s)"
proof -
  have "asks c (events (snd (wait_tries env check n s))) = asks c (events s)" for n
    using assms by (induction n arbitrary: s) (auto simp: case_prod_unfold Let_def)
  then show ?thesis
    by (simp add: wait_until_def)
qed

lemma asks_checks [simp]:
  "asks (Ps2ip_getconfig d) (events (snd (link_is_up k env s))) = asks (Ps2ip_getconfig d) (events s)"
  "asks NetManGetLinkStatus (events (snd (dhcp_is_bound k env s))) = asks NetManGetLinkStatus (events s)"
  by (simp_all add: link_is_up_def dhcp_is_bound_def ps2ip_getconfig_def case_prod_unfold Let_def)

lemma asks_apply:
  "asks (Ps2ip_getconfig d) (events (snd (apply_ip_config env cfg s))) \<le> asks (Ps2ip_getconfig d) (events s) + 1"
  by (simp add: apply_ip_config_def ps2ip_getconfig_def case_prod_unfold Let_def)

text \<open>
  The stages of a configuration, and how long it takes: up to the end of the waiting for the link, and from
  there on.
\<close>

lemma configure_eeip_phases:
  assumes run: "configure_eeip_network k env (Some cfg) s = (st, t)"
  obtains u evs1 evs2 j i where "reported progress (on_progress cfg) s evs1 j u"
    "reported progress (on_progress cfg) u evs2 i t" "evs1 @ evs2 = eeip_stages (use_dhcp cfg) st"
    "j \<le> eeip_timeout cfg" "i \<le> (if use_dhcp cfg then eeip_timeout cfg else 0)"
    "st = EEIP_NET_STATUS_LINK_TIMEOUT \<Longrightarrow> j = eeip_timeout cfg \<and> u = t"
    "st = EEIP_NET_STATUS_DHCP_TIMEOUT \<Longrightarrow> use_dhcp cfg \<and> i = eeip_timeout cfg"
    "asks (Ps2ip_getconfig ''sm0'') (events u) \<le> asks (Ps2ip_getconfig ''sm0'') (events s) + 1"
    "asks NetManGetLinkStatus (events t) = asks NetManGetLinkStatus (events u)"
proof -
  let ?emit = "emit_progress env cfg" and ?run = "reported progress (on_progress cfg)" and ?stages = "eeip_stages (use_dhcp cfg)"
  let ?timeout = "if timeout_seconds cfg > 0 then timeout_seconds cfg else EEIP_DEFAULT_TIMEOUT_SECONDS"
  let ?get = "asks (Ps2ip_getconfig ''sm0'')"
  define s3 where "s3 = ?emit EEIP_PROGRESS_SETTING_LINK_MODE
      (snd (lib env (Ps2ipInit 0 0 0) (?emit EEIP_PROGRESS_TCPIP_INIT s)))"
  have s3: "?run s (?stages EEIP_NET_STATUS_LINK_MODE_ERROR) 0 s3" "?get (events s3) = ?get (events s)"
    unfolding s3_def
    using eeip.reported_emit [OF eeip.reported_call(1) [OF eeip.reported_emit [OF eeip.reported_refl]]] by fastforce+
  obtain r s4 where l: "(if link_mode cfg \<noteq> LINK_MODE_AUTO k
      then lib env (NetManSetLinkMode (link_mode cfg)) s3 else (0, s3)) = (r, s4)"
    by fastforce
  then have "s4 = s3 \<or> s4 = snd (lib env (NetManSetLinkMode (link_mode cfg)) s3)"
    by (auto split: if_splits)
  then have s4: "?run s (?stages EEIP_NET_STATUS_LINK_MODE_ERROR) 0 s4" "?get (events s4) = ?get (events s)"
    using s3 eeip.reported_call(2) [OF s3(1)] by auto
  obtain rc s6 where a: "apply_ip_config env cfg (?emit EEIP_PROGRESS_APPLYING_IP_CONFIG s4) = (rc, s6)"
    by fastforce
  have s6: "?run s (?stages EEIP_NET_STATUS_CONFIG_ERROR) 0 s6" "?get (events s6) \<le> ?get (events s) + 1"
    using eeip.reported_quiet [OF eeip.reported_emit [OF s4(1)] apply_ip_config_result(1) [OF a]]
      asks_apply [of "''sm0''" env cfg "?emit EEIP_PROGRESS_APPLYING_IP_CONFIG s4"] s4(2) a by simp_all
  obtain up s8 where w: "wait_until env (link_is_up k env) ?timeout (?emit EEIP_PROGRESS_WAITING_LINK_UP s6) = (up, s8)"
    by fastforce
  obtain j where s8: "?run s (?stages EEIP_NET_STATUS_LINK_TIMEOUT) j s8"
      and j: "up = 0 \<and> j < eeip_timeout cfg \<or> up = -1 \<and> j = eeip_timeout cfg"
    by (rule eeip.reported_wait [OF eeip.reported_emit [OF s6(1)] net_run_link w eeip_timeout_alt]) simp
  have get8: "?get (events s8) \<le> ?get (events s) + 1"
    using asks_wait [of "Ps2ip_getconfig ''sm0''" "link_is_up k env" env ?timeout "?emit EEIP_PROGRESS_WAITING_LINK_UP s6"]
      s6(2) w by simp
  let ?s10 = "?emit EEIP_PROGRESS_WAITING_DHCP (?emit EEIP_PROGRESS_LINK_UP s8)"
  obtain bound s11 where d: "wait_until env (dhcp_is_bound k env) ?timeout ?s10 = (bound, s11)"
    by fastforce
  obtain i where s11: "?run s8 [EEIP_PROGRESS_LINK_UP, EEIP_PROGRESS_WAITING_DHCP] i s11"
      and i: "bound = 0 \<and> i < eeip_timeout cfg \<or> bound = -1 \<and> i = eeip_timeout cfg"
    by (rule eeip.reported_wait [OF eeip.reported_emit [OF eeip.reported_emit [OF eeip.reported_refl]]
        net_run_dhcp d eeip_timeout_alt]) simp
  have ask11: "asks NetManGetLinkStatus (events s11) = asks NetManGetLinkStatus (events s8)"
    using asks_wait [of NetManGetLinkStatus "dhcp_is_bound k env" env ?timeout ?s10] d by simp
  have dhcp: "?run s8 [EEIP_PROGRESS_LINK_UP, EEIP_PROGRESS_WAITING_DHCP, EEIP_PROGRESS_DHCP_BOUND, EEIP_PROGRESS_READY] i
      (?emit EEIP_PROGRESS_READY (?emit EEIP_PROGRESS_DHCP_BOUND s11))"
    using eeip.reported_emit [OF eeip.reported_emit [OF s11, of EEIP_PROGRESS_DHCP_BOUND], of EEIP_PROGRESS_READY] by simp
  have static: "?run s8 [EEIP_PROGRESS_LINK_UP, EEIP_PROGRESS_READY] 0 (?emit EEIP_PROGRESS_READY (?emit EEIP_PROGRESS_LINK_UP s8))"
    using eeip.reported_emit [OF eeip.reported_emit [OF eeip.reported_refl [of cfg s8], of EEIP_PROGRESS_LINK_UP], of EEIP_PROGRESS_READY]
    by simp
  have "(st, t) =
     (if r \<noteq> 0 then (EEIP_NET_STATUS_LINK_MODE_ERROR, s4)
      else if rc \<noteq> EEIP_NET_STATUS_OK then (rc, s6)
      else if up \<noteq> 0 then (EEIP_NET_STATUS_LINK_TIMEOUT, s8)
      else if use_dhcp cfg
      then if bound \<noteq> 0 then (EEIP_NET_STATUS_DHCP_TIMEOUT, s11)
           else (EEIP_NET_STATUS_OK, ?emit EEIP_PROGRESS_READY (?emit EEIP_PROGRESS_DHCP_BOUND s11))
      else (EEIP_NET_STATUS_OK, ?emit EEIP_PROGRESS_READY (?emit EEIP_PROGRESS_LINK_UP s8)))"
    unfolding run [symmetric] configure_eeip_network_def option.case Let_def
    by (simp add: l [unfolded s3_def] a w d)
  then consider
      "st = EEIP_NET_STATUS_LINK_MODE_ERROR" "t = s4"
    | "st = EEIP_NET_STATUS_CONFIG_ERROR" "t = s6"
    | "st = EEIP_NET_STATUS_LINK_TIMEOUT" "t = s8" "up = -1"
    | "st = EEIP_NET_STATUS_DHCP_TIMEOUT" "t = s11" "use_dhcp cfg" "bound = -1"
    | "st = EEIP_NET_STATUS_OK" "use_dhcp cfg" "t = ?emit EEIP_PROGRESS_READY (?emit EEIP_PROGRESS_DHCP_BOUND s11)"
    | "st = EEIP_NET_STATUS_OK" "\<not> use_dhcp cfg" "t = ?emit EEIP_PROGRESS_READY (?emit EEIP_PROGRESS_LINK_UP s8)"
    using i j apply_ip_config_result(2) [OF a] by (auto split: if_splits)
  then show thesis
  proof cases
    case 1
    have "?run s4 [] 0 t"
      using 1(2) eeip.reported_refl [of cfg s4] by simp
    note quiet = this
    show ?thesis
      by (rule that [OF s4(1) quiet]) (use 1 s4(2) in simp_all)
  next
    case 2
    have "?run s6 [] 0 t"
      using 2(2) eeip.reported_refl [of cfg s6] by simp
    note quiet = this
    show ?thesis
      by (rule that [OF s6(1) quiet]) (use 2 s6(2) in simp_all)
  next
    case 3
    have "?run s8 [] 0 t"
      using 3(2) eeip.reported_refl [of cfg s8] by simp
    note quiet = this
    show ?thesis
      by (rule that [OF s8 quiet]) (use 3 j get8 in simp_all)
  next
    case 4
    show ?thesis
      by (rule that [OF s8 s11 [folded 4(2)]]) (use 4 i j get8 ask11 in auto)
  next
    case 5
    show ?thesis
      by (rule that [OF s8 dhcp [folded 5(3)]]) (use 5 i j get8 ask11 in auto)
  next
    case 6
    show ?thesis
      by (rule that [OF s8 static [folded 6(3)]]) (use 6 j get8 in auto)
  qed
qed

lemma configure_eeip_result:
  assumes "configure_eeip_network k env (Some cfg) s = (st, t)"
  obtains j where "reported progress (on_progress cfg) s (eeip_stages (use_dhcp cfg) st) j t"
proof -
  obtain u evs1 evs2 j i where "reported progress (on_progress cfg) s evs1 j u"
    "reported progress (on_progress cfg) u evs2 i t" "evs1 @ evs2 = eeip_stages (use_dhcp cfg) st"
    by (rule configure_eeip_phases [OF assms])
  with eeip.reported_trans [OF this(1,2)] that show thesis
    by simp
qed

lemma configure_iopip_result:
  assumes run: "configure_iopip_network k env (Some cfg) s = (st, t)"
  obtains j where "reported iop_progress (iop_on_progress cfg) s (iopip_stages st) j t"
    "j \<le> iopip_timeout cfg" "st = IOPIP_NET_STATUS_LINK_TIMEOUT \<Longrightarrow> j = iopip_timeout cfg"
proof -
  let ?emit = "iop_emit_progress env cfg" and ?run = "reported iop_progress (iop_on_progress cfg) s"
  let ?timeout = "if iop_timeout_seconds cfg > 0 then iop_timeout_seconds cfg else IOPIP_DEFAULT_TIMEOUT_SECONDS"
  define s1 where "s1 = ?emit IOPIP_PROGRESS_SETTING_LINK_MODE s"
  have s1: "?run (iopip_stages IOPIP_NET_STATUS_LINK_MODE_ERROR) 0 s1"
    unfolding s1_def using iopip.reported_emit [OF iopip.reported_refl] by fastforce
  obtain r s2 where l: "(if iop_link_mode cfg \<noteq> LINK_MODE_AUTO k
      then lib env (NetManSetLinkMode (iop_link_mode cfg)) s1 else (0, s1)) = (r, s2)"
    by fastforce
  then have "s2 = s1 \<or> s2 = snd (lib env (NetManSetLinkMode (iop_link_mode cfg)) s1)"
    by (auto split: if_splits)
  then have s2: "?run (iopip_stages IOPIP_NET_STATUS_LINK_MODE_ERROR) 0 s2"
    using s1 iopip.reported_call(2) [OF s1] by auto
  obtain rc s4 where a: "iop_apply_ip_config env cfg (?emit IOPIP_PROGRESS_APPLYING_IP_CONFIG s2) = (rc, s4)"
    by fastforce
  have s4: "?run (iopip_stages IOPIP_NET_STATUS_CONFIG_ERROR) 0 s4"
    using iopip.reported_quiet [OF iopip.reported_emit [OF s2] iop_apply_ip_config_result(1) [OF a]] by simp
  obtain up s6 where w: "wait_until env (link_is_up k env) ?timeout (?emit IOPIP_PROGRESS_WAITING_LINK_UP s4) = (up, s6)"
    by fastforce
  obtain j where s6: "?run (iopip_stages IOPIP_NET_STATUS_LINK_TIMEOUT) j s6"
      and j: "up = 0 \<and> j < iopip_timeout cfg \<or> up = -1 \<and> j = iopip_timeout cfg"
    by (rule iopip.reported_wait [OF iopip.reported_emit [OF s4] net_run_link w iopip_timeout_alt]) simp
  have fin: "?run (iopip_stages IOPIP_NET_STATUS_OK) j (?emit IOPIP_PROGRESS_READY (?emit IOPIP_PROGRESS_LINK_UP s6))"
    using iopip.reported_emit [OF iopip.reported_emit [OF s6, of IOPIP_PROGRESS_LINK_UP], of IOPIP_PROGRESS_READY]
    by simp
  have "(st, t) =
     (if r \<noteq> 0 then (IOPIP_NET_STATUS_LINK_MODE_ERROR, s2)
      else if rc \<noteq> IOPIP_NET_STATUS_OK then (rc, s4)
      else if up \<noteq> 0 then (IOPIP_NET_STATUS_LINK_TIMEOUT, s6)
      else (IOPIP_NET_STATUS_OK, ?emit IOPIP_PROGRESS_READY (?emit IOPIP_PROGRESS_LINK_UP s6)))"
    unfolding run [symmetric] configure_iopip_network_def option.case Let_def
    by (simp add: l [unfolded s1_def] a w)
  then show thesis
    using s2 s4 s6 fin j iop_apply_ip_config_result(2) [OF a] that by (auto split: if_splits)
qed

end
