(* ===== verification/Sample_Programs.thy ===== *)
theory Sample_Programs
  imports Stage_Test Network_Config
begin

text \<open>
  Programs of src/samples that are sequences of library calls: the ones with all drivers, the
  power-off one, the one with an image, and the two that configure the network. They start by
  resetting the I/O processor, which waits in two loops without a bound. Console output is
  left out. The reset of the I/O processor is a parameter \<open>reboot\<close> on its state; the provider of
  the image flavour lives on the main processor and keeps what is staged.
\<close>

subsection \<open>Resetting the I/O processor\<close>

text \<open>\<^verbatim>\<open>while (!call) {}\<close>\<close>

partial_function (option) await :: "'p drv_env \<Rightarrow> lib_call \<Rightarrow> 'p drv \<Rightarrow> 'p drv option" where
  "await env c s =
     (let (ret, s1) = lib env c s in
      if ret = 0 then await env c s1 else Some s1)"

definition reset_iop :: "'p drv_env \<Rightarrow> ('p \<Rightarrow> 'p) \<Rightarrow> 'p drv \<Rightarrow> 'p drv option" where
  "reset_iop env reboot s =
     (case await env SifIopReset (snd (lib env SifInitRpc s)) of
        None \<Rightarrow> None
      | Some s1 \<Rightarrow>
          map_option (\<lambda>s2. snd (lib env Sbv_patch_disable_prefix_check
              (snd (lib env Sbv_patch_enable_lmb (snd (lib env SifInitRpc s2))))))
            (await env SifIopSync (s1\<lparr>prov := reboot (prov s1)\<rparr>)))"

subsection \<open>All drivers\<close>

text \<open>
  src/samples/alldrivers_sample; the verbose one prints the statuses and sleeps at the end.
\<close>

definition init_drivers :: "'p drv_env \<Rightarrow> 'p drv \<Rightarrow> 'p drv" where
  "init_drivers env s =
     (let s1 = snd (init_fileXio_driver env s);
          s2 = snd (init_memcard_driver env True s1);
          s3 = snd (init_usb_driver env True s2);
          s4 = snd (init_cdfs_driver env s3);
          s5 = snd (init_joystick_driver env True s4);
          s6 = snd (init_audio_driver env s5);
          s7 = snd (init_poweroff_driver env s6)
      in snd (init_hdd_driver env True True s7))"

definition deinit_drivers :: "'p drv_env \<Rightarrow> 'p drv \<Rightarrow> 'p drv option" where
  "deinit_drivers env s =
     (let s1 = deinit_poweroff_driver env s;
          s2 = deinit_audio_driver env s1;
          s3 = deinit_joystick_driver env False s2;
          s4 = deinit_usb_driver env False s3;
          s5 = deinit_cdfs_driver env s4;
          s6 = deinit_memcard_driver env True s5
      in map_option (deinit_fileXio_driver env) (deinit_hdd_driver env False s6))"

definition alldrivers_sample_main :: "'p drv_env \<Rightarrow> ('p \<Rightarrow> 'p) \<Rightarrow> 'p drv \<Rightarrow> 'p drv option" where
  "alldrivers_sample_main env reboot s =
     (case reset_iop env reboot s of
        None \<Rightarrow> None
      | Some s1 \<Rightarrow> deinit_drivers env (init_drivers env s1))"

definition alldrivers_verbose_sample_main :: "'p drv_env \<Rightarrow> ('p \<Rightarrow> 'p) \<Rightarrow> 'p drv \<Rightarrow> (int \<times> 'p drv) option" where
  "alldrivers_verbose_sample_main env reboot s =
     map_option (\<lambda>t. (0, snd (lib env SleepThread t))) (alldrivers_sample_main env reboot s)"

subsection \<open>Power off\<close>

text \<open>The countdown of src/samples/poweroff_sample.\<close>

primrec countdown :: "'p drv_env \<Rightarrow> nat \<Rightarrow> 'p drv \<Rightarrow> 'p drv" where
  "countdown env 0 s = s"
| "countdown env (Suc seconds) s = countdown env seconds (snd (lib env (Sleep 1) s))"

definition poweroff_sample_main :: "'p drv_env \<Rightarrow> ('p \<Rightarrow> 'p) \<Rightarrow> 'p drv \<Rightarrow> 'p drv option" where
  "poweroff_sample_main env reboot s =
     map_option (\<lambda>s1.
         let s2 = snd (init_poweroff_driver env s1);
             s3 = countdown env 5 s2;
             s4 = deinit_poweroff_driver env s3
         in snd (lib env PoweroffShutdown s4))
       (reset_iop env reboot s)"

subsection \<open>Drivers from an image\<close>

text \<open>A call of the image provider, on the state of the drivers.\<close>

definition on_images :: "(img_state \<Rightarrow> 'r \<times> img_state) \<Rightarrow> (img_state \<times> 'i) drv \<Rightarrow> 'r \<times> (img_state \<times> 'i) drv" where
  "on_images f s = (let (r, p) = f (fst (prov s)) in (r, s\<lparr>prov := (p, snd (prov s))\<rparr>))"

definition nothing_staged :: "(img_state \<times> 'i) drv \<Rightarrow> bool" where
  "nothing_staged s \<longleftrightarrow>
     ps2_drivers_img_staged_modules (fst (prov s)) = 0 \<and> ps2_drivers_img_staged_bytes (fst (prov s)) = 0"

text \<open>src/samples/irximg_sample, built with \<^verbatim>\<open>PS2_DRIVERS_IMG_FLAVOR\<close>, and without.\<close>

definition irximg_sample_main ::
  "(img_state \<times> 'i) drv_env \<Rightarrow> ('i \<Rightarrow> 'i) \<Rightarrow> string list \<Rightarrow> (img_state \<times> 'i) drv \<Rightarrow>
   (int \<times> (img_state \<times> 'i) drv) option" where
  "irximg_sample_main env reboot argv s =
     (let s0 = snd (lib env SifInitRpc s);
          (result, s1) = on_images
            (if length argv > 1 then ps2_drivers_img_stage (Some (argv ! 1)) (req_mask PS2_DRIVER_REQ_JOYSTICK)
             else ps2_drivers_img_stage_default (req_mask PS2_DRIVER_REQ_JOYSTICK)) s0 in
      if result \<noteq> PS2_DRIVERS_IMG_OK then Some (1, s1)
      else
      case reset_iop env (apsnd reboot) s1 of
        None \<Rightarrow> None
      | Some s2 \<Rightarrow>
          let (joystick_status, s3) = init_joystick_driver env True s2 in
          if joystick_status \<noteq> JOYSTICK_INIT_STATUS_OK then Some (2, s3)
          else if \<not> nothing_staged s3 then Some (3, s3)
          else
          let (result, s4) = on_images ps2_drivers_img_restage_last (deinit_joystick_driver env True s3) in
          if result \<noteq> PS2_DRIVERS_IMG_OK then Some (4, s4)
          else if ps2_drivers_img_staged_modules (fst (prov s4)) \<noteq> 3 \<or>
                  ps2_drivers_img_staged_bytes (fst (prov s4)) = 0 then Some (5, s4)
          else
          let (joystick_status, s5) = init_joystick_driver env True s4 in
          if joystick_status \<noteq> JOYSTICK_INIT_STATUS_OK then Some (6, s5)
          else if \<not> nothing_staged s5 then Some (7, s5)
          else Some (0, snd (on_images (\<lambda>p. ((), ps2_drivers_img_forget_source p)) s5)))"

definition irximg_sample_main_embedded ::
  "'p drv_env \<Rightarrow> ('p \<Rightarrow> 'p) \<Rightarrow> string list \<Rightarrow> 'p drv \<Rightarrow> (int \<times> 'p drv) option" where
  "irximg_sample_main_embedded env reboot argv s =
     map_option (\<lambda>s1.
         let (joystick_status, s2) = init_joystick_driver env True s1
         in (if joystick_status \<noteq> JOYSTICK_INIT_STATUS_OK then 2 else 0, s2))
       (reset_iop env reboot s)"

subsection \<open>Network\<close>

text \<open>
  src/samples/network_ee_sample, as built by default (without \<^verbatim>\<open>USE_STATIC_IP\<close>), and
  src/samples/network_iop_sample. \<open>cfg\<close> is the structure on the stack before it is filled in;
  \<open>IOPIP_ADDR\<close> is the macro of the IP stack that builds an address from its octets.
\<close>

definition network_ee_sample_main ::
  "net_numbers \<Rightarrow> 'p drv_env \<Rightarrow> ('p \<Rightarrow> 'p) \<Rightarrow> eeip_network_config \<Rightarrow> 'p drv \<Rightarrow> (int \<times> 'p drv) option" where
  "network_ee_sample_main k env reboot cfg s =
     (case reset_iop env reboot s of
        None \<Rightarrow> None
      | Some s1 \<Rightarrow>
          let (st, s2) = init_network_driver env True s1 in
          if st \<noteq> EEIP_INIT_STATUS_OK then Some (-1, snd (lib env SleepThread s2))
          else
          let cfg1 = map_option (\<lambda>c. c\<lparr>on_progress := True\<rparr>) (eeip_network_config_default_dhcp k (Some cfg));
              (rc, s3) = configure_eeip_network k env cfg1 s2 in
          if rc \<noteq> EEIP_NET_STATUS_OK
          then map_option (\<lambda>s4. (-1, snd (lib env SleepThread s4))) (deinit_network_driver env True s3)
          else Some (0, snd (lib env SleepThread (snd (eeip_get_current_config env True True True s3)))))"

definition network_iop_sample_main ::
  "net_numbers \<Rightarrow> (u8 \<Rightarrow> u8 \<Rightarrow> u8 \<Rightarrow> u8 \<Rightarrow> u32) \<Rightarrow> 'p drv_env \<Rightarrow> ('p \<Rightarrow> 'p) \<Rightarrow> iopip_network_config \<Rightarrow>
   'p drv \<Rightarrow> (int \<times> 'p drv) option" where
  "network_iop_sample_main k IOPIP_ADDR env reboot cfg s =
     (case reset_iop env reboot s of
        None \<Rightarrow> None
      | Some s1 \<Rightarrow>
          let (st, s2) = init_network_IOP_driver env True s1 in
          if st \<noteq> IOPIP_INIT_STATUS_OK then Some (-1, snd (lib env SleepThread s2))
          else
          let cfg1 = map_option (\<lambda>c. c\<lparr>iop_on_progress := True, iop_ip := IOPIP_ADDR 192 168 1 10,
                iop_netmask := IOPIP_ADDR 255 255 255 0, iop_gateway := IOPIP_ADDR 192 168 1 1\<rparr>)
                (iopip_network_config_default k (Some cfg));
              (rc, s3) = configure_iopip_network k env cfg1 s2 in
          if rc \<noteq> IOPIP_NET_STATUS_OK
          then Some (-1, snd (lib env SleepThread (deinit_network_IOP_driver env True s3)))
          else Some (0, snd (lib env SleepThread (snd (iopip_get_current_config env True True True s3)))))"

subsection \<open>Endless loops and monitors\<close>

text \<open>
  The states at the head of a loop without an exit, whose body may not return. What the body keeps
  holds of all of them.
\<close>

inductive at_head :: "('s \<Rightarrow> 's option) \<Rightarrow> 's \<Rightarrow> 's \<Rightarrow> bool" for turn v where
  head_start: "at_head turn v v"
| head_turn: "at_head turn v w \<Longrightarrow> turn w = Some u \<Longrightarrow> at_head turn v u"

lemma head_keeps:
  "at_head turn v w \<Longrightarrow> I v \<Longrightarrow> (\<And>w u. I w \<Longrightarrow> turn w = Some u \<Longrightarrow> I u) \<Longrightarrow> I w"
  by (induction rule: at_head.induct) blast+

text \<open>
  A monitor reads the calls of a program one by one, keeping what is open, and stops at a call that
  is not allowed.
\<close>

locale call_monitor =
  fixes step :: "'o \<Rightarrow> 'e \<Rightarrow> 'o option" and run :: "'o \<Rightarrow> 'e list \<Rightarrow> 'o option"
  assumes run_none: "run S [] = Some S"
    and run_call: "run S (e # es) = Option.bind (step S e) (\<lambda>T. run T es)"
begin

lemma monitor_append: "run S (xs @ ys) = Option.bind (run S xs) (\<lambda>T. run T ys)"
proof (induction xs arbitrary: S)
  case (Cons x xs)
  then show ?case
    by (cases "step S x") (simp_all add: run_call)
qed (simp add: run_none)

lemma monitor_prefix: "run S (xs @ ys) = Some T \<Longrightarrow> run S xs \<noteq> None"
  by (auto simp: monitor_append bind_eq_Some_conv)

end

subsection \<open>Waiting\<close>

text \<open>Only calls were made: the slots are as before, and nothing was executed.\<close>

definition silent :: "'p drv \<Rightarrow> 'p drv \<Rightarrow> bool" where
  "silent s t \<longleftrightarrow> slots t = slots s \<and> (\<exists>es. events t = events s @ es \<and> execs es = [])"

lemma silent_refl [simp]: "silent s s"
  by (simp add: silent_def)

lemma silent_trans [trans]:
  assumes "silent s t" "silent t u"
  shows "silent s u"
proof -
  obtain es fs where "events t = events s @ es" "execs es = []" "events u = events t @ fs" "execs fs = []"
    using assms by (auto simp: silent_def)
  moreover have "slots u = slots s"
    using assms by (simp add: silent_def)
  ultimately show ?thesis
    unfolding silent_def by (intro conjI exI [of _ "es @ fs"]) simp_all
qed

lemma silent_lib [simp]: "silent s (snd (lib env c s))"
  by (simp add: silent_def lib_def Let_def)

lemma prov_lib [simp]: "prov (snd (lib env c s)) = prov s"
  by (simp add: lib_def Let_def)

lemma silent_prov [simp]: "silent s (t\<lparr>prov := p\<rparr>) = silent s t"
  by (simp add: silent_def)

lemma await_effect:
  assumes "await env c s = Some t"
  shows "silent s t \<and> prov t = prov s"
proof (rule await.raw_induct [where P = "\<lambda>env c s t. silent s t \<and> prov t = prov s", OF _ assms], goal_cases)
  case (1 loop env c s t)
  obtain ret s1 where l: "lib env c s = (ret, s1)" by fastforce
  have s1: "silent s s1" "prov s1 = prov s"
    using l silent_lib [of s env c] prov_lib [of env c s] by simp_all
  show ?case
  proof (cases "ret = 0")
    case True
    then have "loop env c s1 = Some t"
      using 1(2) l by simp
    with 1(1) s1 show ?thesis
      by (metis silent_trans)
  next
    case False
    with 1(2) l s1 show ?thesis by simp
  qed
qed

text \<open>The loop ends when the call is answered with something else than zero.\<close>

lemma await_answered:
  "answer env (events s) c \<noteq> 0 \<Longrightarrow> await env c s = Some (snd (lib env c s))"
  by (subst await.simps) (simp add: lib_def Let_def)

lemma reset_iop_effect:
  "reset_iop env reboot s = Some t \<Longrightarrow> silent s t \<and> prov t = reboot (prov s)"
proof -
  assume "reset_iop env reboot s = Some t"
  then obtain s1 s2 where s1: "await env SifIopReset (snd (lib env SifInitRpc s)) = Some s1"
    and s2: "await env SifIopSync (s1\<lparr>prov := reboot (prov s1)\<rparr>) = Some s2"
    and t: "t = snd (lib env Sbv_patch_disable_prefix_check (snd (lib env Sbv_patch_enable_lmb
      (snd (lib env SifInitRpc s2)))))"
    by (auto simp: reset_iop_def split: option.splits)
  have "silent s s1" "prov s1 = prov s"
    using await_effect [OF s1] silent_trans [OF silent_lib] by auto
  moreover have "silent s1 s2" "prov s2 = reboot (prov s1)"
    using await_effect [OF s2] by (auto simp: silent_def)
  moreover have "silent s2 t" "prov t = prov s2"
    unfolding t by (auto intro: silent_trans [OF silent_trans [OF silent_lib silent_lib] silent_lib])
  ultimately show ?thesis
    using silent_trans by metis
qed

lemma reset_iop_returns: "libraries_work (answer env) \<Longrightarrow> \<exists>t. reset_iop env reboot s = Some t"
proof -
  assume "libraries_work (answer env)"
  then have "accepts SifIopReset (answer env es SifIopReset)" "accepts SifIopSync (answer env es SifIopSync)" for es
    unfolding libraries_work_def by blast+
  then show ?thesis
    by (simp add: reset_iop_def await_answered)
qed

subsection \<open>All drivers: what stays loaded\<close>

lemmas sample_deinit_defs = deinit_poweroff_driver_def unloadIRXs_poweroff_def deinit_audio_driver_def
  unloadIRXs_audio_def deinitLibraries_audio_def deinit_joystick_driver_def unloadIRXs_joystick_def
  deinitLibraries_joystick_def deinit_usb_driver_def unloadIRXs_usb_def deinit_cdfs_driver_def
  unloadIRXs_cdfs_def deinit_memcard_driver_def unloadIRXs_memcard_def deinit_sio2man_driver_def
  unloadIRXs_sio2man_def deinit_hdd_driver_def unloadIRXs_hdd_def deinit_fileXio_driver_def unloadIRXs_fileXio_def

definition alldrivers_released :: "irx set" where
  "alldrivers_released = {POWEROFF, LIBSD, AUDSRV, MTAPMAN, PADMAN, USBMASS_BD, CDFS, SIO2MAN, MCMAN, MCSERV,
     PS2FS, PS2HDD, PS2ATAD, IOMANX, FILEXIO}"

lemma deinit_drivers_slots:
  obtains t where "deinit_drivers env s = Some t"
    "\<And>m. slots t m = (if m \<in> alldrivers_released \<and> CHECK_IRX_UNLOAD (slots s m) then reset_slot else slots s m)"
proof -
  have no: "\<not> CHECK_IRX_UNLOAD reset_slot"
    by (simp add: slot_defs)
  obtain t where t: "deinit_drivers env s = Some t"
    by (simp add: deinit_drivers_def deinit_hdd_driver_def Let_def)
  moreover have "slots t m =
      (if m \<in> alldrivers_released \<and> CHECK_IRX_UNLOAD (slots s m) then reset_slot else slots s m)" for m
    using t no by (auto simp: deinit_drivers_def sample_deinit_defs unload_irxs_slot alldrivers_released_def Let_def)
  ultimately show thesis
    using that by blast
qed

text \<open>The modules the initialisations may execute, given those that are loaded already.\<close>

definition alldrivers_modules :: "irx set" where
  "alldrivers_modules = alldrivers_released \<union> {BDM, BDMFS_FATFS, USBD, PS2DEV9}"

lemma init_drivers_ran: "ran env alldrivers_modules alldrivers_modules s (init_drivers env s)"
  unfolding init_drivers_def Let_def
  by (intro init_ran ran_refl subset_refl) (auto simp: may_load_def alldrivers_modules_def alldrivers_released_def)

lemma loaded_survives:
  fixes m :: irx
  assumes "\<And>M. \<forall>x. x \<in> may_load M M s \<Longrightarrow> ran env M M s (f s)" and "CHECK_IRX_UNLOAD (slots s m)"
  shows "slots (f s) m = slots s m"
proof -
  let ?M = "{m. CHECK_IRX_LOAD (slots s m)}"
  have "ran env ?M ?M s (f s)"
    by (rule assms(1)) (simp add: may_load_def)
  moreover have "m \<notin> ?M"
    using assms(2) by (auto simp: slot_defs)
  ultimately show ?thesis
    by (simp add: ran_def)
qed

text \<open>The initialisations before the joystick's, with everything there.\<close>

lemma init_drivers_usb_loaded:
  fixes sif :: "'i sif_exec"
  assumes env: "iop_loads sif" "libraries_work ans"
    and s: "\<forall>m. slots s m = reset_slot" and m: "m \<in> {BDM, BDMFS_FATFS, USBD}"
  shows "CHECK_IRX_UNLOAD (slots (init_drivers (linked_env sif linked ans cfg) s) m)"
proof -
  let ?env = "linked_env sif linked ans cfg"
  let ?works = "\<lambda>f ms st. works (\<lambda>p. True) (\<lambda>p m. Some (linked_bytes linked m)) f ms st"
  note id = iop_loads_resident [OF env(1)] libraries_work_accepting [OF env(2)]
  have w: "?works (init_fileXio_driver ?env) [IOMANX, FILEXIO] FILEXIO_INIT_STATUS_OK"
    "?works (init_memcard_driver ?env True) [SIO2MAN, MCMAN, MCSERV] MEMCARD_INIT_STATUS_IRX_OK"
    "?works (init_usb_driver ?env True) [BDM, BDMFS_FATFS, USBD, USBMASS_BD] USB_INIT_STATUS_IRX_OK"
    using linked_works.init_fileXio_works [of linked sif ans cfg]
      linked_works.init_memcard_works [of linked sif ans cfg] linked_works.init_usb_works [of linked sif ans cfg]
    unfolding id .
  let ?first = "\<lambda>s. case init_fileXio_driver ?env s of (x, t) \<Rightarrow>
      (case init_memcard_driver ?env True t of (y, u) \<Rightarrow> init_usb_driver ?env True u)"
  let ?rest = "\<lambda>s. snd (init_hdd_driver ?env True True (snd (init_poweroff_driver ?env (snd (init_audio_driver ?env
      (snd (init_joystick_driver ?env True (snd (init_cdfs_driver ?env s)))))))))"
  have "?works ?first ([IOMANX, FILEXIO] @ [SIO2MAN, MCMAN, MCSERV] @ [BDM, BDMFS_FATFS, USBD, USBMASS_BD])
      USB_INIT_STATUS_IRX_OK"
    by (intro works_bind [OF w(1)] works_bind [OF w(2)] w(3))
  moreover have "free_slots (\<lambda>p. True) (\<lambda>p m. Some (linked_bytes linked m))
      ([IOMANX, FILEXIO] @ [SIO2MAN, MCMAN, MCSERV] @ [BDM, BDMFS_FATFS, USBD, USBMASS_BD]) s"
    using s by (simp add: free_slots_def)
  ultimately obtain t where t: "?first s = (USB_INIT_STATUS_IRX_OK, t)"
      "did (\<lambda>p. True) (\<lambda>p m. Some (linked_bytes linked m))
        ([IOMANX, FILEXIO] @ [SIO2MAN, MCMAN, MCSERV] @ [BDM, BDMFS_FATFS, USBD, USBMASS_BD]) s t"
    unfolding works_def by blast
  have all: "init_drivers ?env s = ?rest t"
    using t(1) by (simp add: init_drivers_def case_prod_unfold Let_def)
  have loaded: "CHECK_IRX_UNLOAD (slots t m)"
    using t(2) m by (auto simp: did_def)
  have "slots (?rest t) m = slots t m"
    by (rule loaded_survives [where f = ?rest and env = ?env, OF _ loaded], intro init_ran ran_refl) auto
  with all loaded show ?thesis
    by simp
qed

subsection \<open>Power off: the order of the last calls\<close>

lemma countdown_silent: "silent s (countdown env n s)"
  by (induction n arbitrary: s) (simp_all, blast intro: silent_trans silent_lib)

lemma countdown_prov [simp]: "prov (countdown env n s) = prov s"
  by (induction n arbitrary: s) simp_all

text \<open>What the initialisation executes, when it executes.\<close>

lemma init_poweroff_events:
  "\<exists>es. events (snd (init_poweroff_driver env s)) = events s @ es \<and>
    (\<forall>a n q. Exec POWEROFF a (n, Some q) \<in> set es \<longrightarrow>
      slots (snd (init_poweroff_driver env s)) POWEROFF = \<lparr>slot_id = n, slot_ret = q\<rparr>)"
  by (auto simp: init_poweroff_driver_def loadIRXs_poweroff_def initLibraries_poweroff_def load_irx_def lib_def
      case_prod_unfold Let_def prod_eq_iff split: option.split)

lemma no_exec: "execs es = [] \<Longrightarrow> Exec m a r \<notin> set es"
  by (induction es rule: execs.induct) auto

lemma deinit_poweroff_events:
  "\<exists>es. events (deinit_poweroff_driver env s) = events s @ es \<and> execs es = [] \<and>
    \<not> CHECK_IRX_UNLOAD (slots (deinit_poweroff_driver env s) POWEROFF) \<and>
    (CHECK_IRX_UNLOAD (slots s POWEROFF) \<longrightarrow> (\<exists>y. Lib (SifUnloadModule (slot_id (slots s POWEROFF))) y \<in> set es))"
  by (auto simp: deinit_poweroff_driver_def unloadIRXs_poweroff_def unload_irxs_def unload_irx_def lib_def Let_def
      reset_slot_def CHECK_IRX_UNLOAD_def)

subsection \<open>Staging, executing and staging again\<close>

lemma image_exec_ready:
  assumes "ready fs dir (fst p)"
  shows "ready fs dir (fst (snd (image_exec sif m a p))) \<and>
    remembered (fst (snd (image_exec sif m a p))) = remembered (fst p)"
proof -
  obtain s i where p: "p = (s, i)" by fastforce
  have inv: "img_inv s"
    using assms p by (simp add: ready_def)
  show ?thesis
    using assms release_staged_result [OF inv, of "irx_id m"]
    by (simp add: p image_exec_result [OF inv] ready_def all_succeed_def case_prod_unfold Let_def split: option.split)
qed

lemma exec_list_ready:
  "ready fs dir (fst p) \<Longrightarrow> ready fs dir (fst (snd (exec_list (image_exec sif) ms p))) \<and>
    remembered (fst (snd (exec_list (image_exec sif) ms p))) = remembered (fst p)"
proof (induction ms arbitrary: p)
  case Nil
  then show ?case by simp
next
  case (Cons x ms)
  with image_exec_ready [OF Cons.prems, of sif "fst x" "snd x"] show ?case
    by (cases x) (simp add: case_prod_unfold Let_def)
qed

text \<open>Execution adds nothing to the store.\<close>

lemma exec_list_domain:
  "img_inv (fst p) \<Longrightarrow>
    dom (staged_map (fst (snd (exec_list (image_exec sif) ms p)))) \<subseteq> dom (staged_map (fst p))"
proof (induction ms arbitrary: p)
  case Nil
  then show ?case by simp
next
  case (Cons x ms)
  obtain m a s i where x: "x = (m, a)" "p = (s, i)"
    by (cases x; cases p) blast
  have inv: "img_inv s"
    using Cons.prems x by simp
  let ?q = "snd (image_exec sif m a p)"
  have "img_inv (fst ?q) \<and> dom (staged_map (fst ?q)) \<subseteq> dom (staged_map s)"
    using release_staged_result [OF inv, of "irx_id m"] inv
    by (auto simp: x image_exec_result [OF inv] case_prod_unfold Let_def split: option.split if_splits)
  with Cons.IH [of ?q] show ?case
    by (auto simp: x case_prod_unfold Let_def)
qed

lemma ran_ready:
  assumes "ran (image_env sif ans cfg) M U s t" "ready fs dir (fst (prov s))"
  shows "ready fs dir (fst (prov t))" "remembered (fst (prov t)) = remembered (fst (prov s))"
  using assms(1) exec_list_ready [OF assms(2), of sif] by (auto simp: ran_def image_env_def)

abbreviation joystick_req :: u32 where
  "joystick_req \<equiv> req_mask PS2_DRIVER_REQ_JOYSTICK"

lemma init_joystick_image:
  fixes sif :: "'i sif_exec"
  assumes env: "iop_loads sif" "libraries_work ans"
    and s: "holding fs dir p joystick_req (fst (prov s))" "\<forall>m \<in> {SIO2MAN, MTAPMAN, PADMAN}. slots s m = reset_slot"
  obtains t es where "init_joystick_driver (image_env sif ans cfg) True s = (JOYSTICK_INIT_STATUS_OK, t)"
    "idle fs dir (Some (p, joystick_req)) (fst (prov t))"
    "\<forall>m \<in> {SIO2MAN, MTAPMAN, PADMAN}. CHECK_IRX_UNLOAD (slots t m)"
    "events t = events s @ es" "map fst (execs es) = [SIO2MAN, MTAPMAN, PADMAN]"
proof -
  let ?env = "image_env sif ans cfg" and ?ms = "[SIO2MAN, MTAPMAN, PADMAN]"
  let ?I = "\<lambda>p :: img_state \<times> 'i. img_inv (fst p)" and ?holds = "\<lambda>(p :: img_state \<times> 'i) m. staged_map (fst p) (irx_id m)"
  have inv: "img_inv (fst (prov s))"
    using holding_ready [OF s(1)] by blast
  have dom: "dom (staged_map (fst (prov s))) = irx_id ` set ?ms"
    using holding_dom(1) [OF s(1)] by simp
  then have "free_slots ?I ?holds ?ms s"
    using inv s(2) by (auto simp: free_slots_def simp del: irx_id.simps)
  then obtain t where t: "init_joystick_driver ?env True s = (JOYSTICK_INIT_STATUS_OK, t)" "did ?I ?holds ?ms s t"
    using image_works.init_joystick_works [of sif ans cfg]
    unfolding iop_loads_resident [OF env(1)] libraries_work_accepting [OF env(2)] works_def by blast
  obtain es where es: "events t = events s @ es" "map fst (execs es) = ?ms"
    using t(2) by (auto simp: did_def)
  have ran: "ran ?env UNIV UNIV s t"
    using init_joystick_ran [of ?env UNIV UNIV s s True] t(1) by (simp add: may_load_def)
  have ready: "ready fs dir (fst (prov t))" "remembered (fst (prov t)) = Some (p, joystick_req)"
    using ran_ready [OF ran, of fs dir] s(1) by (simp_all add: holding_def)
  have "staged_map (fst (prov t)) n = None" for n
  proof (cases "n \<in> irx_id ` set ?ms")
    case True
    then obtain m where "m \<in> set ?ms" "n = irx_id m"
      by blast
    with ran_consumes [OF ran inv es(1), of m] es(2) show ?thesis
      by (metis image_set)
  next
    case False
    moreover have "prov t = snd (exec_list (image_exec sif) (execs es) (prov s))"
      using ran es(1) by (auto simp: ran_def image_env_def)
    ultimately show ?thesis
      using exec_list_domain [OF inv, of sif "execs es"] dom by auto
  qed
  then have "idle fs dir (Some (p, joystick_req)) (fst (prov t))"
    using ready by (auto simp: idle_def)
  with that t es show thesis
    by (auto simp: did_def)
qed

lemma deinit_joystick_effect:
  assumes "\<forall>m \<in> {SIO2MAN, MTAPMAN, PADMAN}. CHECK_IRX_UNLOAD (slots s m)"
  shows "\<forall>m \<in> {SIO2MAN, MTAPMAN, PADMAN}. slots (deinit_joystick_driver env True s) m = reset_slot"
    and "prov (deinit_joystick_driver env True s) = prov s"
    and "\<exists>es. events (deinit_joystick_driver env True s) = events s @ es \<and> execs es = []"
proof -
  have unload: "prov (unload_irxs env ms s) = prov s \<and> (\<exists>es. events (unload_irxs env ms s) = events s @ es \<and> execs es = [])"
    for ms and s :: "'a drv"
  proof -
    have "ran env {} UNIV s (unload_irxs env ms s)"
      by (rule ran_unloads) simp
    then show ?thesis
      by (auto simp: ran_def)
  qed
  show "\<forall>m \<in> {SIO2MAN, MTAPMAN, PADMAN}. slots (deinit_joystick_driver env True s) m = reset_slot"
    using assms by (auto simp: sample_deinit_defs unload_irxs_slot Let_def)
  show "prov (deinit_joystick_driver env True s) = prov s"
    by (simp add: sample_deinit_defs unload Let_def)
  have "ran env {} UNIV s (deinit_joystick_driver env True s)"
    by (auto simp: sample_deinit_defs Let_def intro!: ran_rules)
  then show "\<exists>es. events (deinit_joystick_driver env True s) = events s @ es \<and> execs es = []"
    by (auto simp: ran_def)
qed

text \<open>The sample: it stages, executes, releases, stages from the remembered source, executes.\<close>

lemma joystick_served:
  assumes env: "iop_loads sif" "libraries_work ans"
    and s: "idle fs dir None (fst (prov s))" "\<forall>m \<in> {SIO2MAN, MTAPMAN, PADMAN}. slots s m = reset_slot"
    and srv: "serves fs path joystick_req"
  obtains u es where "irximg_sample_main (image_env sif ans cfg) reboot [prog, path] s = Some (0, u)"
    "idle fs dir None (fst (prov u))" "\<forall>m \<in> {SIO2MAN, MTAPMAN, PADMAN}. CHECK_IRX_UNLOAD (slots u m)"
    "events u = events s @ es" "map fst (execs es) = [SIO2MAN, MTAPMAN, PADMAN, SIO2MAN, MTAPMAN, PADMAN]"
proof -
  let ?env = "image_env sif ans cfg" and ?ms = "{SIO2MAN, MTAPMAN, PADMAN}"
  have works: "libraries_work (answer ?env)"
    using env(2) by (simp add: image_env_def)
  obtain p1 where p1: "ps2_drivers_img_stage (Some path) joystick_req (fst (prov s)) = (PS2_DRIVERS_IMG_OK, p1)"
      "holding fs dir path joystick_req p1"
    using idle_stage(1) [OF s(1) srv] by blast
  define s1 where "s1 = (snd (lib ?env SifInitRpc s))\<lparr>prov := (p1, snd (prov s))\<rparr>"
  have s1: "silent s s1"
    by (simp add: s1_def)
  obtain s2 where s2: "reset_iop ?env (apsnd reboot) s1 = Some s2"
    using reset_iop_returns [OF works] by blast
  note r2 = reset_iop_effect [OF s2]
  have p2: "fst (prov s2) = p1"
    using r2 by (simp add: s1_def)
  have "silent s s2"
    using silent_trans [OF s1] r2 by blast
  then obtain es2 where e2: "events s2 = events s @ es2" "execs es2 = []" "slots s2 = slots s"
    by (auto simp: silent_def)
  obtain s3 es3 where s3: "init_joystick_driver ?env True s2 = (JOYSTICK_INIT_STATUS_OK, s3)"
      "idle fs dir (Some (path, joystick_req)) (fst (prov s3))"
      "\<forall>m \<in> ?ms. CHECK_IRX_UNLOAD (slots s3 m)"
      "events s3 = events s2 @ es3" "map fst (execs es3) = [SIO2MAN, MTAPMAN, PADMAN]"
    using init_joystick_image [OF env, of fs dir path s2 cfg] p1(2) p2 e2(3) s(2) by auto
  define s4 where "s4 = deinit_joystick_driver ?env True s3"
  note d4 = deinit_joystick_effect [OF s3(3), of ?env, folded s4_def]
  obtain es4 where e4: "events s4 = events s3 @ es4" "execs es4 = []"
    using d4(3) by blast
  obtain p5 where p5: "ps2_drivers_img_restage_last (fst (prov s4)) = (PS2_DRIVERS_IMG_OK, p5)"
      "holding fs dir path joystick_req p5"
    using idle_restage_last [of fs dir path joystick_req "fst (prov s4)"] s3(2) srv d4(2) by auto
  define s5 where "s5 = s4\<lparr>prov := (p5, snd (prov s4))\<rparr>"
  have h5: "holding fs dir path joystick_req (fst (prov s5))" "\<forall>m \<in> ?ms. slots s5 m = reset_slot"
      "events s5 = events s4"
    using p5(2) d4(1) by (simp_all add: s5_def)
  obtain s6 es6 where s6: "init_joystick_driver ?env True s5 = (JOYSTICK_INIT_STATUS_OK, s6)"
      "idle fs dir (Some (path, joystick_req)) (fst (prov s6))"
      "\<forall>m \<in> ?ms. CHECK_IRX_UNLOAD (slots s6 m)"
      "events s6 = events s5 @ es6" "map fst (execs es6) = [SIO2MAN, MTAPMAN, PADMAN]"
    using init_joystick_image [OF env h5(1,2)] .
  define u where "u = s6\<lparr>prov := (ps2_drivers_img_forget_source (fst (prov s6)), snd (prov s6))\<rparr>"
  have zero: "nothing_staged t" if "idle fs dir src (fst (prov t))" for src and t :: "(img_state \<times> 'a) drv"
    using that staged_modules_card [of "fst (prov t)"] by (simp add: nothing_staged_def idle_def ready_def)
  have three: "ps2_drivers_img_staged_modules p5 = 3" "ps2_drivers_img_staged_bytes p5 \<noteq> 0"
    using holding_counts(1,2) [OF p5(2)] by simp_all
  have c1: "on_images (ps2_drivers_img_stage (Some path) joystick_req) (snd (lib ?env SifInitRpc s)) =
      (PS2_DRIVERS_IMG_OK, s1)"
    using p1(1) by (simp add: on_images_def s1_def)
  have c5: "on_images ps2_drivers_img_restage_last s4 = (PS2_DRIVERS_IMG_OK, s5)"
    using p5(1) by (simp add: on_images_def s5_def)
  show thesis
  proof (rule that)
    show "irximg_sample_main ?env reboot [prog, path] s = Some (0, u)"
      using c1 s2 s3(1) zero [OF s3(2)] c5 s6(1) zero [OF s6(2)] three
      by (simp add: irximg_sample_main_def s4_def [symmetric] on_images_def u_def) (simp add: s5_def)
    show "idle fs dir None (fst (prov u))"
      using idle_forget [OF s6(2)] by (simp add: u_def)
    show "\<forall>m \<in> ?ms. CHECK_IRX_UNLOAD (slots u m)"
      using s6(3) by (simp add: u_def)
    show "events u = events s @ (es2 @ es3 @ es4 @ es6)"
      using e2(1) s3(4) e4(1) h5(3) s6(4) by (simp add: u_def)
    show "map fst (execs (es2 @ es3 @ es4 @ es6)) = [SIO2MAN, MTAPMAN, PADMAN, SIO2MAN, MTAPMAN, PADMAN]"
      using e2(2) s3(5) e4(2) s6(5) by simp
  qed
qed

lemma joystick_refused:
  assumes "idle fs dir None (fst (prov s))" "\<not> serves fs path joystick_req"
  obtains u where "irximg_sample_main (image_env sif ans cfg) reboot [prog, path] s = Some (1, u)"
proof -
  have "fst (on_images (ps2_drivers_img_stage (Some path) joystick_req) (snd (lib (image_env sif ans cfg) SifInitRpc s)))
      \<noteq> PS2_DRIVERS_IMG_OK"
    using idle_stage_refused [OF assms] by (simp add: on_images_def case_prod_unfold Let_def)
  then show thesis
    using that by (simp add: irximg_sample_main_def case_prod_unfold Let_def)
qed

subsection \<open>Network samples: what a failed configuration leaves\<close>

lemma network_IOP_wrapper_keeps:
  assumes "CHECK_IRX_UNLOAD (slots s m) \<or> m \<notin> set (driver_closure PS2_DRIVER_REQ_IOPIP)"
  shows "slots (deinit_network_IOP_driver env b s) m = slots s m"
proof -
  let ?M = "{m \<in> set (driver_closure PS2_DRIVER_REQ_IOPIP). CHECK_IRX_LOAD (slots s m)}"
  have "x \<in> may_load ?M ?M s" if "x \<in> set (driver_closure PS2_DRIVER_REQ_IOPIP)" for x
    using that by (auto simp: may_load_def)
  then have "ran env ?M ?M s (deinit_network_IOP_driver env b s)"
    unfolding deinit_network_IOP_driver_def by (intro init_iopip_ran) (auto simp del: mem_Collect_eq)
  moreover have "m \<notin> ?M"
    using assms by (auto simp: slot_defs)
  ultimately show ?thesis
    unfolding ran_def by blast
qed

lemma init_network_loaded:
  fixes sif :: "'i sif_exec"
  assumes env: "iop_loads sif" "libraries_work ans" and s: "\<forall>m. slots s m = reset_slot"
  shows "\<exists>t. init_network_driver (linked_env sif linked ans cfg) True s = (EEIP_INIT_STATUS_OK, t) \<and>
      (\<forall>m. CHECK_IRX_UNLOAD (slots t m) \<longleftrightarrow> m \<in> {PS2DEV9, NETMAN, SMAP})"
    and "\<exists>t. init_network_IOP_driver (linked_env sif linked ans cfg) True s = (IOPIP_INIT_STATUS_OK, t) \<and>
      (\<forall>m. CHECK_IRX_UNLOAD (slots t m) \<longleftrightarrow> m \<in> {PS2DEV9, NETMAN, SMAP, PS2IP_NM, PS2IPS})"
proof -
  let ?works = "\<lambda>f ms st. works (\<lambda>p. True) (\<lambda>p m. Some (linked_bytes linked m)) f ms st"
  have no: "\<not> CHECK_IRX_UNLOAD reset_slot"
    by (simp add: slot_defs)
  have loaded: "\<exists>t. f s = (st, t) \<and> (\<forall>m. CHECK_IRX_UNLOAD (slots t m) \<longleftrightarrow> m \<in> set ms)"
    if works: "?works f ms st" and ms: "distinct ms" for f :: "'i drv \<Rightarrow> 'st \<times> 'i drv" and ms st
  proof -
    have "free_slots (\<lambda>p. True) (\<lambda>p m. Some (linked_bytes linked m)) ms s"
      using s ms by (simp add: free_slots_def)
    then obtain t where "f s = (st, t)" "did (\<lambda>p. True) (\<lambda>p m. Some (linked_bytes linked m)) ms s t"
      using works unfolding works_def by blast
    then show ?thesis
      using s no by (auto simp: did_def)
  qed
  show "\<exists>t. init_network_driver (linked_env sif linked ans cfg) True s = (EEIP_INIT_STATUS_OK, t) \<and>
      (\<forall>m. CHECK_IRX_UNLOAD (slots t m) \<longleftrightarrow> m \<in> {PS2DEV9, NETMAN, SMAP})"
    using loaded [OF linked_works.init_eeip_works [of linked sif ans cfg]]
    unfolding iop_loads_resident [OF env(1)] libraries_work_accepting [OF env(2)]
    by (simp add: init_network_driver_def)
  show "\<exists>t. init_network_IOP_driver (linked_env sif linked ans cfg) True s = (IOPIP_INIT_STATUS_OK, t) \<and>
      (\<forall>m. CHECK_IRX_UNLOAD (slots t m) \<longleftrightarrow> m \<in> {PS2DEV9, NETMAN, SMAP, PS2IP_NM, PS2IPS})"
    using loaded [OF linked_works.init_iopip_works [of linked sif ans cfg]]
    unfolding iop_loads_resident [OF env(1)] libraries_work_accepting [OF env(2)]
    by (simp add: init_network_IOP_driver_def)
qed

lemma configure_slots:
  "slots (snd (configure_eeip_network k env (Some c) s)) = slots s"
  "slots (snd (configure_iopip_network k env (Some d) s)) = slots s"
proof -
  obtain st t where "configure_eeip_network k env (Some c) s = (st, t)" by fastforce
  moreover from this have "slots t = slots s"
    by (rule configure_eeip_result) (simp add: reported_def)
  ultimately show "slots (snd (configure_eeip_network k env (Some c) s)) = slots s"
    by simp
  obtain st t where "configure_iopip_network k env (Some d) s = (st, t)" by fastforce
  moreover from this have "slots t = slots s"
    by (rule configure_iopip_result) (simp add: reported_def)
  ultimately show "slots (snd (configure_iopip_network k env (Some d) s)) = slots s"
    by simp
qed

text \<open>
  The samples as seen from the slots: everything loaded, then released as far as the code does.
\<close>

lemma network_samples_fail:
  fixes sif :: "'i sif_exec"
  assumes env: "iop_loads sif" "libraries_work ans" and s: "\<forall>m. slots s m = reset_slot"
  shows "network_ee_sample_main k (linked_env sif linked ans cfg) reboot c s = Some (-1, t) \<Longrightarrow>
      \<not> CHECK_IRX_UNLOAD (slots t m)"
    and "network_iop_sample_main k mk (linked_env sif linked ans cfg) reboot d s = Some (-1, t) \<Longrightarrow>
      CHECK_IRX_UNLOAD (slots t m) \<longleftrightarrow> m \<in> {PS2DEV9, NETMAN, SMAP, PS2IP_NM, PS2IPS}"
proof -
  let ?env = "linked_env sif linked ans cfg"
  have works: "libraries_work (answer ?env)"
    using env(2) by (simp add: linked_env_def)
  obtain s1 where s1: "reset_iop ?env reboot s = Some s1"
    using reset_iop_returns [OF works] by blast
  then have reset: "\<forall>m. slots s1 m = reset_slot"
    using reset_iop_effect [OF s1] s by (simp add: silent_def)
  have no: "\<not> CHECK_IRX_UNLOAD reset_slot"
    by (simp add: slot_defs)
  show "\<not> CHECK_IRX_UNLOAD (slots t m)"
    if run: "network_ee_sample_main k ?env reboot c s = Some (-1, t)"
  proof -
    obtain s2 where s2: "init_network_driver ?env True s1 = (EEIP_INIT_STATUS_OK, s2)"
        "\<forall>m. CHECK_IRX_UNLOAD (slots s2 m) \<longleftrightarrow> m \<in> {PS2DEV9, NETMAN, SMAP}"
      using init_network_loaded(1) [OF env reset] by blast
    obtain cfg1 where cfg1: "map_option (\<lambda>c. c\<lparr>on_progress := True\<rparr>) (eeip_network_config_default_dhcp k (Some c)) = Some cfg1"
      by (simp add: eeip_network_config_default_dhcp_def)
    obtain rc s3 where s3: "configure_eeip_network k ?env (Some cfg1) s2 = (rc, s3)"
      by fastforce
    have main: "network_ee_sample_main k ?env reboot c s =
        (if rc \<noteq> EEIP_NET_STATUS_OK
         then map_option (\<lambda>s4. (-1, snd (lib ?env SleepThread s4))) (deinit_network_driver ?env True s3)
         else Some (0, snd (lib ?env SleepThread (snd (eeip_get_current_config ?env True True True s3)))))"
      by (simp only: network_ee_sample_main_def s1 s2(1) cfg1 s3 option.case prod.case Let_def simp_thms if_False)
    obtain s4 where s4: "deinit_network_driver ?env True s3 = Some s4" "slots t = slots s4"
      using run main by (auto split: if_splits)
    have "slots s3 = slots s2"
      using configure_slots(1) [of k ?env cfg1 s2] s3 by simp
    moreover have "deinit_requirement ?env PS2_DRIVER_REQ_EEIP s3 = Some s4"
      using s4(1) by (simp add: deinit_network_driver_def)
    ultimately have "slots s4 m = (if m \<in> {PS2DEV9, NETMAN, SMAP} then reset_slot else slots s2 m)"
      using deinit_requirement_slots [of ?env PS2_DRIVER_REQ_EEIP s3 s4 m] s2(2) by auto
    then show ?thesis
      using s2(2) s4(2) no by (auto split: if_splits)
  qed
  show "CHECK_IRX_UNLOAD (slots t m) \<longleftrightarrow> m \<in> {PS2DEV9, NETMAN, SMAP, PS2IP_NM, PS2IPS}"
    if run: "network_iop_sample_main k mk ?env reboot d s = Some (-1, t)"
  proof -
    obtain s2 where s2: "init_network_IOP_driver ?env True s1 = (IOPIP_INIT_STATUS_OK, s2)"
        "\<forall>m. CHECK_IRX_UNLOAD (slots s2 m) \<longleftrightarrow> m \<in> {PS2DEV9, NETMAN, SMAP, PS2IP_NM, PS2IPS}"
      using init_network_loaded(2) [OF env reset] by blast
    obtain cfg1 where cfg1: "map_option (\<lambda>c. c\<lparr>iop_on_progress := True, iop_ip := mk 192 168 1 10,
          iop_netmask := mk 255 255 255 0, iop_gateway := mk 192 168 1 1\<rparr>)
          (iopip_network_config_default k (Some d)) = Some cfg1"
      by (simp add: iopip_network_config_default_def)
    obtain rc s3 where s3: "configure_iopip_network k ?env (Some cfg1) s2 = (rc, s3)"
      by fastforce
    have main: "network_iop_sample_main k mk ?env reboot d s =
        (if rc \<noteq> IOPIP_NET_STATUS_OK
         then Some (-1, snd (lib ?env SleepThread (deinit_network_IOP_driver ?env True s3)))
         else Some (0, snd (lib ?env SleepThread (snd (iopip_get_current_config ?env True True True s3)))))"
      by (simp only: network_iop_sample_main_def s1 s2(1) cfg1 s3 option.case prod.case Let_def simp_thms if_False)
    have t: "slots t = slots (deinit_network_IOP_driver ?env True s3)"
      using run main by (auto split: if_splits)
    have same: "slots s3 = slots s2"
      using configure_slots(2) [of k ?env cfg1 s2] s3 by simp
    have "set (driver_closure PS2_DRIVER_REQ_IOPIP) = {PS2DEV9, NETMAN, SMAP, PS2IP_NM, PS2IPS}"
      by simp
    then have "CHECK_IRX_UNLOAD (slots s3 m) \<or> m \<notin> set (driver_closure PS2_DRIVER_REQ_IOPIP)"
      using s2(2) same by metis
    from network_IOP_wrapper_keeps [OF this] show ?thesis
      using s2(2) same t by simp
  qed
qed

subsection \<open>What a successful run of the image sample proves\<close>

text \<open>Whatever the environment answers, the remembered source outlives the executions.\<close>

lemma exec_list_remembered:
  "img_inv (fst p) \<Longrightarrow> remembered (fst (snd (exec_list (image_exec sif) ms p))) = remembered (fst p)"
proof (induction ms arbitrary: p)
  case Nil
  then show ?case by simp
next
  case (Cons x ms)
  obtain m a s i where x: "x = (m, a)" "p = (s, i)"
    by (cases x; cases p) blast
  have inv: "img_inv s"
    using Cons.prems x by simp
  let ?q = "snd (image_exec sif m a p)"
  have "img_inv (fst ?q) \<and> remembered (fst ?q) = remembered s"
    using release_staged_result [OF inv, of "irx_id m"] inv
    by (auto simp: x image_exec_result [OF inv] case_prod_unfold Let_def split: option.split)
  with Cons.IH [of ?q] show ?case
    by (simp add: x case_prod_unfold Let_def)
qed

text \<open>
  An initialisation that empties a store executed everything the store held.
\<close>

lemma emptied_executes:
  assumes "ran (image_env sif ans cfg) UNIV UNIV s t" "img_inv (fst (prov s))" "nothing_staged t"
  obtains es where "events t = events s @ es" "img_inv (fst (prov t))"
    "remembered (fst (prov t)) = remembered (fst (prov s))"
    "\<forall>m. staged_map (fst (prov s)) (irx_id m) \<noteq> None \<longrightarrow> m \<in> fst ` set (execs es)"
proof -
  obtain es where es: "events t = events s @ es" "prov t = snd (exec_list (image_exec sif) (execs es) (prov s))"
    using assms(1) by (auto simp: ran_def image_env_def)
  have inv: "img_inv (fst (prov t))"
    by (rule image_ran(1) [OF assms(1,2)])
  have "finite (dom (staged_map (fst (prov t))))"
    using inv by (auto simp: staged_map_ok finite_dom_map_of elim!: img_invE)
  then have "staged_map (fst (prov t)) = Map.empty"
    using assms(3) staged_modules_card(1) [OF inv] by (simp add: nothing_staged_def)
  then have "\<forall>m. staged_map (fst (prov s)) (irx_id m) \<noteq> None \<longrightarrow> m \<in> fst ` set (execs es)"
    using ran_consumes [OF assms(1,2) es(1)] by metis
  with that [OF es(1) inv] show thesis
    using es(2) exec_list_remembered [OF assms(2), of sif "execs es"] by simp
qed

lemma effect_joystick:
  assumes "stage_effect path joystick_req s PS2_DRIVERS_IMG_OK t"
  shows "img_inv t" "remembered t = Some (the path, joystick_req)"
    "m \<in> {SIO2MAN, MTAPMAN, PADMAN} \<Longrightarrow> staged_map t (irx_id m) \<noteq> None"
proof -
  obtain ps where ps: "img_inv t" "stage_outcome (staged_map s) (files s) path joystick_req = Inr ps"
      "staged_map t = map_of ps" "remembered t = Some (the path, joystick_req)"
    using assms by (auto simp: stage_effect_def)
  then obtain img where "stage_spec img joystick_req = Inr ps"
    by (auto simp: stage_outcome_def split: if_splits option.splits)
  from stage_spec_ids(1) [OF this] set_requested_ids [of joystick_req]
  have "dom (staged_map t) = irx_id ` {SIO2MAN, MTAPMAN, PADMAN}"
    using ps(3) by (metis dom_map_of_conv_image_fst list.set_map required_modules_mask driver_closure.simps(11) list.set(1,2))
  then show "m \<in> {SIO2MAN, MTAPMAN, PADMAN} \<Longrightarrow> staged_map t (irx_id m) \<noteq> None"
    by (metis domIff image_eqI)
  show "img_inv t" "remembered t = Some (the path, joystick_req)"
    using ps by simp_all
qed

lemma init_joystick_ran_all: "init_joystick_driver env True s = (st, t) \<Longrightarrow> ran env UNIV UNIV s t"
  using init_joystick_ran [of env UNIV UNIV s s True] by (simp add: may_load_def)

lemma deinit_joystick_quiet:
  "prov (deinit_joystick_driver env True s) = prov s \<and>
    (\<exists>es. events (deinit_joystick_driver env True s) = events s @ es)"
proof -
  have "ran env {} UNIV s (deinit_joystick_driver env True s)"
    by (auto simp: sample_deinit_defs Let_def intro!: ran_rules)
  then show ?thesis
    by (auto simp: ran_def)
qed

lemma irximg_sample_zero:
  fixes sif :: "'i sif_exec"
  assumes run: "irximg_sample_main (image_env sif ans cfg) reboot argv s = Some (0, u)" and inv: "img_inv (fst (prov s))"
  obtains es1 es2 where "events u = events s @ es1 @ es2" "{SIO2MAN, MTAPMAN, PADMAN} \<subseteq> fst ` set (execs es1)"
    "{SIO2MAN, MTAPMAN, PADMAN} \<subseteq> fst ` set (execs es2)"
proof -
  let ?env = "image_env sif ans cfg" and ?ms = "{SIO2MAN, MTAPMAN, PADMAN}"
  define path where "path = (if length argv > 1 then argv ! 1 else PS2_DRIVERS_IMG_DEFAULT_PATH)"
  define s0 where "s0 = snd (lib ?env SifInitRpc s)"
  have stage: "(if length argv > 1 then ps2_drivers_img_stage (Some (argv ! 1)) joystick_req
      else ps2_drivers_img_stage_default joystick_req) = ps2_drivers_img_stage (Some path) joystick_req"
    by (simp add: path_def fun_eq_iff ps2_drivers_img_stage_default_def)
  obtain p1 s2 s3 r4 s4 s5 where
      p1: "ps2_drivers_img_stage (Some path) joystick_req (fst (prov s)) = (PS2_DRIVERS_IMG_OK, p1)"
    and s2: "reset_iop ?env (apsnd reboot) (s0\<lparr>prov := (p1, snd (prov s))\<rparr>) = Some s2"
    and s3: "init_joystick_driver ?env True s2 = (JOYSTICK_INIT_STATUS_OK, s3)" "nothing_staged s3"
    and s4: "on_images ps2_drivers_img_restage_last (deinit_joystick_driver ?env True s3) = (PS2_DRIVERS_IMG_OK, s4)"
    and s5: "init_joystick_driver ?env True s4 = (JOYSTICK_INIT_STATUS_OK, s5)" "nothing_staged s5"
    and u: "u = snd (on_images (\<lambda>p. ((), ps2_drivers_img_forget_source p)) s5)"
    using run unfolding irximg_sample_main_def stage s0_def
    by (auto simp: on_images_def split_beta Let_def prod_eq_iff split: if_splits option.splits)
  note e1 = effect_joystick [OF stage_result [OF p1 inv]]
  have "silent s s2" and p2: "fst (prov s2) = p1"
    using reset_iop_effect [OF s2] by (auto simp: s0_def silent_def lib_def Let_def)
  then obtain es0 where es0: "events s2 = events s @ es0"
    by (auto simp: silent_def)
  have inv2: "img_inv (fst (prov s2))"
    using e1(1) p2 by simp
  obtain es1 where es1: "events s3 = events s2 @ es1" "img_inv (fst (prov s3))"
      "remembered (fst (prov s3)) = remembered (fst (prov s2))"
      "\<forall>m. staged_map (fst (prov s2)) (irx_id m) \<noteq> None \<longrightarrow> m \<in> fst ` set (execs es1)"
    using emptied_executes [OF init_joystick_ran_all [OF s3(1)] inv2 s3(2)] .
  obtain es2 where es2: "events (deinit_joystick_driver ?env True s3) = events s3 @ es2"
      "prov (deinit_joystick_driver ?env True s3) = prov s3"
    using deinit_joystick_quiet by blast
  obtain p4 where p4: "ps2_drivers_img_restage_last (fst (prov s3)) = (PS2_DRIVERS_IMG_OK, p4)"
      "fst (prov s4) = p4" "events s4 = events s3 @ es2"
    using s4 es2 by (auto simp: on_images_def split_beta Let_def prod_eq_iff)
  have "remembered (fst (prov s3)) = Some (path, joystick_req)"
    using es1(3) e1(2) p2 by simp
  note e4 = effect_joystick [OF restage_last_result [OF p4(1) es1(2) this]]
  have inv4: "img_inv (fst (prov s4))"
    using e4(1) p4(2) by simp
  obtain es3 where es3: "events s5 = events s4 @ es3"
      "\<forall>m. staged_map (fst (prov s4)) (irx_id m) \<noteq> None \<longrightarrow> m \<in> fst ` set (execs es3)"
    using emptied_executes [OF init_joystick_ran_all [OF s5(1)] inv4 s5(2)] .
  have all1: "m \<in> fst ` set (execs es1)" if "m \<in> ?ms" for m
    using e1(3) [OF that] es1(4) p2 by blast
  have all2: "m \<in> fst ` set (execs es3)" if "m \<in> ?ms" for m
    using e4(3) [OF that] es3(2) p4(2) by blast
  show thesis
  proof (rule that)
    show "events u = events s @ (es0 @ es1) @ (es2 @ es3)"
      using es0 es1(1) p4(3) es3(1) by (simp add: u on_images_def split_beta Let_def)
    show "?ms \<subseteq> fst ` set (execs (es0 @ es1))"
      using all1 unfolding execs_append set_append image_Un by blast
    show "?ms \<subseteq> fst ` set (execs (es2 @ es3))"
      using all2 unfolding execs_append set_append image_Un by blast
  qed
qed

text \<open>With the cable unplugged every configuration fails.\<close>

lemma wait_tries_never:
  "(\<And>s. \<not> fst (check s)) \<Longrightarrow> fst (wait_tries env check n s) = -1"
  by (induction n arbitrary: s) (simp_all add: split_beta Let_def)

lemma link_down_fails:
  assumes "\<And>es. answer env es NetManGetLinkStatus \<noteq> LINK_STATE_UP k"
  shows "fst (configure_eeip_network k env (Some c) s) \<noteq> EEIP_NET_STATUS_OK"
    and "fst (configure_iopip_network k env (Some d) s) \<noteq> IOPIP_NET_STATUS_OK"
proof -
  have "\<not> fst (link_is_up k env t)" for t
    using assms by (simp add: link_is_up_def lib_def Let_def)
  then have down: "fst (wait_until env (link_is_up k env) n t) = -1" for n t
    by (simp add: wait_until_def wait_tries_never)
  show "fst (configure_eeip_network k env (Some c) s) \<noteq> EEIP_NET_STATUS_OK"
    using down by (simp add: configure_eeip_network_def split_beta Let_def)
  show "fst (configure_iopip_network k env (Some d) s) \<noteq> IOPIP_NET_STATUS_OK"
    using down by (simp add: configure_iopip_network_def split_beta Let_def)
qed

lemma network_samples_end:
  fixes sif :: "'i sif_exec"
  assumes env: "iop_loads sif" "libraries_work ans" and s: "\<forall>m. slots s m = reset_slot"
    and down: "\<And>es. ans es NetManGetLinkStatus \<noteq> LINK_STATE_UP k"
  shows "\<exists>t. network_ee_sample_main k (linked_env sif linked ans cfg) reboot c s = Some (-1, t)"
    and "\<exists>t. network_iop_sample_main k mk (linked_env sif linked ans cfg) reboot d s = Some (-1, t)"
proof -
  let ?env = "linked_env sif linked ans cfg"
  have works: "libraries_work (answer ?env)"
    using env(2) by (simp add: linked_env_def)
  have fails: "fst (configure_eeip_network k ?env (Some c) s) \<noteq> EEIP_NET_STATUS_OK"
      "fst (configure_iopip_network k ?env (Some d) s) \<noteq> IOPIP_NET_STATUS_OK" for c d s
    using down by (intro link_down_fails; simp add: linked_env_def)+
  obtain s1 where s1: "reset_iop ?env reboot s = Some s1"
    using reset_iop_returns [OF works] by blast
  have reset: "\<forall>m. slots s1 m = reset_slot"
    using reset_iop_effect [OF s1] s by (simp add: silent_def)
  obtain s2 where s2: "init_network_driver ?env True s1 = (EEIP_INIT_STATUS_OK, s2)"
    using init_network_loaded(1) [OF env reset] by blast
  obtain s3 where s3: "init_network_IOP_driver ?env True s1 = (IOPIP_INIT_STATUS_OK, s3)"
    using init_network_loaded(2) [OF env reset] by blast
  have "deinit_network_driver ?env True t \<noteq> None" for t
    using deinit_requirement_returns [OF works, of PS2_DRIVER_REQ_EEIP t]
    by (simp add: deinit_network_driver_def)
  then show "\<exists>t. network_ee_sample_main k ?env reboot c s = Some (-1, t)"
    using s1 s2 fails(1)
    by (auto simp: network_ee_sample_main_def eeip_network_config_default_dhcp_def split_beta Let_def)
  show "\<exists>t. network_iop_sample_main k mk ?env reboot d s = Some (-1, t)"
    using s1 s3 fails(2)
    by (simp add: network_iop_sample_main_def iopip_network_config_default_def split_beta Let_def)
qed

end
