(* ===== verification/Decimal_Text.thy ===== *)
theory Decimal_Text
  imports Image_Tool
begin

text \<open>
  The decimal text of a number, as \<^verbatim>\<open>snprintf\<close> with \<^verbatim>\<open>%d\<close> and \<^verbatim>\<open>itoa\<close> with base 10 print it. The parser
  of the image tool reads it back, so different numbers have different texts.
\<close>

fun decimal :: "nat \<Rightarrow> string" where
  "decimal n = (if n < 10 then [char_of (48 + n)] else decimal (n div 10) @ [char_of (48 + n mod 10)])"

declare decimal.simps [simp del]

definition decimal_int :: "int \<Rightarrow> string" where
  "decimal_int i = (if i < 0 then CHR ''-'' # decimal (nat (- i)) else decimal (nat i))"

lemma decimal_small: "n < 10 \<Longrightarrow> decimal n = [char_of (48 + n)]"
  by (simp add: decimal.simps)

lemma decimal_large: "10 \<le> n \<Longrightarrow> decimal n = decimal (n div 10) @ [char_of (48 + n mod 10)]"
  by (subst decimal.simps) simp

lemma of_char_digit: "d < 10 \<Longrightarrow> of_char (char_of (48 + d) :: char) = (48 + d :: nat)"
  by (simp add: of_char_of)

lemma digits_value_decimal [simp]: "digits_value (decimal n) = n"
proof (induction n rule: decimal.induct)
  case (1 n)
  show ?case
  proof (cases "n < 10")
    case True
    then show ?thesis
      by (simp add: decimal_small digits_value_def of_char_digit del: char_of_nat)
  next
    case False
    with 1 have "digits_value (decimal (n div 10)) = n div 10"
      by simp
    with False show ?thesis
      by (simp add: decimal_large digits_value_def of_char_digit)
  qed
qed

lemma decimal_inject [simp]: "decimal m = decimal n \<longleftrightarrow> m = n"
  by (metis digits_value_decimal)

lemma decimal_digits: "c \<in> set (decimal n) \<Longrightarrow> is_digit c"
proof (induction n rule: decimal.induct)
  case (1 n)
  then show ?case
    by (subst (asm) (2) decimal.simps) (auto simp: is_digit_def of_char_digit split: if_splits)
qed

lemma length_decimal: "length (decimal n) \<le> Suc d \<longleftrightarrow> n < 10 ^ Suc d"
proof (induction d arbitrary: n)
  case 0
  have "decimal m \<noteq> []" for m
    by (subst decimal.simps) simp
  then show ?case
    by (subst decimal.simps) simp
next
  case (Suc d)
  show ?case
  proof (cases "n < 10")
    case True
    then have "n < 10 ^ Suc (Suc d)"
      by (rule less_le_trans) simp
    with True show ?thesis
      by (simp add: decimal_small)
  next
    case False
    have "length (decimal n) \<le> Suc (Suc d) \<longleftrightarrow> length (decimal (n div 10)) \<le> Suc d"
      using False by (simp add: decimal_large)
    also have "\<dots> \<longleftrightarrow> n div 10 < 10 ^ Suc d"
      by (rule Suc.IH)
    also have "\<dots> \<longleftrightarrow> n < 10 ^ Suc (Suc d)"
      by (subst div_less_iff_less_mult) (simp_all add: mult.commute)
    finally show ?thesis .
  qed
qed

end
