(* ===== verification/Socket_Samples.thy ===== *)
theory Socket_Samples
  imports Sample_Programs Decimal_Text
begin

text \<open>
  The socket programs of src/samples: the bursts of datagrams and of connections, the echo server
  and the two that call \<^verbatim>\<open>select\<close> on an idle listener. The IP stacks are not in the repository: what a
  call answers, and what it writes into its buffer, is a parameter that may depend on everything
  that was called before. Console output is left out, but for the summary of a burst.
\<close>

subsection \<open>The stack\<close>

type_synonym u16 = "16 word"

datatype sock_type = SOCK_STREAM | SOCK_DGRAM

text \<open>Of family \<^verbatim>\<open>AF_INET\<close>, in network order.\<close>

record sockaddr_in =
  sin_port :: u16
  sin_addr :: u32

datatype net_call =
    Socket sock_type
  | Bind int sockaddr_in
  | Listen int nat
  | Accept int
  | Connect int sockaddr_in
  | Sendto int "u8 list" sockaddr_in
  | Send int "u8 list"
  | Select int "int set" "int set" "int set" nat
  | Recvfrom int nat
  | Recv int nat
  | Close int
  | DelayThread nat

text \<open>A call, its result, and what it wrote into the buffer it was given.\<close>

datatype net_event = Net net_call int "u8 list"

record net_stack =
  reply :: "net_event list \<Rightarrow> net_call \<Rightarrow> int"
  filled :: "net_event list \<Rightarrow> net_call \<Rightarrow> u8 list"
  fdsets :: "net_event list \<Rightarrow> net_call \<Rightarrow> int set \<times> int set \<times> int set"
  inet_addr :: "string \<Rightarrow> u32"

definition sys :: "net_stack \<Rightarrow> net_call \<Rightarrow> net_event list \<Rightarrow> int \<times> u8 list \<times> net_event list" where
  "sys stk c es = (reply stk es c, filled stk es c, es @ [Net c (reply stk es c) (filled stk es c)])"

text \<open>A buffer after bytes were written to its start; \<^verbatim>\<open>htons\<close> on a little-endian processor.\<close>

definition overlay :: "u8 list \<Rightarrow> u8 list \<Rightarrow> u8 list" where
  "overlay bs buf = bs @ drop (length bs) buf"

definition htons :: "u16 \<Rightarrow> u16" where
  "htons p = push_bit 8 p OR drop_bit 8 p"

definition INADDR_ANY :: u32 where "INADDR_ANY = 0"

subsection \<open>Bringing the network up\<close>

text \<open>
  The start the programs share, and the one of the program on the I/O processor's stack: \<open>Inl\<close>
  is a failure, after which the program sleeps and returns -1. No one releases the driver.
\<close>

definition asleep :: "'p drv_env \<Rightarrow> 'p drv \<Rightarrow> 'p drv" where
  "asleep env s = snd (lib env SleepThread s)"

definition network_up ::
  "net_numbers \<Rightarrow> 'p drv_env \<Rightarrow> ('p \<Rightarrow> 'p) \<Rightarrow> eeip_network_config \<Rightarrow> 'p drv \<Rightarrow> ('p drv + 'p drv) option" where
  "network_up k env reboot cfg s =
     (case reset_iop env reboot s of
        None \<Rightarrow> None
      | Some s1 \<Rightarrow>
          let (st, s2) = init_network_driver env True s1 in
          if st \<noteq> EEIP_INIT_STATUS_OK then Some (Inl (asleep env s2))
          else
          let cfg1 = map_option (\<lambda>c. c\<lparr>on_progress := True, timeout_seconds := 30\<rparr>)
                (eeip_network_config_default_dhcp k (Some cfg));
              (rc, s3) = configure_eeip_network k env cfg1 s2 in
          if rc \<noteq> EEIP_NET_STATUS_OK then Some (Inl (asleep env s3)) else Some (Inr s3))"

definition network_up_iop ::
  "net_numbers \<Rightarrow> (u8 \<Rightarrow> u8 \<Rightarrow> u8 \<Rightarrow> u8 \<Rightarrow> u32) \<Rightarrow> 'p drv_env \<Rightarrow> ('p \<Rightarrow> 'p) \<Rightarrow> iopip_network_config \<Rightarrow>
   'p drv \<Rightarrow> ('p drv + 'p drv) option" where
  "network_up_iop k IOPIP_ADDR env reboot cfg s =
     (case reset_iop env reboot s of
        None \<Rightarrow> None
      | Some s1 \<Rightarrow>
          let (st, s2) = init_network_IOP_driver env True s1 in
          if st \<noteq> IOPIP_INIT_STATUS_OK then Some (Inl (asleep env s2))
          else
          let cfg1 = map_option (\<lambda>c. c\<lparr>iop_ip := IOPIP_ADDR 192 168 31 131,
                iop_netmask := IOPIP_ADDR 255 255 255 0, iop_gateway := IOPIP_ADDR 192 168 31 1,
                iop_on_progress := True, iop_timeout_seconds := 30\<rparr>)
                (iopip_network_config_default k (Some cfg));
              (rc, s3) = configure_iopip_network k env cfg1 s2 in
          if rc \<noteq> IOPIP_NET_STATUS_OK then Some (Inl (asleep env s3)) else Some (Inr s3))"

subsection \<open>Bursts\<close>

text \<open>
  Both burst programs count in the same way: an attempt for each number, which is good or not,
  the number of good and of bad ones, and the first bad one.
\<close>

record 'st burst =
  burst_ok :: int
  burst_fail :: int
  burst_first_fail :: int
  burst_state :: 'st

definition burst_iter :: "(nat \<Rightarrow> 'st \<Rightarrow> bool \<times> 'st) \<Rightarrow> nat \<Rightarrow> 'st burst \<Rightarrow> 'st burst" where
  "burst_iter attempt i b =
     (let (good, st) = attempt i (burst_state b);
          b1 = b\<lparr>burst_state := st\<rparr> in
      if good then b1\<lparr>burst_ok := burst_ok b + 1\<rparr>
      else b1\<lparr>burst_fail := burst_fail b + 1,
              burst_first_fail := if burst_first_fail b < 0 then int i else burst_first_fail b\<rparr>)"

definition burst_loop :: "(nat \<Rightarrow> 'st \<Rightarrow> bool \<times> 'st) \<Rightarrow> nat \<Rightarrow> 'st \<Rightarrow> 'st burst" where
  "burst_loop attempt n st =
     fold (burst_iter attempt) [1..<Suc n]
       \<lparr>burst_ok = 0, burst_fail = 0, burst_first_fail = -1, burst_state = st\<rparr>"

text \<open>The summary line: ok, fail and first fail.\<close>

definition burst_summary :: "'st burst \<Rightarrow> int \<times> int \<times> int" where
  "burst_summary b = (burst_ok b, burst_fail b, burst_first_fail b)"

text \<open>What a program that bursts ends with: its result, the drivers, the calls, the summary.\<close>

record 'p net_end =
  net_result :: int
  net_drivers :: "'p drv"
  net_calls :: "net_event list"
  net_summary :: "(int \<times> int \<times> int) option"

definition gave_up :: "'p drv \<Rightarrow> net_event list \<Rightarrow> 'p net_end" where
  "gave_up s es = \<lparr>net_result = -1, net_drivers = s, net_calls = es, net_summary = None\<rparr>"

definition TARGET_IP_STR :: string where "TARGET_IP_STR = ''192.168.31.233''"
definition TARGET_PORT :: u16 where "TARGET_PORT = 7777"

definition target_addr :: "net_stack \<Rightarrow> sockaddr_in" where
  "target_addr stk = \<lparr>sin_port = htons TARGET_PORT, sin_addr = inet_addr stk TARGET_IP_STR\<rparr>"

subsection \<open>Datagrams\<close>

text \<open>
  src/samples/udp_echo_server_ee, which is the client. The 80 bytes of \<^verbatim>\<open>tx\<close> that are sent; an
  attempt keeps the receive buffer of 256 bytes and the calls.
\<close>

definition UDP_BURST_N :: nat where "UDP_BURST_N = 100"
definition INTER_PACKET_US :: nat where "INTER_PACKET_US = 50 * 1000"
definition UDP_RECV_TIMEOUT_S :: nat where "UDP_RECV_TIMEOUT_S = 2"

definition ping_text :: "nat \<Rightarrow> u8 list" where
  "ping_text i = map of_char (''ping #'' @ decimal i)"

definition udp_tx :: "nat \<Rightarrow> u8 list" where
  "udp_tx i = ping_text i @ replicate (80 - length (ping_text i)) 65"

definition udp_attempt ::
  "net_stack \<Rightarrow> int \<Rightarrow> sockaddr_in \<Rightarrow> nat \<Rightarrow> u8 list \<times> net_event list \<Rightarrow> bool \<times> u8 list \<times> net_event list" where
  "udp_attempt stk s target i st =
     (let (rx, es) = st;
          tx = udp_tx i;
          (sent, _, es1) = sys stk (Sendto s tx target) es in
      if sent < 0 then (False, rx, es1)
      else
      let (sr, _, es2) = sys stk (Select (s + 1) {s} {} {} UDP_RECV_TIMEOUT_S) es1 in
      if sr \<le> 0 then (False, rx, es2)
      else
      let (n, bs, es3) = sys stk (Recvfrom s 255) es2;
          rx1 = overlay bs rx in
      if n < 0 then (False, rx1, es3)
      else
      let rx2 = rx1[nat n := 0]
      in (n = 80 \<and> take 80 tx = take 80 rx2, rx2, es3))"

definition udp_iter ::
  "net_stack \<Rightarrow> int \<Rightarrow> sockaddr_in \<Rightarrow> nat \<Rightarrow> u8 list \<times> net_event list \<Rightarrow> bool \<times> u8 list \<times> net_event list" where
  "udp_iter stk s target i st =
     (let (good, rx, es) = udp_attempt stk s target i st
      in (good, rx, snd (snd (sys stk (DelayThread INTER_PACKET_US) es))))"

definition udp_echo_server_ee_main ::
  "net_stack \<Rightarrow> net_numbers \<Rightarrow> 'p drv_env \<Rightarrow> ('p \<Rightarrow> 'p) \<Rightarrow> eeip_network_config \<Rightarrow> u8 list \<Rightarrow> 'p drv \<Rightarrow>
   'p net_end option" where
  "udp_echo_server_ee_main stk k env reboot cfg rx d =
     (case network_up k env reboot cfg d of
        None \<Rightarrow> None
      | Some (Inl d1) \<Rightarrow> Some (gave_up d1 [])
      | Some (Inr d1) \<Rightarrow>
          let ((rc, _), d2) = eeip_get_current_config env True True True d1 in
          if rc \<noteq> 0 then Some (gave_up (asleep env d2) [])
          else
          let (s, _, es1) = sys stk (Socket SOCK_DGRAM) [] in
          if s < 0 then Some (gave_up (asleep env d2) es1)
          else
          let es2 = snd (snd (sys stk (DelayThread (10 * 1000 * 1000)) es1));
              b = burst_loop (udp_iter stk s (target_addr stk)) UDP_BURST_N (rx, es2);
              es3 = snd (snd (sys stk (Close s) (snd (burst_state b))))
          in Some \<lparr>net_result = 0, net_drivers = asleep env d2, net_calls = es3,
                   net_summary = Some (burst_summary b)\<rparr>)"

subsection \<open>Connections\<close>

text \<open>src/samples/tcp_burst_client_ee: an attempt keeps the buffer of 128 bytes and the calls.\<close>

definition TCP_BURST_N :: nat where "TCP_BURST_N = 20"
definition INTER_CONN_US :: nat where "INTER_CONN_US = 200 * 1000"
definition TCP_RECV_TIMEOUT_S :: nat where "TCP_RECV_TIMEOUT_S = 3"

definition do_one ::
  "net_stack \<Rightarrow> sockaddr_in \<Rightarrow> nat \<Rightarrow> u8 list \<times> net_event list \<Rightarrow> bool \<times> u8 list \<times> net_event list" where
  "do_one stk target i st =
     (let (buf, es) = st;
          (s, _, es1) = sys stk (Socket SOCK_STREAM) es in
      if s < 0 then (False, buf, es1)
      else
      let closed = (\<lambda>es. snd (snd (sys stk (Close s) es)));
          buf1 = overlay (ping_text i @ [0]) buf;
          (r, _, es2) = sys stk (Connect s target) es1 in
      if r < 0 then (False, buf1, closed es2)
      else
      let (r, _, es3) = sys stk (Send s (take (length (ping_text i)) buf1)) es2 in
      if r < 0 then (False, buf1, closed es3)
      else
      let (sr, _, es4) = sys stk (Select (s + 1) {s} {} {} TCP_RECV_TIMEOUT_S) es3 in
      if sr \<le> 0 then (False, buf1, closed es4)
      else
      let (n, bs, es5) = sys stk (Recv s 127) es4;
          buf2 = overlay bs buf1 in
      if n < 0 then (False, buf2, closed es5)
      else
      let buf3 = buf2[nat n := 0];
          (r, _, es6) = sys stk (Close s) es5
      in (\<not> r < 0, buf3, es6))"

definition tcp_iter ::
  "net_stack \<Rightarrow> sockaddr_in \<Rightarrow> nat \<Rightarrow> u8 list \<times> net_event list \<Rightarrow> bool \<times> u8 list \<times> net_event list" where
  "tcp_iter stk target i st =
     (let (good, buf, es) = do_one stk target i st
      in (good, buf, snd (snd (sys stk (DelayThread INTER_CONN_US) es))))"

definition tcp_burst_client_ee_main ::
  "net_stack \<Rightarrow> net_numbers \<Rightarrow> 'p drv_env \<Rightarrow> ('p \<Rightarrow> 'p) \<Rightarrow> eeip_network_config \<Rightarrow> u8 list \<Rightarrow> 'p drv \<Rightarrow>
   'p net_end option" where
  "tcp_burst_client_ee_main stk k env reboot cfg buf d =
     (case network_up k env reboot cfg d of
        None \<Rightarrow> None
      | Some (Inl d1) \<Rightarrow> Some (gave_up d1 [])
      | Some (Inr d1) \<Rightarrow>
          let ((rc, _), d2) = eeip_get_current_config env True False False d1 in
          if rc \<noteq> 0 then Some (gave_up (asleep env d2) [])
          else
          let es1 = snd (snd (sys stk (DelayThread (2 * 1000 * 1000)) []));
              b = burst_loop (tcp_iter stk (target_addr stk)) TCP_BURST_N (buf, es1)
          in Some \<lparr>net_result = 0, net_drivers = asleep env d2, net_calls = snd (burst_state b),
                   net_summary = Some (burst_summary b)\<rparr>)"

subsection \<open>The echo server\<close>

text \<open>
  src/samples/tcp_server_ee: up to the listening socket, one turn of its loop, and the loop,
  which has no exit. A server keeps its buffer of 256 bytes, the number it accepted, an \<^verbatim>\<open>int\<close> that
  wraps here (C leaves what comes after \<open>2 ^ 31 - 1\<close> undefined), and the calls. A failing or short \<^verbatim>\<open>send\<close>
  changes nothing but the console.
\<close>

definition ECHO_PORT :: u16 where "ECHO_PORT = 6789"

definition any_addr :: sockaddr_in where
  "any_addr = \<lparr>sin_port = htons ECHO_PORT, sin_addr = INADDR_ANY\<rparr>"

record server =
  srv_buf :: "u8 list"
  n_acc :: "32 word"
  srv_calls :: "net_event list"

text \<open>The descriptor that listens, or the calls made before a failure; \<open>tidy\<close> closes then.\<close>

definition open_listener ::
  "net_stack \<Rightarrow> bool \<Rightarrow> net_event list \<Rightarrow> (net_event list) + (int \<times> net_event list)" where
  "open_listener stk tidy es =
     (let (s, _, es1) = sys stk (Socket SOCK_STREAM) es in
      if s < 0 then Inl es1
      else
      let failed = (\<lambda>es. Inl (if tidy then snd (snd (sys stk (Close s) es)) else es));
          (r, _, es2) = sys stk (Bind s any_addr) es1 in
      if r < 0 then failed es2
      else
      let (r, _, es3) = sys stk (Listen s 5) es2 in
      if r < 0 then failed es3 else Inr (s, es3))"

definition serve_one :: "net_stack \<Rightarrow> int \<Rightarrow> server \<Rightarrow> server" where
  "serve_one stk s v =
     (let (c, _, es1) = sys stk (Accept s) (srv_calls v) in
      if c < 0 then v\<lparr>srv_calls := snd (snd (sys stk (DelayThread (500 * 1000)) es1))\<rparr>
      else
      let (n, bs, es2) = sys stk (Recv c 255) es1;
          buf = overlay bs (srv_buf v);
          es3 = (if n > 0 then snd (snd (sys stk (Send c (take (nat n) buf)) es2)) else es2);
          es4 = snd (snd (sys stk (Close c) es3))
      in \<lparr>srv_buf = buf, n_acc = n_acc v + 1, srv_calls = es4\<rparr>)"

partial_function (option) serve :: "net_stack \<Rightarrow> int \<Rightarrow> server \<Rightarrow> server option" where
  "serve stk s v = serve stk s (serve_one stk s v)"

definition tcp_server_ee_start ::
  "net_stack \<Rightarrow> net_numbers \<Rightarrow> 'p drv_env \<Rightarrow> ('p \<Rightarrow> 'p) \<Rightarrow> eeip_network_config \<Rightarrow> u8 list \<Rightarrow> 'p drv \<Rightarrow>
   ('p net_end + ('p drv \<times> int \<times> server)) option" where
  "tcp_server_ee_start stk k env reboot cfg buf d =
     (case network_up k env reboot cfg d of
        None \<Rightarrow> None
      | Some (Inl d1) \<Rightarrow> Some (Inl (gave_up d1 []))
      | Some (Inr d1) \<Rightarrow>
          let ((rc, _), d2) = eeip_get_current_config env True False False d1 in
          if rc \<noteq> 0 then Some (Inl (gave_up (asleep env d2) []))
          else
          case open_listener stk False [] of
            Inl es \<Rightarrow> Some (Inl (gave_up (asleep env d2) es))
          | Inr (s, es) \<Rightarrow> Some (Inr (d2, s, \<lparr>srv_buf = buf, n_acc = 0, srv_calls = es\<rparr>)))"

definition tcp_server_ee_main ::
  "net_stack \<Rightarrow> net_numbers \<Rightarrow> 'p drv_env \<Rightarrow> ('p \<Rightarrow> 'p) \<Rightarrow> eeip_network_config \<Rightarrow> u8 list \<Rightarrow> 'p drv \<Rightarrow>
   'p net_end option" where
  "tcp_server_ee_main stk k env reboot cfg buf d =
     (case tcp_server_ee_start stk k env reboot cfg buf d of
        None \<Rightarrow> None
      | Some (Inl e) \<Rightarrow> Some e
      | Some (Inr (d1, s, v)) \<Rightarrow>
          map_option (\<lambda>v. \<lparr>net_result = 0, net_drivers = d1, net_calls = srv_calls v, net_summary = None\<rparr>)
            (serve stk s v))"

subsection \<open>Polling a listener\<close>

text \<open>
  src/samples/select_test_ee and select_test_iop. A line of the output is the tick, the result
  of \<^verbatim>\<open>select\<close> and the bits of the listener in the three sets. The tick is an \<^verbatim>\<open>int\<close> that wraps here.
\<close>

record poller =
  tick :: "32 word"
  lines :: "(32 word \<times> int \<times> bool \<times> bool \<times> bool) list"
  poll_calls :: "net_event list"

definition poll_one :: "net_stack \<Rightarrow> int \<Rightarrow> poller \<Rightarrow> poller" where
  "poll_one stk s v =
     (let c = Select (s + 1) {s} {s} {s} 0;
          (rset, wset, eset) = fdsets stk (poll_calls v) c;
          (rc, _, es1) = sys stk c (poll_calls v);
          es2 = snd (snd (sys stk (DelayThread (1000 * 1000)) es1))
      in \<lparr>tick = tick v + 1, lines = lines v @ [(tick v, rc, s \<in> rset, s \<in> wset, s \<in> eset)],
          poll_calls = es2\<rparr>)"

partial_function (option) poll :: "net_stack \<Rightarrow> int \<Rightarrow> poller \<Rightarrow> poller option" where
  "poll stk s v = poll stk s (poll_one stk s v)"

text \<open>
  What both programs do from the socket on: up to the loop, and the loop; then the programs, up to
  the loop and whole.
\<close>

definition listener_start ::
  "net_stack \<Rightarrow> 'p drv_env \<Rightarrow> 'p drv \<Rightarrow> 'p net_end + ('p drv \<times> int \<times> poller)" where
  "listener_start stk env d =
     (case open_listener stk True [] of
        Inl es \<Rightarrow> Inl (gave_up (asleep env d) es)
      | Inr (s, es) \<Rightarrow> Inr (d, s, \<lparr>tick = 0, lines = [], poll_calls = es\<rparr>))"

definition listener_run ::
  "net_stack \<Rightarrow> 'p net_end + ('p drv \<times> int \<times> poller) \<Rightarrow> 'p net_end option" where
  "listener_run stk r =
     (case r of
        Inl e \<Rightarrow> Some e
      | Inr (d, s, v) \<Rightarrow>
          map_option (\<lambda>v. \<lparr>net_result = 0, net_drivers = d, net_calls = poll_calls v, net_summary = None\<rparr>)
            (poll stk s v))"

definition select_test_ee_start ::
  "net_stack \<Rightarrow> net_numbers \<Rightarrow> 'p drv_env \<Rightarrow> ('p \<Rightarrow> 'p) \<Rightarrow> eeip_network_config \<Rightarrow> 'p drv \<Rightarrow>
   ('p net_end + ('p drv \<times> int \<times> poller)) option" where
  "select_test_ee_start stk k env reboot cfg d =
     (case network_up k env reboot cfg d of
        None \<Rightarrow> None
      | Some (Inl d1) \<Rightarrow> Some (Inl (gave_up d1 []))
      | Some (Inr d1) \<Rightarrow>
          Some (listener_start stk env (snd (eeip_get_current_config env True False False d1))))"

definition select_test_ee_main ::
  "net_stack \<Rightarrow> net_numbers \<Rightarrow> 'p drv_env \<Rightarrow> ('p \<Rightarrow> 'p) \<Rightarrow> eeip_network_config \<Rightarrow> 'p drv \<Rightarrow> 'p net_end option" where
  "select_test_ee_main stk k env reboot cfg d =
     Option.bind (select_test_ee_start stk k env reboot cfg d) (listener_run stk)"

definition select_test_iop_start ::
  "net_stack \<Rightarrow> net_numbers \<Rightarrow> (u8 \<Rightarrow> u8 \<Rightarrow> u8 \<Rightarrow> u8 \<Rightarrow> u32) \<Rightarrow> 'p drv_env \<Rightarrow> ('p \<Rightarrow> 'p) \<Rightarrow>
   iopip_network_config \<Rightarrow> 'p drv \<Rightarrow> ('p net_end + ('p drv \<times> int \<times> poller)) option" where
  "select_test_iop_start stk k IOPIP_ADDR env reboot cfg d =
     (case network_up_iop k IOPIP_ADDR env reboot cfg d of
        None \<Rightarrow> None
      | Some (Inl d1) \<Rightarrow> Some (Inl (gave_up d1 []))
      | Some (Inr d1) \<Rightarrow>
          Some (listener_start stk env (snd (iopip_get_current_config env True False False d1))))"

definition select_test_iop_main ::
  "net_stack \<Rightarrow> net_numbers \<Rightarrow> (u8 \<Rightarrow> u8 \<Rightarrow> u8 \<Rightarrow> u8 \<Rightarrow> u32) \<Rightarrow> 'p drv_env \<Rightarrow> ('p \<Rightarrow> 'p) \<Rightarrow>
   iopip_network_config \<Rightarrow> 'p drv \<Rightarrow> 'p net_end option" where
  "select_test_iop_main stk k IOPIP_ADDR env reboot cfg d =
     Option.bind (select_test_iop_start stk k IOPIP_ADDR env reboot cfg d) (listener_run stk)"

subsection \<open>The network comes up\<close>

text \<open>The libraries of the network answer: the link is up, and the lease is there.\<close>

definition network_answers :: "net_numbers \<Rightarrow> (event list \<Rightarrow> lib_call \<Rightarrow> int) \<Rightarrow> (event list \<Rightarrow> ip_info) \<Rightarrow> bool" where
  "network_answers k ans cfg \<longleftrightarrow>
     (\<forall>es. ans es NetManGetLinkStatus = LINK_STATE_UP k \<and> ans es (Ps2ip_getconfig ''sm0'') \<ge> 0 \<and>
        (\<forall>c. ans es (Ps2ip_setconfig c) \<ge> 0) \<and>
        dhcp_enabled (cfg es) \<noteq> 0 \<and> dhcp_status (cfg es) = DHCP_STATE_BOUND k)"

lemma wait_tries_at_once:
  "fst (check s) \<Longrightarrow> wait_tries env check (Suc n) s = (0, snd (check s))"
  by (simp add: case_prod_beta)

lemma wait_until_at_once:
  "(\<And>s. fst (check s)) \<Longrightarrow> 0 < timeout \<Longrightarrow> fst (wait_until env check timeout s) = 0"
  by (cases "nat timeout") (simp_all add: wait_until_def wait_tries_at_once case_prod_beta)

lemma configure_dhcp_ok:
  assumes "network_answers k (answer env) (ipconfig env)" "use_dhcp c" "link_mode c = LINK_MODE_AUTO k"
    "0 < timeout_seconds c"
  shows "fst (configure_eeip_network k env (Some c) s) = EEIP_NET_STATUS_OK"
proof -
  have ans: "answer env es NetManGetLinkStatus = LINK_STATE_UP k" "\<not> answer env es (Ps2ip_getconfig ''sm0'') < 0"
    "\<not> answer env es (Ps2ip_setconfig i) < 0" "dhcp_enabled (ipconfig env es) \<noteq> 0"
    "dhcp_status (ipconfig env es) = DHCP_STATE_BOUND k" for es i
    using assms(1) by (auto simp: network_answers_def not_less)
  have "fst (link_is_up k env t)" "fst (dhcp_is_bound k env t)" for t
    using ans by (simp_all add: link_is_up_def dhcp_is_bound_def ps2ip_getconfig_def lib_def Let_def)
  then have up: "fst (wait_until env (link_is_up k env) (timeout_seconds c) t) = 0"
      "fst (wait_until env (dhcp_is_bound k env) (timeout_seconds c) t) = 0" for t
    using assms(4) by (simp_all add: wait_until_at_once)
  have "fst (apply_ip_config env c t) = EEIP_NET_STATUS_OK" for t
    using ans by (simp add: apply_ip_config_def ps2ip_getconfig_def lib_def Let_def)
  then show ?thesis
    using up assms(2-4) by (simp add: configure_eeip_network_def split_beta Let_def)
qed

lemma current_config_ok:
  "network_answers k (answer env) (ipconfig env) \<Longrightarrow>
     fst (fst (eeip_get_current_config env x y z s)) = 0"
  by (simp add: network_answers_def eeip_get_current_config_def ps2ip_getconfig_def lib_def Let_def not_less)

lemma network_up_works:
  fixes sif :: "'i sif_exec"
  assumes "iop_loads sif" "libraries_work ans" "network_answers k ans cfg" "\<forall>m. slots s m = reset_slot"
  obtains t where "network_up k (linked_env sif linked ans cfg) reboot c s = Some (Inr t)"
    "\<And>x y z. fst (fst (eeip_get_current_config (linked_env sif linked ans cfg) x y z t)) = 0"
proof -
  let ?env = "linked_env sif linked ans cfg"
  have net: "network_answers k (answer ?env) (ipconfig ?env)" and lib: "libraries_work (answer ?env)"
    using assms(2,3) by (simp_all add: linked_env_def)
  obtain s1 where s1: "reset_iop ?env reboot s = Some s1"
    using reset_iop_returns [OF lib] by blast
  have "\<forall>m. slots s1 m = reset_slot"
    using reset_iop_effect [OF s1] assms(4) by (simp add: silent_def)
  then obtain s2 where s2: "init_network_driver ?env True s1 = (EEIP_INIT_STATUS_OK, s2)"
    using init_network_loaded(1) [OF assms(1,2)] by blast
  have "\<exists>t. network_up k ?env reboot c s = Some (Inr t)"
    using s1 s2 configure_dhcp_ok [OF net]
    by (simp add: network_up_def eeip_network_config_default_dhcp_def split_beta Let_def)
  with that current_config_ok [OF net] show thesis
    by blast
qed

subsection \<open>Counting\<close>

text \<open>The attempts of a burst, one after the other.\<close>

fun outcomes :: "(nat \<Rightarrow> 'st \<Rightarrow> bool \<times> 'st) \<Rightarrow> nat list \<Rightarrow> 'st \<Rightarrow> bool list" where
  "outcomes attempt [] st = []"
| "outcomes attempt (i # rest) st = fst (attempt i st) # outcomes attempt rest (snd (attempt i st))"

text \<open>The number of the first attempt that was not good, from the number of the first one.\<close>

fun first_bad :: "int \<Rightarrow> bool list \<Rightarrow> int" where
  "first_bad i [] = -1"
| "first_bad i (good # rest) = (if good then first_bad (i + 1) rest else i)"

lemma length_outcomes [simp]: "length (outcomes attempt is st) = length is"
  by (induction "is" arbitrary: st) simp_all

lemma burst_fold:
  "burst_summary (fold (burst_iter attempt) [i..<i + n] b) =
     (burst_ok b + int (length (filter (\<lambda>g. g) (outcomes attempt [i..<i + n] (burst_state b)))),
      burst_fail b + int (length (filter Not (outcomes attempt [i..<i + n] (burst_state b)))),
      if burst_first_fail b < 0 then (if first_bad (int i) (outcomes attempt [i..<i + n] (burst_state b)) < 0
          then burst_first_fail b else first_bad (int i) (outcomes attempt [i..<i + n] (burst_state b)))
      else burst_first_fail b)"
proof (induction n arbitrary: i b)
  case 0
  then show ?case
    by (simp add: burst_summary_def)
next
  case (Suc n)
  have upt: "[i..<i + Suc n] = i # [Suc i..<Suc i + n]"
    by (simp add: upt_conv_Cons)
  obtain good st where a: "attempt i (burst_state b) = (good, st)"
    by fastforce
  show ?case
    unfolding upt fold_Cons o_apply Suc.IH
    by (cases good) (simp_all add: burst_iter_def a add.commute del: upt_Suc)
qed

lemma first_bad_neg: "0 \<le> i \<Longrightarrow> first_bad i gs < 0 \<longleftrightarrow> first_bad i gs = -1"
  by (induction i gs rule: first_bad.induct) auto

lemma burst_loop_summary:
  fixes attempt :: "nat \<Rightarrow> 'st \<Rightarrow> bool \<times> 'st"
  defines "gs \<equiv> \<lambda>n st. outcomes attempt [1..<Suc n] st"
  shows "burst_summary (burst_loop attempt n st) =
    (int (length (filter (\<lambda>g. g) (gs n st))), int (length (filter Not (gs n st))), first_bad 1 (gs n st))"
  using burst_fold [of attempt 1 n "\<lparr>burst_ok = 0, burst_fail = 0, burst_first_fail = -1, burst_state = st\<rparr>"]
    first_bad_neg [of 1 "gs n st"]
  by (auto simp: burst_loop_def gs_def)

text \<open>A burst whose attempts are good before the \<open>k\<close>-th and bad from there on.\<close>

lemma first_bad_from:
  "i \<le> k \<Longrightarrow> first_bad (int i) (map (\<lambda>j. j < k) [i..<i + n]) = (if k < i + n then int k else -1)"
proof (induction n arbitrary: i)
  case 0
  then show ?case by simp
next
  case (Suc n)
  have upt: "[i..<i + Suc n] = i # [Suc i..<Suc i + n]"
    by (simp add: upt_conv_Cons)
  from Suc.prems Suc.IH [of "Suc i"] show ?case
    unfolding upt by (cases "i = k") (simp_all add: add.commute del: upt_Suc)
qed

lemma length_filter_below:
  "length (filter (\<lambda>g. g) (map (\<lambda>j. j < k) [1..<Suc n])) = min (k - 1) n"
  "length (filter Not (map (\<lambda>j. j < k) [1..<Suc n])) = n - min (k - 1) n"
  by (induction n) auto

lemma burst_cut_short:
  assumes "outcomes attempt [1..<Suc n] st = map (\<lambda>i. i < k) [1..<Suc n]" "1 \<le> k"
  shows "burst_summary (burst_loop attempt n st) =
    (int (min (k - 1) n), int (n - min (k - 1) n), if k \<le> n then int k else -1)"
  using first_bad_from [of 1 k n] assms(2)
  by (simp only: burst_loop_summary assms(1) length_filter_below of_nat_1 plus_1_eq_Suc less_Suc_eq_le)

subsection \<open>Datagrams that are echoed\<close>

fun datagrams :: "net_event list \<Rightarrow> u8 list list" where
  "datagrams [] = []"
| "datagrams (Net c r bs # es) = (case c of Sendto s d a \<Rightarrow> d # datagrams es | _ \<Rightarrow> datagrams es)"

fun receipts :: "net_event list \<Rightarrow> nat" where
  "receipts [] = 0"
| "receipts (Net c r bs # es) = (case c of Recvfrom s n \<Rightarrow> Suc (receipts es) | _ \<Rightarrow> receipts es)"

lemma datagrams_append [simp]: "datagrams (xs @ ys) = datagrams xs @ datagrams ys"
  by (induction xs rule: datagrams.induct) (simp_all split: net_call.split)

lemma receipts_append [simp]: "receipts (xs @ ys) = receipts xs + receipts ys"
  by (induction xs rule: receipts.induct) (simp_all split: net_call.split)

text \<open>
  Every datagram comes back, in order and unchanged; the echo of the \<open>k\<close>-th comes after the program
  has stopped to wait for it, and before the next one is sent.
\<close>

definition echo_network :: "nat \<Rightarrow> net_stack \<Rightarrow> bool" where
  "echo_network k stk \<longleftrightarrow>
     (\<forall>es t. reply stk es (Socket t) \<ge> 0) \<and>
     (\<forall>es s d a. reply stk es (Sendto s d a) = int (length d)) \<and>
     (\<forall>es n r w e t. reply stk es (Select n r w e t) =
        (let sent = length (datagrams es) in
         if receipts es < (if sent = k then sent - 1 else sent) then 1 else 0)) \<and>
     (\<forall>es s n. receipts es < length (datagrams es) \<longrightarrow>
        reply stk es (Recvfrom s n) = int (length (datagrams es ! receipts es)) \<and>
        filled stk es (Recvfrom s n) = datagrams es ! receipts es)"

lemma length_udp_tx: "i < 1000 \<Longrightarrow> length (udp_tx i) = 80"
  using length_decimal [of i 2] by (simp add: udp_tx_def ping_text_def)

text \<open>The padding starts at the first \<^verbatim>\<open>A\<close>.\<close>

lemma ping_text_unpadded: "b \<in> set (ping_text i) \<Longrightarrow> b \<noteq> 65"
proof -
  assume "b \<in> set (ping_text i)"
  then have "b \<in> of_char ` (set ''ping #'' \<union> set (decimal i))"
    unfolding ping_text_def set_map set_append .
  then obtain c where c: "c \<in> set ''ping #'' \<union> set (decimal i)" "b = of_char c"
    by (rule imageE)
  have "\<not> is_digit (CHR ''A'')"
    by (simp add: is_digit_def)
  with c(1) have "c \<noteq> CHR ''A''"
    using decimal_digits [of c i] by auto
  then have "(of_char c :: nat) \<noteq> of_char (CHR ''A'')"
    by (simp only: of_char_eq_iff not_False_eq_True)
  then have "unat b \<noteq> 65"
    by (simp add: c(2) unat_of_char)
  then show "b \<noteq> 65"
    by auto
qed

lemma takeWhile_padded: "(\<And>x. x \<in> set xs \<Longrightarrow> P x) \<Longrightarrow> \<not> P y \<Longrightarrow> takeWhile P (xs @ replicate n y) = xs"
  by (induction xs) (cases n, simp_all)

lemma udp_tx_inject: "udp_tx i = udp_tx j \<longleftrightarrow> i = j"
proof
  assume eq: "udp_tx i = udp_tx j"
  have strip: "takeWhile (\<lambda>b. b \<noteq> 65) (udp_tx n) = ping_text n" for n
    unfolding udp_tx_def by (rule takeWhile_padded) (simp_all add: ping_text_unpadded)
  have "ping_text i = ping_text j"
    using strip [of i] strip [of j] eq by simp
  then have "map (of_char :: char \<Rightarrow> u8) (decimal i) = map of_char (decimal j)"
    by (simp add: ping_text_def)
  then show "i = j"
    by (simp add: inj_map_eq_map inj_def of_char_u8_inject)
qed simp

lemma take_received: "length bs = n \<Longrightarrow> take n (overlay bs rx) = bs"
  by (simp add: overlay_def)

text \<open>What the program has seen before its \<open>i\<close>-th attempt.\<close>

definition echoed_before :: "nat \<Rightarrow> nat \<Rightarrow> net_event list \<Rightarrow> bool" where
  "echoed_before k i es \<longleftrightarrow> datagrams es = map udp_tx [1..<i] \<and> receipts es = (if k < i then i - 2 else i - 1)"

lemma udp_iter_echoed:
  assumes net: "echo_network k stk" and es: "echoed_before k i es" and i: "1 \<le> i" "i < 1000" and k: "1 \<le> k"
  shows "fst (udp_iter stk s a i (rx, es)) = (i < k) \<and>
    echoed_before k (Suc i) (snd (snd (udp_iter stk s a i (rx, es))))"
proof -
  have es: "datagrams es = map udp_tx [1..<i]" "receipts es = (if k < i then i - 2 else i - 1)"
    using es by (simp_all add: echoed_before_def)
  have net: "reply stk es (Sendto s d a) = int (length d)"
      "reply stk es (Select n r w e t) =
        (let sent = length (datagrams es) in
         if receipts es < (if sent = k then sent - 1 else sent) then 1 else 0)"
      "receipts es < length (datagrams es) \<Longrightarrow>
        reply stk es (Recvfrom s m) = int (length (datagrams es ! receipts es)) \<and>
        filled stk es (Recvfrom s m) = datagrams es ! receipts es" for es s d a n r w e t m
    using net by (auto simp: echo_network_def)
  define tx where "tx = udp_tx i"
  have tx: "length tx = 80"
    using i by (simp add: tx_def length_udp_tx)
  define es1 where "es1 = es @ [Net (Sendto s tx a) 80 (filled stk es (Sendto s tx a))]"
  have es1: "datagrams es1 = map udp_tx [1..<Suc i]" "receipts es1 = receipts es"
    using i es by (simp_all add: es1_def tx_def)
  define c where "c = Select (s + 1) {s} {} {} UDP_RECV_TIMEOUT_S"
  have send: "sys stk (Sendto s tx a) es = (80, filled stk es (Sendto s tx a), es1)"
    using net(1) tx by (simp add: sys_def es1_def)
  define es2 where "es2 = es1 @ [Net c (reply stk es1 c) (filled stk es1 c)]"
  have es2: "datagrams es2 = datagrams es1" "receipts es2 = receipts es1"
    by (simp_all add: es2_def c_def)
  have sel: "sys stk c es1 = (if i = k then 0 else 1, filled stk es1 c, es2)"
    using i k by (auto simp: sys_def es2_def c_def net(2) es1 es Let_def)
  have delay: "sys stk (DelayThread n) es =
      (reply stk es (DelayThread n), filled stk es (DelayThread n),
       es @ [Net (DelayThread n) (reply stk es (DelayThread n)) (filled stk es (DelayThread n))])" for n es
    by (simp add: sys_def)
  have attempt: "udp_attempt stk s a i (rx, es) =
      (if i = k then (False, rx, es2)
       else let (n, bs, es3) = sys stk (Recvfrom s 255) es2; rx1 = overlay bs rx in
         if n < 0 then (False, rx1, es3)
         else let rx2 = rx1[nat n := 0] in (n = 80 \<and> take 80 tx = take 80 rx2, rx2, es3))"
    unfolding udp_attempt_def Let_def tx_def [symmetric] prod.case c_def [symmetric] send sel by simp
  show ?thesis
  proof (cases "i = k")
    case True
    have "udp_attempt stk s a i (rx, es) = (False, rx, es2)"
      unfolding attempt by (simp add: True)
    then have "udp_iter stk s a i (rx, es) = (False, rx, snd (snd (sys stk (DelayThread INTER_PACKET_US) es2)))"
      by (simp add: udp_iter_def)
    then show ?thesis
      using True es1 es2 es by (simp add: delay echoed_before_def)
  next
    case False
    define j where "j = (if k < i then i - 1 else i)"
    have j: "1 \<le> j" "j \<le> i" "receipts es2 = j - 1" "j < 1000"
      using False i k es es1 es2 by (auto simp: j_def)
    have "datagrams es2 ! receipts es2 = udp_tx j" "receipts es2 < length (datagrams es2)"
      using j es1 es2 by (auto simp: nth_append simp del: upt_Suc)
    then have "sys stk (Recvfrom s 255) es2 = (80, udp_tx j, es2 @ [Net (Recvfrom s 255) 80 (udp_tx j)])"
      using net(3) [of es2] j by (simp add: sys_def length_udp_tx)
    then have "udp_attempt stk s a i (rx, es) =
        (i = j, (overlay (udp_tx j) rx)[80 := 0], es2 @ [Net (Recvfrom s 255) 80 (udp_tx j)])"
      using False j tx by (simp add: attempt Let_def take_received length_udp_tx) (simp add: tx_def udp_tx_inject)
    then show ?thesis
      using False j es1 es2 i k
      by (simp add: udp_iter_def delay echoed_before_def del: upt_Suc) (auto simp: j_def)
  qed
qed

lemma udp_outcomes_echoed:
  assumes "echo_network k stk" "1 \<le> k"
  shows "echoed_before k i es \<Longrightarrow> 1 \<le> i \<Longrightarrow> i + n \<le> 1000 \<Longrightarrow>
    outcomes (udp_iter stk s a) [i..<i + n] (rx, es) = map (\<lambda>i. i < k) [i..<i + n]"
proof (induction n arbitrary: i rx es)
  case 0
  then show ?case by simp
next
  case (Suc n)
  have upt: "[i..<i + Suc n] = i # [Suc i..<Suc i + n]"
    by (simp add: upt_conv_Cons)
  obtain good rx' es' where it: "udp_iter stk s a i (rx, es) = (good, rx', es')"
    by (metis prod_cases3)
  have "good = (i < k)" "echoed_before k (Suc i) es'"
    using udp_iter_echoed [OF assms(1) Suc.prems(1,2) _ assms(2), of s a rx] Suc.prems(3) it by simp_all
  with Suc.IH [of "Suc i" es' rx'] Suc.prems show ?case
    unfolding upt by (simp add: it del: upt_Suc)
qed

lemma udp_run_echoed:
  assumes "network_up k env reboot cfg d = Some (Inr d1)"
    "\<And>x y z. fst (fst (eeip_get_current_config env x y z d1)) = 0"
    "echo_network late stk" "1 \<le> late"
  obtains e where "udp_echo_server_ee_main stk k env reboot cfg rx d = Some e" "net_result e = 0"
    "net_summary e = Some (int (min (late - 1) 100), int (100 - min (late - 1) 100), if late \<le> 100 then int late else -1)"
proof -
  obtain a d2 where cc: "eeip_get_current_config env True True True d1 = ((0, a), d2)"
    using assms(2) [of True True True] by (metis prod.collapse)
  define s where "s = reply stk [] (Socket SOCK_DGRAM)"
  have s: "\<not> s < 0"
    using assms(3) by (simp add: echo_network_def s_def not_less)
  define es where "es = snd (snd (sys stk (DelayThread (10 * 1000 * 1000)) (snd (snd (sys stk (Socket SOCK_DGRAM) [])))))"
  have "echoed_before late 1 es"
    using assms(4) by (simp add: es_def sys_def echoed_before_def)
  from udp_outcomes_echoed [OF assms(3,4) this, of 100 s "target_addr stk" rx]
  have "burst_summary (burst_loop (udp_iter stk s (target_addr stk)) UDP_BURST_N (rx, es)) =
      (int (min (late - 1) 100), int (100 - min (late - 1) 100), if late \<le> 100 then int late else -1)"
    unfolding UDP_BURST_N_def by (intro burst_cut_short assms(4)) simp
  then show thesis
    using that assms(1) cc s
    by (simp add: udp_echo_server_ee_main_def Let_def s_def es_def sys_def case_prod_beta)
qed

subsection \<open>Descriptors\<close>

text \<open>
  A monitor of the calls: \<open>usable fds es\<close> are the descriptors that are open after \<open>es\<close> when \<open>fds\<close> were
  open before, and nothing when a call used one that was not open, or \<^verbatim>\<open>select\<close> was given one beyond
  its bound.
\<close>

fun uses :: "net_call \<Rightarrow> int set" where
  "uses (Bind s a) = {s}"
| "uses (Listen s n) = {s}"
| "uses (Accept s) = {s}"
| "uses (Connect s a) = {s}"
| "uses (Sendto s d a) = {s}"
| "uses (Send s d) = {s}"
| "uses (Select n r w e t) = r \<union> w \<union> e"
| "uses (Recvfrom s n) = {s}"
| "uses (Recv s n) = {s}"
| "uses (Close s) = {s}"
| "uses _ = {}"

fun covers :: "net_call \<Rightarrow> bool" where
  "covers (Select n r w e t) = (\<forall>fd \<in> r \<union> w \<union> e. fd < n)"
| "covers _ = True"

fun open_next :: "int list \<Rightarrow> net_call \<Rightarrow> int \<Rightarrow> int list" where
  "open_next fds (Socket t) r = (if r < 0 then fds else r # fds)"
| "open_next fds (Accept s) r = (if r < 0 then fds else r # fds)"
| "open_next fds (Close s) r = remove1 s fds"
| "open_next fds _ r = fds"

fun usable :: "int list \<Rightarrow> net_event list \<Rightarrow> int list option" where
  "usable fds [] = Some fds"
| "usable fds (Net c r bs # es) = 
     (if uses c \<subseteq> set fds \<and> covers c then usable (open_next fds c r) es else None)"

interpretation descriptors: call_monitor
  "\<lambda>fds e. case e of Net c r bs \<Rightarrow> if uses c \<subseteq> set fds \<and> covers c then Some (open_next fds c r) else None" usable
  by unfold_locales (auto split: net_event.split)

lemmas usable_append = descriptors.monitor_append

lemma usable_sys:
  "usable fds es = Some f \<Longrightarrow> uses c \<subseteq> set f \<Longrightarrow> covers c \<Longrightarrow>
    usable fds (snd (snd (sys stk c es))) = Some (open_next f c (reply stk es c))"
  by (simp add: sys_def usable_append)

lemma usable_delay [simp]:
  "usable fds (snd (snd (sys stk (DelayThread n) es))) = usable fds es"
  by (cases "usable fds es") (simp_all add: sys_def usable_append)

lemma usable_do_one:
  "usable [] es = Some [] \<Longrightarrow> usable [] (snd (snd (do_one stk a i (buf, es)))) = Some []"
  by (simp add: do_one_def sys_def usable_append Let_def)

lemma usable_tcp_iter:
  "usable [] (snd st) = Some [] \<Longrightarrow> usable [] (snd (snd (tcp_iter stk a i st))) = Some []"
  using usable_do_one [of "snd st" stk a i "fst st"] by (simp add: tcp_iter_def case_prod_beta)

lemma usable_udp_iter:
  "usable [] (snd st) = Some [s] \<Longrightarrow> usable [] (snd (snd (udp_iter stk s a i st))) = Some [s]"
  by (simp add: udp_iter_def udp_attempt_def sys_def usable_append Let_def case_prod_beta)

text \<open>What every attempt keeps, a burst keeps.\<close>

lemma burst_keeps:
  assumes "I st" "\<And>i st. I st \<Longrightarrow> I (snd (attempt i st))"
  shows "I (burst_state (burst_loop attempt n st))"
proof -
  have "I (burst_state b) \<Longrightarrow> I (burst_state (fold (burst_iter attempt) is b))" for "is" b
  proof (induction "is" arbitrary: b)
    case (Cons i "is")
    have "burst_state (burst_iter attempt i b) = snd (attempt i (burst_state b))"
      by (simp add: burst_iter_def case_prod_beta Let_def)
    with Cons assms(2) show ?case by simp
  qed simp
  then show ?thesis
    using assms(1) by (simp add: burst_loop_def)
qed

lemma burst_program_descriptors:
  "udp_echo_server_ee_main stk k env reboot cfg buf d = Some e \<Longrightarrow> usable [] (net_calls e) = Some []"
  "tcp_burst_client_ee_main stk k env reboot cfg buf d = Some e \<Longrightarrow> usable [] (net_calls e) = Some []"
proof -
  assume run: "udp_echo_server_ee_main stk k env reboot cfg buf d = Some e"
  define s where "s = reply stk [] (Socket SOCK_DGRAM)"
  define es where "es = snd (snd (sys stk (DelayThread (10 * 1000 * 1000)) (snd (snd (sys stk (Socket SOCK_DGRAM) [])))))"
  have fst_sys: "fst (sys stk c es) = reply stk es c" for c es
    by (simp add: sys_def)
  show "usable [] (net_calls e) = Some []"
  proof (cases "s < 0")
    case True
    then have "usable [] (snd (snd (sys stk (Socket SOCK_DGRAM) []))) = Some []"
      by (simp add: sys_def s_def)
    with True run show ?thesis
      by (auto simp: udp_echo_server_ee_main_def gave_up_def case_prod_beta Let_def s_def fst_sys
          split: option.splits sum.splits if_splits)
  next
    case False
    then have "usable [] es = Some [s]"
      by (simp add: es_def sys_def s_def)
    then have "usable [] (snd (burst_state (burst_loop (udp_iter stk s (target_addr stk)) UDP_BURST_N (buf, es)))) = Some [s]"
      by (intro burst_keeps [where I = "\<lambda>st. usable [] (snd st) = Some [s]"] usable_udp_iter) simp_all
    from usable_sys [OF this, of "Close s" stk]
    have "usable [] (snd (snd (sys stk (Close s) (snd (burst_state
        (burst_loop (udp_iter stk s (target_addr stk)) UDP_BURST_N (buf, es))))))) = Some []"
      by simp
    with False run show ?thesis
      by (auto simp: udp_echo_server_ee_main_def gave_up_def case_prod_beta Let_def s_def es_def fst_sys
          split: option.splits sum.splits if_splits)
  qed
next
  assume run: "tcp_burst_client_ee_main stk k env reboot cfg buf d = Some e"
  define es where "es = snd (snd (sys stk (DelayThread (2 * 1000 * 1000)) []))"
  have "usable [] (snd (burst_state (burst_loop (tcp_iter stk (target_addr stk)) TCP_BURST_N (buf, es)))) = Some []"
    by (intro burst_keeps [where I = "\<lambda>st. usable [] (snd st) = Some []"] usable_tcp_iter) (simp_all add: es_def)
  with run show "usable [] (net_calls e) = Some []"
    by (auto simp: tcp_burst_client_ee_main_def gave_up_def case_prod_beta Let_def es_def
        split: option.splits sum.splits if_splits)
qed

subsection \<open>Loops without an exit\<close>

lemma serve_never: "serve stk s v = None"
proof (cases "serve stk s v")
  case (Some w)
  then have False
    by (rule serve.raw_induct [where P = "\<lambda>stk s v w. False", rotated]) auto
  then show ?thesis ..
qed

lemma poll_never: "poll stk s v = None"
proof (cases "poll stk s v")
  case (Some w)
  then have False
    by (rule poll.raw_induct [where P = "\<lambda>stk s v w. False", rotated]) auto
  then show ?thesis ..
qed

text \<open>The states of the server at the head of its loop.\<close>

abbreviation serving :: "net_stack \<Rightarrow> int \<Rightarrow> server \<Rightarrow> server \<Rightarrow> bool" where
  "serving stk s \<equiv> at_head (\<lambda>v. Some (serve_one stk s v))"

lemma serving_keeps:
  "serving stk s v w \<Longrightarrow> I v \<Longrightarrow> (\<And>w. I w \<Longrightarrow> I (serve_one stk s w)) \<Longrightarrow> I w"
  by (rule head_keeps) auto

text \<open>
  The data that was received from a connection, what \<^verbatim>\<open>send\<close> was asked to send to one, and what it
  sent by its result: the first bytes, or none when it failed.
\<close>

fun heard :: "net_event list \<Rightarrow> (int \<times> u8 list) list" where
  "heard [] = []"
| "heard (Net c r bs # es) = (case c of Recv fd n \<Rightarrow> (if r > 0 then [(fd, bs)] else []) | _ \<Rightarrow> []) @ heard es"

fun offered :: "net_event list \<Rightarrow> (int \<times> u8 list) list" where
  "offered [] = []"
| "offered (Net c r bs # es) = (case c of Send fd d \<Rightarrow> [(fd, d)] | _ \<Rightarrow> []) @ offered es"

fun said :: "net_event list \<Rightarrow> (int \<times> u8 list) list" where
  "said [] = []"
| "said (Net c r bs # es) = (case c of Send fd d \<Rightarrow> [(fd, take (nat r) d)] | _ \<Rightarrow> []) @ said es"

fun accepted :: "net_event list \<Rightarrow> nat" where
  "accepted [] = 0"
| "accepted (Net c r bs # es) = (case c of Accept s \<Rightarrow> if r < 0 then 0 else 1 | _ \<Rightarrow> 0) + accepted es"

lemma heard_append [simp]: "heard (xs @ ys) = heard xs @ heard ys"
  by (induction xs rule: heard.induct) simp_all

lemma offered_append [simp]: "offered (xs @ ys) = offered xs @ offered ys"
  by (induction xs rule: offered.induct) simp_all

lemma said_append [simp]: "said (xs @ ys) = said xs @ said ys"
  by (induction xs rule: said.induct) simp_all

lemma accepted_append [simp]: "accepted (xs @ ys) = accepted xs + accepted ys"
  by (induction xs rule: accepted.induct) simp_all

text \<open>\<^verbatim>\<open>recv\<close> writes as many bytes as it returns.\<close>

definition recv_honest :: "net_stack \<Rightarrow> bool" where
  "recv_honest stk \<longleftrightarrow>
     (\<forall>es s n. reply stk es (Recv s n) \<le> int n \<and>
        length (filled stk es (Recv s n)) = nat (reply stk es (Recv s n)))"

text \<open>\<^verbatim>\<open>send\<close> always sends everything; what was sent of some data is the start of it.\<close>

definition send_complete :: "net_stack \<Rightarrow> bool" where
  "send_complete stk \<longleftrightarrow> (\<forall>es s d. reply stk es (Send s d) = int (length d))"

definition start_of :: "int \<times> u8 list \<Rightarrow> int \<times> u8 list \<Rightarrow> bool" where
  "start_of sent got \<longleftrightarrow> fst sent = fst got \<and> (\<exists>rest. snd got = snd sent @ rest)"

lemma start_of_take [simp]: "start_of (fd, take n d) (fd, d)"
  unfolding start_of_def by (metis append_take_drop_id fst_conv snd_conv)

lemma said_of_offered: "list_all2 start_of (said es) (offered es)"
  by (induction es rule: said.induct) (auto split: net_call.split)

lemma open_listener_result:
  "open_listener stk tidy [] = Inr (s, es) \<Longrightarrow>
     usable [] es = Some [s] \<and> heard es = [] \<and> said es = [] \<and> offered es = [] \<and> accepted es = 0"
  "open_listener stk tidy [] = Inl es \<Longrightarrow>
     \<exists>fds. usable [] es = Some fds \<and> (if tidy then fds = [] else length fds \<le> 1)"
  by (auto simp: open_listener_def sys_def Let_def split: if_splits)

lemma serve_one_descriptors:
  "usable [] (srv_calls v) = Some [s] \<Longrightarrow> usable [] (srv_calls (serve_one stk s v)) = Some [s]"
  by (simp add: serve_one_def sys_def usable_append Let_def)

lemma serve_one_echoes:
  assumes "recv_honest stk" "offered (srv_calls v) = heard (srv_calls v)"
    "n_acc v = of_nat (accepted (srv_calls v))"
  shows "offered (srv_calls (serve_one stk s v)) = heard (srv_calls (serve_one stk s v)) \<and>
    n_acc (serve_one stk s v) = of_nat (accepted (srv_calls (serve_one stk s v)))"
proof -
  have "length (filled stk es (Recv c n)) = nat (reply stk es (Recv c n))" for es c n
    using assms(1) by (simp add: recv_honest_def)
  then show ?thesis
    using assms(2,3) by (simp add: serve_one_def sys_def Let_def overlay_def)
qed

lemma take_min_length: "take (min (length xs) n) xs = take n xs"
  by (simp add: min_def)

lemma serve_one_complete:
  "send_complete stk \<Longrightarrow> said (srv_calls v) = offered (srv_calls v) \<Longrightarrow>
     said (srv_calls (serve_one stk s v)) = offered (srv_calls (serve_one stk s v))"
  by (simp add: send_complete_def serve_one_def sys_def Let_def take_min_length)

lemma sint_count: "n < 2 ^ 31 \<Longrightarrow> sint (of_nat n :: 32 word) = int n"
  by (simp add: signed_of_nat signed_take_bit_int_eq_self)

lemma tcp_server_serving:
  assumes "tcp_server_ee_start stk k env reboot cfg buf d = Some (Inr (d1, s, v))" "serving stk s v w" "recv_honest stk"
  shows "offered (srv_calls w) = heard (srv_calls w)" "list_all2 start_of (said (srv_calls w)) (heard (srv_calls w))"
    "send_complete stk \<Longrightarrow> said (srv_calls w) = heard (srv_calls w)"
    "n_acc w = of_nat (accepted (srv_calls w))"
proof -
  obtain es where "open_listener stk False [] = Inr (s, es)" "v = \<lparr>srv_buf = buf, n_acc = 0, srv_calls = es\<rparr>"
    using assms(1) by (auto simp: tcp_server_ee_start_def case_prod_beta Let_def split: option.splits sum.splits if_splits)
  then have v: "said (srv_calls v) = offered (srv_calls v)" "offered (srv_calls v) = heard (srv_calls v)"
      "n_acc v = of_nat (accepted (srv_calls v))"
    using open_listener_result(1) by simp_all
  have "offered (srv_calls w) = heard (srv_calls w) \<and> n_acc w = of_nat (accepted (srv_calls w))"
    by (rule serving_keeps [OF assms(2), where I = "\<lambda>v. offered (srv_calls v) = heard (srv_calls v) \<and>
        n_acc v = of_nat (accepted (srv_calls v))"]) (simp_all add: v serve_one_echoes [OF assms(3)])
  then show w: "offered (srv_calls w) = heard (srv_calls w)" "n_acc w = of_nat (accepted (srv_calls w))"
    by simp_all
  then show "list_all2 start_of (said (srv_calls w)) (heard (srv_calls w))"
    using said_of_offered [of "srv_calls w"] by simp
  show "said (srv_calls w) = heard (srv_calls w)" if "send_complete stk"
    using serving_keeps [OF assms(2), where I = "\<lambda>v. said (srv_calls v) = offered (srv_calls v)"]
      v(1) serve_one_complete [OF that] w(1) by simp
qed

lemma server_and_polls_endless:
  "tcp_server_ee_start stk k env reboot cfg buf d = Some (Inr sv) \<Longrightarrow> tcp_server_ee_main stk k env reboot cfg buf d = None"
  "listener_run stk (Inr sv') = None"
  by (auto simp: tcp_server_ee_main_def serve_never listener_run_def poll_never split: sum.splits)

text \<open>
  The programs that poll print a line a second, numbered from 0, and on a stack that reports an
  idle listener as idle each is the expected one.
\<close>

abbreviation polling :: "net_stack \<Rightarrow> int \<Rightarrow> poller \<Rightarrow> poller \<Rightarrow> bool" where
  "polling stk s \<equiv> at_head (\<lambda>v. Some (poll_one stk s v))"

lemma polling_lines:
  assumes "polling stk s v w" "tick v = 0" "lines v = []"
    "\<And>es n r w e. fdsets stk es (Select n r w e 0) = ({}, {}, {}) \<and> reply stk es (Select n r w e 0) = 0"
  shows "lines w = map (\<lambda>n. (of_nat n, 0, False, False, False)) [0..<length (lines w)] \<and> tick w = of_nat (length (lines w))"
  by (rule head_keeps [OF assms(1), where I = "\<lambda>w. lines w = map (\<lambda>n. (of_nat n, 0, False, False, False)) [0..<length (lines w)] \<and>
      tick w = of_nat (length (lines w))"])
    (use assms(2-4) in \<open>auto simp: poll_one_def sys_def Let_def\<close>)

lemma poll_one_descriptors:
  "usable [] (poll_calls v) = Some [s] \<Longrightarrow> usable [] (poll_calls (poll_one stk s v)) = Some [s]"
  by (simp add: poll_one_def sys_def usable_append Let_def case_prod_beta)

subsection \<open>A peer that says nothing\<close>

text \<open>Every connection is accepted, and closed by the peer without an answer.\<close>

definition mute_peer :: "net_stack \<Rightarrow> bool" where
  "mute_peer stk \<longleftrightarrow>
     (\<forall>es. (\<forall>t. reply stk es (Socket t) \<ge> 0) \<and> (\<forall>s a. reply stk es (Connect s a) = 0) \<and>
        (\<forall>s d. reply stk es (Send s d) = int (length d)) \<and>
        (\<forall>n r w e t. reply stk es (Select n r w e t) = 1) \<and>
        (\<forall>s n. reply stk es (Recv s n) = 0 \<and> filled stk es (Recv s n) = []) \<and>
        (\<forall>s. reply stk es (Close s) = 0))"

lemma tcp_iter_mute: "mute_peer stk \<Longrightarrow> fst (tcp_iter stk a i st)"
  by (simp add: tcp_iter_def do_one_def sys_def mute_peer_def Let_def case_prod_beta not_less)

lemma tcp_run_mute:
  assumes "network_up k env reboot cfg d = Some (Inr d1)"
    "\<And>x y z. fst (fst (eeip_get_current_config env x y z d1)) = 0" "mute_peer stk"
  obtains e where "tcp_burst_client_ee_main stk k env reboot cfg buf d = Some e" "net_result e = 0"
    "net_summary e = Some (20, 0, -1)" "heard (net_calls e) = []"
proof -
  obtain a d2 where cc: "eeip_get_current_config env True False False d1 = ((0, a), d2)"
    using assms(2) [of True False False] by (metis prod.collapse)
  define es where "es = snd (snd (sys stk (DelayThread (2 * 1000 * 1000)) []))"
  let ?b = "burst_loop (tcp_iter stk (target_addr stk)) TCP_BURST_N (buf, es)"
  have good: "outcomes (tcp_iter stk (target_addr stk)) is st = map (\<lambda>i. True) is" for "is" st
    by (induction "is" arbitrary: st) (simp_all add: tcp_iter_mute [OF assms(3)])
  have "map (\<lambda>i. True) [1..<Suc TCP_BURST_N] = map (\<lambda>i. i < 21) [1..<Suc TCP_BURST_N]"
    by (simp add: TCP_BURST_N_def)
  then have "outcomes (tcp_iter stk (target_addr stk)) [1..<Suc TCP_BURST_N] (buf, es) =
      map (\<lambda>i. i < 21) [1..<Suc TCP_BURST_N]"
    using good by metis
  from burst_cut_short [OF this] have "burst_summary ?b = (20, 0, -1)"
    by (simp add: TCP_BURST_N_def)
  moreover have "heard (snd (snd (tcp_iter stk a i st))) = heard (snd st)" for a i st
    using assms(3)
    by (simp add: tcp_iter_def do_one_def sys_def mute_peer_def Let_def case_prod_beta not_less)
  then have "heard (snd (burst_state ?b)) = []"
    by (intro burst_keeps [where I = "\<lambda>st. heard (snd st) = []"]) (simp_all add: es_def sys_def)
  ultimately show thesis
    using that assms(1) cc by (simp add: tcp_burst_client_ee_main_def es_def Let_def)
qed

subsection \<open>All programs together\<close>

lemma listener_start_descriptors:
  "listener_start stk env d = Inl e \<Longrightarrow> usable [] (net_calls e) = Some []"
  "listener_start stk env d = Inr (d1, s, v) \<Longrightarrow> usable [] (poll_calls v) = Some [s] \<and> tick v = 0 \<and> lines v = []"
  using open_listener_result [of stk True]
  by (auto simp: listener_start_def gave_up_def split: sum.splits)

lemma select_starts_descriptors:
  "select_test_ee_start stk k env reboot cfg d = Some (Inl e) \<Longrightarrow> usable [] (net_calls e) = Some []"
  "select_test_iop_start stk k mk env reboot cfg' d = Some (Inl e) \<Longrightarrow> usable [] (net_calls e) = Some []"
  "select_test_ee_start stk k env reboot cfg d = Some (Inr (d1, s, v)) \<Longrightarrow> usable [] (poll_calls v) = Some [s]"
  "select_test_iop_start stk k mk env reboot cfg' d = Some (Inr (d1, s, v)) \<Longrightarrow> usable [] (poll_calls v) = Some [s]"
  by (auto simp: select_test_ee_start_def select_test_iop_start_def gave_up_def dest: listener_start_descriptors
      split: option.splits sum.splits)

lemma listener_run_ends: "listener_run stk r = Some e \<Longrightarrow> r = Inl e"
  by (cases r) (auto simp: listener_run_def poll_never)

lemma select_tests_descriptors:
  "select_test_ee_main stk k env reboot cfg d = Some e \<Longrightarrow> usable [] (net_calls e) = Some []"
  "select_test_iop_main stk k mk env reboot cfg' d = Some e \<Longrightarrow> usable [] (net_calls e) = Some []"
  by (auto simp: select_test_ee_main_def select_test_iop_main_def bind_eq_Some_conv
      dest!: listener_run_ends dest: select_starts_descriptors(1,2))

lemma polling_keeps:
  assumes "usable [] (poll_calls v) = Some [s]" "polling stk s v w"
  shows "usable [] (poll_calls w) = Some [s]"
  by (rule head_keeps [OF assms(2), where I = "\<lambda>v. usable [] (poll_calls v) = Some [s]"])
    (use assms(1) in \<open>auto dest: poll_one_descriptors\<close>)

lemmas polling_descriptors = polling_keeps [OF select_starts_descriptors(3)] polling_keeps [OF select_starts_descriptors(4)]

lemma server_start_descriptors:
  assumes "tcp_server_ee_start stk k env reboot cfg buf d = Some r"
  shows "case r of Inl e \<Rightarrow> \<exists>fds. usable [] (net_calls e) = Some fds \<and> length fds \<le> 1
    | Inr (d1, s, v) \<Rightarrow> usable [] (srv_calls v) = Some [s] \<and> heard (srv_calls v) = [] \<and> said (srv_calls v) = [] \<and>
        offered (srv_calls v) = [] \<and> accepted (srv_calls v) = 0 \<and> n_acc v = 0"
  using assms open_listener_result(1) [of stk False] open_listener_result(2) [of stk False]
  by (auto simp: tcp_server_ee_start_def gave_up_def case_prod_beta Let_def split: option.splits sum.splits if_splits)

lemma server_keeps_listener:
  assumes "tcp_server_ee_start stk k env reboot cfg buf d = Some (Inr (d1, s, v))" "serving stk s v w"
  shows "usable [] (srv_calls w) = Some [s]"
  by (rule serving_keeps [OF assms(2), where I = "\<lambda>v. usable [] (srv_calls v) = Some [s]"])
    (use server_start_descriptors [OF assms(1)] in \<open>simp_all add: serve_one_descriptors\<close>)

subsection \<open>Concrete peers\<close>

text \<open>A network that echoes, once too late; a client that connects and says two bytes; a lease.\<close>

definition echo_stack :: "nat \<Rightarrow> net_stack" where
  "echo_stack late =
     \<lparr>reply = (\<lambda>es c. case c of
          Socket t \<Rightarrow> 3 | Accept s \<Rightarrow> 4
        | Sendto s d a \<Rightarrow> int (length d) | Send s d \<Rightarrow> int (length d)
        | Select n r w e t \<Rightarrow>
            (let sent = length (datagrams es) in
             if receipts es < (if sent = late then sent - 1 else sent) then 1 else 0)
        | Recvfrom s n \<Rightarrow> int (length (datagrams es ! receipts es))
        | Recv s n \<Rightarrow> int (length (take n [104, 105 :: u8]))
        | _ \<Rightarrow> 0),
      filled = (\<lambda>es c. case c of
          Recvfrom s n \<Rightarrow> datagrams es ! receipts es | Recv s n \<Rightarrow> take n [104, 105] | _ \<Rightarrow> []),
      fdsets = (\<lambda>es c. ({}, {}, {})),
      inet_addr = (\<lambda>text. 0)\<rparr>"

definition test_numbers :: net_numbers where
  "test_numbers = \<lparr>LINK_STATE_UP = 0, LINK_MODE_AUTO = 0, DHCP_STATE_BOUND = 10, DHCP_STATE_OFF = 0\<rparr>"

definition test_config :: eeip_network_config where
  "test_config = \<lparr>use_dhcp = True, cfg_ip = 0, cfg_netmask = 0, cfg_gateway = 0, link_mode = 0, timeout_seconds = 0,
     on_progress = False\<rparr>"

definition leased :: "event list \<Rightarrow> ip_info" where
  "leased es = \<lparr>ipaddr = 1, netmask = 2, gw = 3, dhcp_enabled = 1, dhcp_status = 10\<rparr>"

lemma echo_stack_peers: "echo_network late (echo_stack late)" "recv_honest (echo_stack late)"
  "send_complete (echo_stack late)"
  by (simp_all add: echo_network_def recv_honest_def send_complete_def echo_stack_def)

lemma echo_poll_starts:
  assumes "network_up k env reboot cfg d = Some (Inr d1)"
  obtains d2 v where "select_test_ee_start (echo_stack late) k env reboot cfg d = Some (Inr (d2, 3, v))"
  using assms by (simp add: select_test_ee_start_def listener_start_def open_listener_def echo_stack_def sys_def)

lemma leased_answers: "network_answers test_numbers obliging leased"
  by (simp add: network_answers_def test_numbers_def leased_def obliging_def)

lemma echo_server_starts:
  fixes sif :: "'i sif_exec"
  assumes "iop_loads sif" "libraries_work ans" "network_answers k ans cfg" "\<forall>m. slots s m = reset_slot"
  obtains d v where "tcp_server_ee_start (echo_stack 101) k (linked_env sif linked ans cfg) reboot c buf s = Some (Inr (d, 3, v))"
    "said (srv_calls (serve_one (echo_stack 101) 3 v)) = [(4, [104, 105])]"
proof -
  let ?env = "linked_env sif linked ans cfg" and ?stk = "echo_stack 101"
  obtain t where t: "network_up k ?env reboot c s = Some (Inr t)" "fst (fst (eeip_get_current_config ?env True False False t)) = 0"
    by (rule network_up_works [OF assms]) blast
  obtain es where es: "open_listener ?stk False [] = Inr (3, es)" "said es = []"
    by (simp add: open_listener_def echo_stack_def sys_def)
  define v where "v = \<lparr>srv_buf = buf, n_acc = 0, srv_calls = es\<rparr>"
  have "\<exists>d. tcp_server_ee_start ?stk k ?env reboot c buf s = Some (Inr (d, 3, v))"
    using t es by (simp add: tcp_server_ee_start_def v_def case_prod_beta Let_def)
  moreover have "said (srv_calls (serve_one ?stk 3 v)) = [(4, [104, 105])]"
    using es(2) by (simp add: serve_one_def v_def echo_stack_def sys_def overlay_def Let_def)
  ultimately show thesis
    using that by blast
qed

end
