(* ===== verification/Pad_Sample.thy ===== *)
theory Pad_Sample
  imports Sample_Programs
begin

text \<open>
  src/samples/mtap_sample: controllers on two ports, each with up to four slots behind a multitap,
  that come and go while the program polls them once a frame. The libraries of the controllers and
  of the multitap are a parameter, and so is the status register of the graphics synthesizer. Of the
  console output the lines with the buttons that were pressed are kept.
\<close>

subsection \<open>Libraries and state\<close>

datatype button = LEFT | RIGHT | UP | DOWN | START | SELECT | SQUARE | TRIANGLE | CIRCLE | CROSS
  | L1 | L2 | L3 | R1 | R2 | R3

datatype pad_call =
    MtapPortOpen nat
  | MtapGetConnection nat
  | PadPortOpen nat nat
  | PadPortClose nat nat
  | PadGetState nat nat
  | PadRead nat nat
  | Memalign nat nat
  | CSR_read
  | CSR_write "64 word"

text \<open>A call, its result, and the buttons a read filled in.\<close>

datatype pad_event = Pad pad_call int "16 word"

text \<open>\<open>pad_mask\<close> are the macros \<^verbatim>\<open>PAD_LEFT\<close> and so on, \<open>VSINT\<close> is the bit \<^verbatim>\<open>GS_SET_CSR\<close> sets here.\<close>

record pad_lib =
  pad_reply :: "pad_event list \<Rightarrow> pad_call \<Rightarrow> int"
  pad_btns :: "pad_event list \<Rightarrow> pad_call \<Rightarrow> 16 word"
  PAD_STATE_STABLE :: int
  PAD_STATE_DISCONN :: int
  pad_mask :: "button \<Rightarrow> u32"
  VSINT :: "64 word"

text \<open>The arrays are over the ports and the slots.\<close>

record pads =
  padBuf :: "nat \<Rightarrow> nat \<Rightarrow> int"
  padConnected :: "nat \<Rightarrow> nat \<Rightarrow> u32"
  padOpen :: "nat \<Rightarrow> nat \<Rightarrow> u32"
  mtapConnected :: "nat \<Rightarrow> u32"
  maxslot :: "nat \<Rightarrow> u32"
  old_pad :: "nat \<Rightarrow> nat \<Rightarrow> u32"
  new_pad :: "nat \<Rightarrow> nat \<Rightarrow> u32"
  pad_events :: "pad_event list"
  pressed :: "(nat \<times> nat \<times> button list) list"

definition set2 :: "nat \<Rightarrow> nat \<Rightarrow> 'a \<Rightarrow> (nat \<Rightarrow> nat \<Rightarrow> 'a) \<Rightarrow> nat \<Rightarrow> nat \<Rightarrow> 'a" where
  "set2 port slot x f = f(port := (f port)(slot := x))"

definition pad :: "pad_lib \<Rightarrow> pad_call \<Rightarrow> pads \<Rightarrow> int \<times> pads" where
  "pad l c v =
     (let r = pad_reply l (pad_events v) c
      in (r, v\<lparr>pad_events := pad_events v @ [Pad c r (pad_btns l (pad_events v) c)]\<rparr>))"

subsection \<open>The frame\<close>

partial_function (option) vsync_spin :: "pad_lib \<Rightarrow> pads \<Rightarrow> pads option" where
  "vsync_spin l v =
     (let (csr, v1) = pad l CSR_read v in
      if (word_of_int csr :: 64 word) AND VSINT l = 0 then vsync_spin l v1 else Some v1)"

definition wait_vsync :: "pad_lib \<Rightarrow> pads \<Rightarrow> pads option" where
  "wait_vsync l v =
     (let (csr, v1) = pad l CSR_read v;
          v2 = snd (pad l (CSR_write (word_of_int csr OR VSINT l)) v1)
      in case vsync_spin l v2 of
           None \<Rightarrow> None
         | Some v3 \<Rightarrow>
             let (csr, v4) = pad l CSR_read v3
             in Some (snd (pad l (CSR_write (word_of_int csr AND NOT (VSINT l))) v4)))"

subsection \<open>Finding the controllers\<close>

definition find_slot :: "pad_lib \<Rightarrow> nat \<Rightarrow> nat \<Rightarrow> pads \<Rightarrow> pads" where
  "find_slot l port slot v =
     (let v1 = (if padOpen v port slot = 0
                then let (r, v1) = pad l (PadPortOpen port slot) v
                     in v1\<lparr>padOpen := set2 port slot (word_of_int r) (padOpen v1)\<rparr>
                else v) in
      if padOpen v1 port slot = 1 then
        let (st, v2) = pad l (PadGetState port slot) v1 in
        if st = PAD_STATE_STABLE l then v2\<lparr>padConnected := set2 port slot 1 (padConnected v2)\<rparr>
        else
        let (st, v3) = pad l (PadGetState port slot) v2 in
        if st = PAD_STATE_DISCONN l \<and> padConnected v3 port slot = 1
        then v3\<lparr>padConnected := set2 port slot 0 (padConnected v3)\<rparr> else v3
      else v1)"

definition close_slot :: "pad_lib \<Rightarrow> nat \<Rightarrow> nat \<Rightarrow> pads \<Rightarrow> pads" where
  "close_slot l port slot v =
     (if padOpen v port slot = 1
      then let v1 = snd (pad l (PadPortClose port slot) v)
           in v1\<lparr>padOpen := set2 port slot 0 (padOpen v1)\<rparr>
      else v)"

definition find_port :: "pad_lib \<Rightarrow> nat \<Rightarrow> pads \<Rightarrow> pads" where
  "find_port l port v =
     (let (r, v1) = pad l (MtapGetConnection port) v;
          mtapcon = word_of_int r;
          v2 = v1\<lparr>mtapConnected := (mtapConnected v1)(port := mtapcon),
                  maxslot := (maxslot v1)(port := if mtapcon = 1 then 4 else 1)\<rparr>;
          v3 = fold (find_slot l port) [0..<unat (maxslot v2 port)] v2
      in if mtapcon = 0 then fold (close_slot l port) [1..<4] v3 else v3)"

definition find_controllers :: "pad_lib \<Rightarrow> pads \<Rightarrow> pads" where
  "find_controllers l v = fold (find_port l) [0..<2] v"

subsection \<open>Reading them\<close>

text \<open>The names that are printed for the buttons, in the order of the tests.\<close>

definition button_names :: "pad_lib \<Rightarrow> u32 \<Rightarrow> button list" where
  "button_names l w =
     filter (\<lambda>b. w AND pad_mask l b \<noteq> 0)
       [LEFT, RIGHT, UP, DOWN, START, SELECT, SQUARE, TRIANGLE, CIRCLE, CROSS, L1, L2, L3, R1, R2, R3]"

definition read_slot :: "pad_lib \<Rightarrow> nat \<Rightarrow> nat \<Rightarrow> pads \<Rightarrow> pads" where
  "read_slot l port slot v =
     (if padOpen v port slot \<noteq> 0 \<and> padConnected v port slot \<noteq> 0 then
        let btns = pad_btns l (pad_events v) (PadRead port slot);
            (ret, v1) = pad l (PadRead port slot) v in
        if ret \<noteq> 0 then
          let paddata = 0xffff XOR ucast btns;
              new = paddata AND NOT (old_pad v1 port slot)
          in v1\<lparr>new_pad := set2 port slot new (new_pad v1),
                old_pad := set2 port slot paddata (old_pad v1),
                pressed := pressed v1 @ (if new \<noteq> 0 then [(port, slot, button_names l new)] else [])\<rparr>
        else v1
      else v)"

definition read_port :: "pad_lib \<Rightarrow> nat \<Rightarrow> pads \<Rightarrow> pads" where
  "read_port l port v = fold (read_slot l port) [0..<unat (maxslot v port)] v"

definition pad_turn :: "pad_lib \<Rightarrow> pads \<Rightarrow> pads option" where
  "pad_turn l v = wait_vsync l (fold (read_port l) [0..<2] (find_controllers l v))"

partial_function (option) pad_loop :: "pad_lib \<Rightarrow> pads \<Rightarrow> pads option" where
  "pad_loop l v = (case pad_turn l v of None \<Rightarrow> None | Some v1 \<Rightarrow> pad_loop l v1)"

subsection \<open>The program\<close>

text \<open>The static arrays before \<^verbatim>\<open>main\<close>; \<open>old_pad\<close> and \<open>new_pad\<close> are on its stack.\<close>

definition pads_static :: "(nat \<Rightarrow> nat \<Rightarrow> u32) \<Rightarrow> pads" where
  "pads_static stack = \<lparr>padBuf = \<lambda>p s. 0, padConnected = \<lambda>p s. 0, padOpen = \<lambda>p s. 0, mtapConnected = \<lambda>p. 0,
     maxslot = \<lambda>p. 0, old_pad = stack, new_pad = stack, pad_events = [], pressed = []\<rparr>"

definition clear_slot :: "pad_lib \<Rightarrow> nat \<Rightarrow> pads \<Rightarrow> pads" where
  "clear_slot l i v =
     (let v1 = v\<lparr>padConnected := set2 1 i 0 (set2 0 i 0 (padConnected v)),
                padOpen := set2 1 i 0 (set2 0 i 0 (padOpen v)),
                old_pad := set2 1 i 0 (set2 0 i 0 (old_pad v)),
                new_pad := set2 1 i 0 (set2 0 i 0 (new_pad v))\<rparr>;
          (a, v2) = pad l (Memalign 64 256) v1;
          (b, v3) = pad l (Memalign 64 256) (v2\<lparr>padBuf := set2 0 i a (padBuf v2)\<rparr>)
      in v3\<lparr>padBuf := set2 1 i b (padBuf v3)\<rparr>)"

definition pads_start :: "pad_lib \<Rightarrow> (nat \<Rightarrow> nat \<Rightarrow> u32) \<Rightarrow> pads" where
  "pads_start l stack =
     (let v1 = (pads_static stack)\<lparr>mtapConnected := (mtapConnected (pads_static stack))(0 := 0, 1 := 0)\<rparr>;
          v2 = snd (pad l (MtapPortOpen 1) (snd (pad l (MtapPortOpen 0) v1)))
      in fold (clear_slot l) [0..<4] v2)"

definition mtap_sample_main ::
  "pad_lib \<Rightarrow> 'p drv_env \<Rightarrow> ('p \<Rightarrow> 'p) \<Rightarrow> (nat \<Rightarrow> nat \<Rightarrow> u32) \<Rightarrow> 'p drv \<Rightarrow> (int \<times> 'p drv \<times> pads) option" where
  "mtap_sample_main l env reboot stack d =
     (case reset_iop env reboot d of
        None \<Rightarrow> None
      | Some d1 \<Rightarrow>
          let d2 = snd (init_joystick_driver env True d1)
          in map_option (\<lambda>v. (0, deinit_joystick_driver env True d2, v)) (pad_loop l (pads_start l stack)))"

subsection \<open>Which controllers are open\<close>

text \<open>
  A monitor of the calls: \<open>pad_usable S es\<close> are the controllers that are open after \<open>es\<close> when those of
  \<open>S\<close> were open before, and nothing when a call opened one twice, was outside of the arrays, or asked
  or closed one that was not open.
\<close>

fun pad_usable :: "(nat \<times> nat) set \<Rightarrow> pad_event list \<Rightarrow> (nat \<times> nat) set option" where
  "pad_usable S [] = Some S"
| "pad_usable S (Pad c r b # es) =
     (case c of
        PadPortOpen p s \<Rightarrow>
          if p < 2 \<and> s < 4 \<and> (p, s) \<notin> S then pad_usable (if r = 1 then insert (p, s) S else S) es else None
      | PadPortClose p s \<Rightarrow> if (p, s) \<in> S then pad_usable (S - {(p, s)}) es else None
      | PadGetState p s \<Rightarrow> if (p, s) \<in> S then pad_usable S es else None
      | PadRead p s \<Rightarrow> if (p, s) \<in> S then pad_usable S es else None
      | _ \<Rightarrow> pad_usable S es)"

interpretation controllers: call_monitor
  "\<lambda>S e. case e of Pad c r b \<Rightarrow>
     (case c of
        PadPortOpen p s \<Rightarrow> if p < 2 \<and> s < 4 \<and> (p, s) \<notin> S then Some (if r = 1 then insert (p, s) S else S) else None
      | PadPortClose p s \<Rightarrow> if (p, s) \<in> S then Some (S - {(p, s)}) else None
      | PadGetState p s \<Rightarrow> if (p, s) \<in> S then Some S else None
      | PadRead p s \<Rightarrow> if (p, s) \<in> S then Some S else None
      | _ \<Rightarrow> Some S)" pad_usable
  by unfold_locales (simp_all split: pad_event.split pad_call.split)

lemmas pad_usable_append = controllers.monitor_append

text \<open>\<^verbatim>\<open>padPortOpen\<close> returns one or zero.\<close>

definition open_honest :: "pad_lib \<Rightarrow> bool" where
  "open_honest l \<longleftrightarrow> (\<forall>es p s. pad_reply l es (PadPortOpen p s) \<in> {0, 1})"

definition open_pads :: "pads \<Rightarrow> (nat \<times> nat) set" where
  "open_pads v = {(p, s). padOpen v p s = 1}"

definition pads_ok :: "pads \<Rightarrow> bool" where
  "pads_ok v \<longleftrightarrow>
     pad_usable {} (pad_events v) = Some (open_pads v) \<and> open_pads v \<subseteq> {..<2} \<times> {..<4} \<and>
     (\<forall>p s. padOpen v p s \<in> {0, 1})"

lemma pad_fields [simp]:
  "padOpen (snd (pad l c v)) = padOpen v" "padConnected (snd (pad l c v)) = padConnected v"
  "mtapConnected (snd (pad l c v)) = mtapConnected v" "maxslot (snd (pad l c v)) = maxslot v"
  "old_pad (snd (pad l c v)) = old_pad v" "pressed (snd (pad l c v)) = pressed v"
  "fst (pad l c v) = pad_reply l (pad_events v) c"
  "pad_events (snd (pad l c v)) = pad_events v @ [Pad c (pad_reply l (pad_events v) c) (pad_btns l (pad_events v) c)]"
  by (simp_all add: pad_def Let_def)

lemma open_pads_pad [simp]: "open_pads (snd (pad l c v)) = open_pads v"
  by (simp add: open_pads_def)

lemma set2_apply: "set2 p s x f q t = (if q = p \<and> t = s then x else f q t)"
  by (simp add: set2_def)

text \<open>A call that asks an open controller, or none.\<close>

lemma pads_ok_ask:
  "pads_ok v \<Longrightarrow> (case c of PadGetState p s \<Rightarrow> padOpen v p s = 1 | PadRead p s \<Rightarrow> padOpen v p s = 1
     | PadPortOpen p s \<Rightarrow> False | PadPortClose p s \<Rightarrow> False | _ \<Rightarrow> True) \<Longrightarrow> pads_ok (snd (pad l c v))"
  by (auto simp: pads_ok_def pad_usable_append open_pads_def split: pad_call.splits)

lemma pads_ok_cong:
  "padOpen v = padOpen w \<Longrightarrow> pad_events v = pad_events w \<Longrightarrow> pads_ok v = pads_ok w"
  by (simp add: pads_ok_def open_pads_def)

lemma pads_ok_update [simp]:
  "pads_ok (v\<lparr>padConnected := f\<rparr>) = pads_ok v" "pads_ok (v\<lparr>mtapConnected := g\<rparr>) = pads_ok v"
  "pads_ok (v\<lparr>maxslot := g\<rparr>) = pads_ok v" "pads_ok (v\<lparr>old_pad := f\<rparr>) = pads_ok v"
  "pads_ok (v\<lparr>new_pad := f\<rparr>) = pads_ok v" "pads_ok (v\<lparr>pressed := h\<rparr>) = pads_ok v"
  "pads_ok (v\<lparr>padBuf := b\<rparr>) = pads_ok v"
  by (rule pads_ok_cong; simp)+

lemma find_slot_ok:
  assumes "open_honest l" "pads_ok v" "port < 2" "slot < 4"
  shows "pads_ok (find_slot l port slot v)"
proof -
  define v1 where "v1 = (if padOpen v port slot = 0
      then (snd (pad l (PadPortOpen port slot) v))\<lparr>padOpen := set2 port slot
        (word_of_int (pad_reply l (pad_events v) (PadPortOpen port slot))) (padOpen v)\<rparr> else v)"
  have v1: "pads_ok v1"
  proof (cases "padOpen v port slot = 0")
    case True
    have "pad_reply l (pad_events v) (PadPortOpen port slot) \<in> {0, 1}"
      using assms(1) unfolding open_honest_def by blast
    with True assms(2-4) show ?thesis
      by (auto simp: v1_def pads_ok_def pad_usable_append open_pads_def set2_apply)
  qed (simp add: v1_def assms(2))
  have ask: "pads_ok (snd (pad l (PadGetState port slot) w))" if "pads_ok w" "padOpen w port slot = 1" for w
    using pads_ok_ask [OF that(1)] that(2) by simp
  have "find_slot l port slot v =
      (if padOpen v1 port slot = 1 then
        let v2 = snd (pad l (PadGetState port slot) v1) in
        if pad_reply l (pad_events v1) (PadGetState port slot) = PAD_STATE_STABLE l
        then v2\<lparr>padConnected := set2 port slot 1 (padConnected v2)\<rparr>
        else let v3 = snd (pad l (PadGetState port slot) v2) in
        if pad_reply l (pad_events v2) (PadGetState port slot) = PAD_STATE_DISCONN l \<and> padConnected v3 port slot = 1
        then v3\<lparr>padConnected := set2 port slot 0 (padConnected v3)\<rparr> else v3
      else v1)"
    by (simp add: find_slot_def v1_def case_prod_beta Let_def)
  then show ?thesis
    using v1 ask by (simp add: Let_def)
qed

lemma close_slot_ok: "pads_ok v \<Longrightarrow> pads_ok (close_slot l port slot v)"
  by (auto simp: close_slot_def pads_ok_def pad_usable_append open_pads_def set2_apply Let_def)

lemma read_slot_ok: "pads_ok v \<Longrightarrow> pads_ok (read_slot l port slot v)"
proof -
  assume v: "pads_ok v"
  have "pads_ok (snd (pad l (PadRead port slot) v))" if "padOpen v port slot \<noteq> 0"
  proof (rule pads_ok_ask [OF v])
    have "padOpen v port slot = 1"
      using v that by (auto simp: pads_ok_def)
    then show "case PadRead port slot of PadGetState p s \<Rightarrow> padOpen v p s = 1 | PadRead p s \<Rightarrow> padOpen v p s = 1
        | PadPortOpen p s \<Rightarrow> False | PadPortClose p s \<Rightarrow> False | _ \<Rightarrow> True"
      by simp
  qed
  then show ?thesis
    using v by (auto simp: read_slot_def case_prod_beta Let_def)
qed

text \<open>Waiting for the frame only reads and writes the register.\<close>

lemma vsync_spin_keeps:
  assumes "vsync_spin l v = Some w" "\<And>v. I v \<Longrightarrow> I (snd (pad l CSR_read v))"
  shows "I v \<Longrightarrow> I w"
proof (rule vsync_spin.raw_induct [where P = "\<lambda>l' v w. l' = l \<longrightarrow> I v \<longrightarrow> I w", rule_format, OF _ assms(1)], goal_cases)
  case (1 loop l' v w)
  then show ?case
    using assms(2) [of v] by (simp add: case_prod_beta Let_def split: if_splits)
qed simp_all

lemma wait_vsync_keeps:
  assumes "wait_vsync l v = Some w" "I v" "\<And>v. I v \<Longrightarrow> I (snd (pad l CSR_read v))"
    "\<And>v x. I v \<Longrightarrow> I (snd (pad l (CSR_write x) v))"
  shows "I w"
proof -
  obtain v3 where "vsync_spin l (snd (pad l (CSR_write (word_of_int (pad_reply l (pad_events v) CSR_read) OR VSINT l))
      (snd (pad l CSR_read v)))) = Some v3"
    and w: "w = snd (pad l (CSR_write (word_of_int (pad_reply l (pad_events v3) CSR_read) AND NOT (VSINT l)))
      (snd (pad l CSR_read v3)))"
    using assms(1) by (auto simp: wait_vsync_def case_prod_beta Let_def split: option.splits)
  then have "I v3"
    using vsync_spin_keeps [where I = I, OF _ assms(3)] assms(2-4) by blast
  then show ?thesis
    using w assms(3,4) by blast
qed

text \<open>
  Without a multitap, only the first slot of a port is open; with one, all four are looked at.
\<close>

definition slots_match :: "nat \<Rightarrow> pads \<Rightarrow> bool" where
  "slots_match port v \<longleftrightarrow>
     maxslot v port = (if mtapConnected v port = 1 then 4 else 1) \<and>
     (mtapConnected v port = 0 \<longrightarrow> (\<forall>slot \<ge> 1. padOpen v port slot = 0))"

lemma find_slot_fields [simp]:
  "mtapConnected (find_slot l p s v) = mtapConnected v" "maxslot (find_slot l p s v) = maxslot v"
  "old_pad (find_slot l p s v) = old_pad v" "pressed (find_slot l p s v) = pressed v"
  by (simp_all add: find_slot_def case_prod_beta Let_def)

lemma close_slot_fields [simp]:
  "mtapConnected (close_slot l p s v) = mtapConnected v" "maxslot (close_slot l p s v) = maxslot v"
  "old_pad (close_slot l p s v) = old_pad v" "pressed (close_slot l p s v) = pressed v"
  "padConnected (close_slot l p s v) = padConnected v"
  by (simp_all add: close_slot_def Let_def)

lemma read_slot_fields [simp]:
  "mtapConnected (read_slot l p s v) = mtapConnected v" "maxslot (read_slot l p s v) = maxslot v"
  "padOpen (read_slot l p s v) = padOpen v" "padConnected (read_slot l p s v) = padConnected v"
  by (simp_all add: read_slot_def case_prod_beta Let_def)

lemma find_slot_elsewhere: "q \<noteq> p \<Longrightarrow> padOpen (find_slot l p s v) q = padOpen v q"
  by (simp add: find_slot_def case_prod_beta Let_def set2_def)

lemma close_slot_open:
  "padOpen v p s \<in> {0, 1} \<Longrightarrow> padOpen (close_slot l p s v) = set2 p s 0 (padOpen v)"
  by (auto simp: close_slot_def Let_def set2_def fun_eq_iff)

lemma fold_keeps: "(\<And>x v. I v \<Longrightarrow> I (g x v)) \<Longrightarrow> I v \<Longrightarrow> I (fold g xs v)"
  by (induction xs arbitrary: v) simp_all

lemma fold_field: "(\<And>x v. f (g x v) = f v) \<Longrightarrow> f (fold g xs v) = f v"
  by (induction xs arbitrary: v) simp_all

lemma find_port_ok:
  assumes "open_honest l" "pads_ok v" "port < 2"
  shows "pads_ok (find_port l port v)" "slots_match port (find_port l port v)"
    "q \<noteq> port \<Longrightarrow> slots_match q (find_port l port v) = slots_match q v"
proof -
  define m :: u32 where "m = word_of_int (pad_reply l (pad_events v) (MtapGetConnection port))"
  define v2 where "v2 = (snd (pad l (MtapGetConnection port) v))\<lparr>mtapConnected := (mtapConnected v)(port := m),
      maxslot := (maxslot v)(port := if m = 1 then 4 else 1)\<rparr>"
  define v3 where "v3 = fold (find_slot l port) [0..<unat (maxslot v2 port)] v2"
  have eq: "find_port l port v = (if m = 0 then fold (close_slot l port) [1..<4] v3 else v3)"
    by (simp add: find_port_def m_def v2_def v3_def case_prod_beta Let_def)
  have v2: "pads_ok v2"
    using pads_ok_ask [OF assms(2), of "MtapGetConnection port" l] by (simp add: v2_def)
  have four: "unat (maxslot v2 port) \<le> 4"
    by (simp add: v2_def)
  have v3: "pads_ok v3"
    unfolding v3_def
    by (rule fold_invariant [where Q = "\<lambda>s. s < 4"]) (use four v2 find_slot_ok [OF assms(1) _ assms(3)] in auto)
  have ok: "pads_ok (fold (close_slot l port) ss v3)" for ss
    by (rule fold_invariant [where Q = "\<lambda>s. True"]) (use v3 close_slot_ok in auto)
  have f3: "mtapConnected v3 = mtapConnected v2" "maxslot v3 = maxslot v2" "\<And>q. q \<noteq> port \<Longrightarrow> padOpen v3 q = padOpen v2 q"
    using fold_field [where f = mtapConnected and g = "find_slot l port"]
      fold_field [where f = maxslot and g = "find_slot l port"]
      fold_field [where f = "\<lambda>v. padOpen v q" and g = "find_slot l port" for q]
    by (simp_all add: v3_def find_slot_elsewhere)
  have f4: "mtapConnected (fold (close_slot l port) ss v3) = mtapConnected v2"
      "maxslot (fold (close_slot l port) ss v3) = maxslot v2" for ss
    using fold_field [where f = mtapConnected and g = "close_slot l port"]
      fold_field [where f = maxslot and g = "close_slot l port"] by (simp_all add: f3)
  have range: "padOpen v3 p s \<in> {0, 1}" "4 \<le> s \<Longrightarrow> padOpen v3 p s = 0" for p s
  proof -
    show "padOpen v3 p s \<in> {0, 1}"
      using v3 by (simp add: pads_ok_def)
    show "padOpen v3 p s = 0" if "4 \<le> s"
    proof -
      have "(p, s) \<notin> open_pads v3"
        using v3 that by (auto simp: pads_ok_def)
      then show ?thesis
        using v3 by (auto simp: pads_ok_def open_pads_def)
    qed
  qed
  have three: "[1..<4] = [1, 2, 3::nat]"
    by (simp add: upt_rec)
  have "padOpen v3 port s = 0 \<or> padOpen v3 port s = 1" for s
    using range(1) by blast
  then have f5: "padOpen (fold (close_slot l port) [1..<4] v3) = set2 port 3 0 (set2 port 2 0 (set2 port 1 0 (padOpen v3)))"
    unfolding three by (simp add: close_slot_open set2_apply)
  show "pads_ok (find_port l port v)"
    using ok v3 by (simp add: eq)
  have closed: "set2 port 3 0 (set2 port 2 0 (set2 port 1 0 (padOpen v3))) port s = 0" if "1 \<le> s" for s
    using range(2) [of s] that by (auto simp: set2_apply)
  show "slots_match port (find_port l port v)"
    using closed f3 f4 f5 by (simp add: slots_match_def eq v2_def)
  show "slots_match q (find_port l port v) = slots_match q v" if "q \<noteq> port"
    using that f3 f4 f5 by (simp add: slots_match_def eq v2_def set2_def)
qed

definition pads_inv :: "pads \<Rightarrow> bool" where
  "pads_inv v \<longleftrightarrow> pads_ok v \<and> slots_match 0 v \<and> slots_match 1 v"

lemma find_controllers_ok:
  assumes "open_honest l" "pads_ok v"
  shows "pads_inv (find_controllers l v)"
proof -
  note p0 = find_port_ok [OF assms, of 0]
  note p1 = find_port_ok [OF assms(1) p0(1), of 1]
  have "[0..<2] = [0, 1::nat]"
    by (simp add: upt_rec)
  then show ?thesis
    using p0(2) p1 by (simp add: pads_inv_def find_controllers_def)
qed

text \<open>The rest of a turn leaves what was found as it is.\<close>

lemma slots_match_cong:
  "maxslot v = maxslot w \<Longrightarrow> mtapConnected v = mtapConnected w \<Longrightarrow> padOpen v = padOpen w \<Longrightarrow>
    slots_match p v = slots_match p w"
  by (simp add: slots_match_def)

lemma pads_inv_call:
  "pads_inv v \<Longrightarrow> pads_inv (snd (pad l CSR_read v))" "pads_inv v \<Longrightarrow> pads_inv (snd (pad l (CSR_write x) v))"
  by (auto simp: pads_inv_def pads_ok_ask slots_match_cong [of "snd (pad l _ v)" v])

lemma read_slot_inv: "pads_inv v \<Longrightarrow> pads_inv (read_slot l p s v)"
  by (auto simp: pads_inv_def read_slot_ok slots_match_cong [of "read_slot l p s v" v])

lemma pad_turn_inv:
  assumes "open_honest l" "pads_ok v" "pad_turn l v = Some w"
  shows "pads_inv w"
proof (rule wait_vsync_keeps [where I = pads_inv, OF assms(3) [unfolded pad_turn_def] _ pads_inv_call])
  have "pads_inv (read_port l p v)" if "pads_inv v" for p v
    unfolding read_port_def by (rule fold_keeps [where I = pads_inv, OF read_slot_inv that])
  then show "pads_inv (fold (read_port l) [0..<2] (find_controllers l v))"
    by (rule fold_keeps [where I = pads_inv and g = "read_port l"]) (simp_all add: find_controllers_ok assms(1,2))
qed

subsection \<open>Which buttons are reported\<close>

text \<open>The data of the reads of a controller, and what is new in each of them.\<close>

fun pad_reads :: "nat \<Rightarrow> nat \<Rightarrow> pad_event list \<Rightarrow> u32 list" where
  "pad_reads p s [] = []"
| "pad_reads p s (Pad c r b # es) =
     (if c = PadRead p s \<and> r \<noteq> 0 then [0xffff XOR ucast b] else []) @ pad_reads p s es"

fun pushed :: "u32 \<Rightarrow> u32 list \<Rightarrow> u32 list" where
  "pushed old [] = []"
| "pushed old (w # ws) = (w AND NOT old) # pushed w ws"

fun reports :: "nat \<Rightarrow> nat \<Rightarrow> (nat \<times> nat \<times> button list) list \<Rightarrow> button list list" where
  "reports p s [] = []"
| "reports p s ((q, t, bs) # rs) = (if q = p \<and> t = s then [bs] else []) @ reports p s rs"

lemma pad_reads_append [simp]: "pad_reads p s (xs @ ys) = pad_reads p s xs @ pad_reads p s ys"
  by (induction p s xs rule: pad_reads.induct) simp_all

lemma reports_append [simp]: "reports p s (xs @ ys) = reports p s xs @ reports p s ys"
  by (induction p s xs rule: reports.induct) simp_all

lemma pushed_snoc: "pushed old (ws @ [w]) = pushed old ws @ [w AND NOT (last (old # ws))]"
  by (induction old ws rule: pushed.induct) simp_all

definition told :: "pad_lib \<Rightarrow> nat \<Rightarrow> nat \<Rightarrow> pads \<Rightarrow> bool" where
  "told l p s v \<longleftrightarrow>
     old_pad v p s = last (0 # pad_reads p s (pad_events v)) \<and>
     reports p s (pressed v) = map (button_names l) (filter (\<lambda>w. w \<noteq> 0) (pushed 0 (pad_reads p s (pad_events v))))"

lemma told_cong:
  "old_pad v p s = old_pad w p s \<Longrightarrow> pressed v = pressed w \<Longrightarrow>
    pad_reads p s (pad_events v) = pad_reads p s (pad_events w) \<Longrightarrow> told l p s v = told l p s w"
  by (simp add: told_def)

lemma told_call: "c \<noteq> PadRead p s \<Longrightarrow> told l p s (snd (pad l c v)) = told l p s v"
  by (rule told_cong) simp_all

lemma told_update [simp]:
  "told l p s (v\<lparr>padConnected := f\<rparr>) = told l p s v" "told l p s (v\<lparr>padOpen := f\<rparr>) = told l p s v"
  "told l p s (v\<lparr>mtapConnected := g\<rparr>) = told l p s v" "told l p s (v\<lparr>maxslot := g\<rparr>) = told l p s v"
  by (rule told_cong; simp)+

lemma told_find: "told l p s v \<Longrightarrow> told l p s (find_controllers l v)"
proof -
  have slot: "told l p s (find_slot l q t v) = told l p s v" "told l p s (close_slot l q t v) = told l p s v" for q t v
    by (simp_all add: find_slot_def close_slot_def case_prod_beta Let_def told_call)
  have "told l p s (find_port l q v)" if "told l p s v" for q v
    using that fold_field [where f = "told l p s" and g = "find_slot l q", OF slot(1)]
      fold_field [where f = "told l p s" and g = "close_slot l q", OF slot(2)]
    by (simp add: find_port_def case_prod_beta Let_def told_call slot)
  then show "told l p s v \<Longrightarrow> told l p s (find_controllers l v)"
    unfolding find_controllers_def by (rule fold_keeps [where I = "told l p s"])
qed

lemma told_read_slot:
  assumes "told l p s v"
  shows "told l p s (read_slot l q t v)"
proof (cases "q = p \<and> t = s")
  case True
  show ?thesis
    using assms True
    by (auto simp: told_def read_slot_def case_prod_beta Let_def pushed_snoc set2_apply)
next
  case False
  have "told l p s (read_slot l q t v) = told l p s v"
    using False by (auto simp: told_def read_slot_def case_prod_beta Let_def set2_apply)
  with assms show ?thesis by simp
qed

lemma pad_turn_told:
  assumes "told l p s v" "pad_turn l v = Some w"
  shows "told l p s w"
proof (rule wait_vsync_keeps [where I = "told l p s", OF assms(2) [unfolded pad_turn_def]])
  have "told l p s (read_port l q v)" if "told l p s v" for q v
    unfolding read_port_def by (rule fold_keeps [where I = "told l p s", OF told_read_slot that])
  then show "told l p s (fold (read_port l) [0..<2] (find_controllers l v))"
    by (rule fold_keeps [where I = "told l p s" and g = "read_port l"]) (simp_all add: told_find assms(1))
qed (simp_all add: told_call)

subsection \<open>Running\<close>

text \<open>The states at the head of the endless loop.\<close>

abbreviation pads_running :: "pad_lib \<Rightarrow> (nat \<Rightarrow> nat \<Rightarrow> u32) \<Rightarrow> pads \<Rightarrow> bool" where
  "pads_running l stack \<equiv> at_head (pad_turn l) (pads_start l stack)"

lemma pads_start_ok: "pads_ok (pads_start l stack)"
proof -
  define I where "I v \<longleftrightarrow> pad_usable {} (pad_events v) = Some {} \<and> (\<forall>p s. padOpen v p s = 0)" for v :: pads
  have "I (clear_slot l i v)" if "I v" for i v
    using that by (simp add: I_def clear_slot_def pad_usable_append case_prod_beta Let_def set2_apply)
  moreover have "I (snd (pad l (MtapPortOpen 1) (snd (pad l (MtapPortOpen 0)
      ((pads_static stack)\<lparr>mtapConnected := (mtapConnected (pads_static stack))(0 := 0, 1 := 0)\<rparr>)))))"
    by (simp add: I_def pad_usable_append pads_static_def)
  ultimately have "I (pads_start l stack)"
    unfolding pads_start_def Let_def by (rule fold_keeps [where I = I and g = "clear_slot l"])
  then show ?thesis
    by (simp add: I_def pads_ok_def open_pads_def)
qed

lemma pads_running_ok:
  assumes "open_honest l" "pads_running l stack v"
  shows "pads_ok v"
  by (rule head_keeps [OF assms(2), where I = pads_ok])
    (use pads_start_ok pad_turn_inv [OF assms(1)] in \<open>auto simp: pads_inv_def\<close>)

lemma pads_start_told:
  assumes "p < 2" "s < 4"
  shows "told l p s (pads_start l stack)"
proof -
  define none where "none v \<longleftrightarrow> pad_reads p s (pad_events v) = [] \<and> pressed v = []" for v :: pads
  have four: "[0..<4] = [0, 1, 2, 3::nat]"
    by (simp add: upt_rec)
  have clear: "none (clear_slot l i v) = none v"
      "old_pad (clear_slot l i v) = set2 1 i 0 (set2 0 i 0 (old_pad v))" for i v
    by (simp_all add: none_def clear_slot_def case_prod_beta Let_def)
  have "none (pads_start l stack)"
    unfolding pads_start_def Let_def four
    by (simp add: clear(1)) (simp add: none_def pads_static_def)
  moreover have "old_pad (pads_start l stack) p s = 0"
    using assms unfolding pads_start_def Let_def four
    by (simp add: clear(2) set2_apply)
  ultimately show ?thesis
    by (simp add: told_def none_def)
qed

lemma pads_running_told:
  assumes "pads_running l stack v" "p < 2" "s < 4"
  shows "told l p s v"
  by (rule head_keeps [OF assms(1), where I = "told l p s"])
    (use pads_start_told [OF assms(2,3)] pad_turn_told in blast)+

lemma pad_loop_never: "pad_loop l v = None"
proof (cases "pad_loop l v")
  case (Some w)
  then have False
    by (rule pad_loop.raw_induct [where P = "\<lambda>l v w. False", rotated]) (auto split: option.splits)
  then show ?thesis ..
qed

subsection \<open>A multitap that goes away\<close>

text \<open>
  The controllers behind it are closed, but stay marked as connected; when it comes back they are
  opened again and read, whatever state they report, unless it is that of a disconnected one.
\<close>

lemma multitap_leaves_marks:
  assumes "pads_ok v" "port < 2" "1 \<le> slot" "slot < 4"
    "pad_reply l (pad_events v) (MtapGetConnection port) = 0"
  shows "padOpen (find_port l port v) port slot = 0" "padConnected (find_port l port v) port slot = padConnected v port slot"
proof -
  define v2 where "v2 = (snd (pad l (MtapGetConnection port) v))\<lparr>mtapConnected := (mtapConnected v)(port := 0),
      maxslot := (maxslot v)(port := 1)\<rparr>"
  define v3 where "v3 = find_slot l port 0 v2"
  have three: "[1..<4] = [1, 2, 3::nat]"
    by (simp add: upt_rec)
  have eq: "find_port l port v = close_slot l port 3 (close_slot l port 2 (close_slot l port 1 v3))"
    using assms(5) unfolding find_port_def three
    by (simp add: v2_def v3_def case_prod_beta Let_def)
  have other: "padOpen v3 port slot = padOpen v port slot" "padConnected v3 port slot = padConnected v port slot"
    if "1 \<le> slot" for slot
    using that by (simp_all add: v3_def v2_def find_slot_def case_prod_beta Let_def set2_apply)
  have range: "padOpen v3 port s \<in> {0, 1}" if "1 \<le> s" for s
    using assms(1) other(1) [OF that] by (simp add: pads_ok_def)
  have "slot = 1 \<or> slot = 2 \<or> slot = 3"
    using assms(3,4) by linarith
  then show "padOpen (find_port l port v) port slot = 0"
    using range [of 1] range [of 2] range [of 3] by (auto simp: eq close_slot_open set2_apply)
  show "padConnected (find_port l port v) port slot = padConnected v port slot"
    using other(2) [OF assms(3)] by (simp add: eq)
qed

lemma reopened_is_read:
  assumes "padOpen v port slot = 0" "padConnected v port slot = 1"
    and "\<And>es. pad_reply l es (PadPortOpen port slot) = 1"
    and "\<And>es. pad_reply l es (PadGetState port slot) \<notin> {PAD_STATE_STABLE l, PAD_STATE_DISCONN l}"
  defines "w \<equiv> find_slot l port slot v"
  shows "padOpen w port slot = 1" "padConnected w port slot = 1"
    "\<exists>r b. pad_events (read_slot l port slot w) = pad_events w @ [Pad (PadRead port slot) r b]"
proof -
  show o: "padOpen w port slot = 1" and c: "padConnected w port slot = 1"
    using assms(1-4) by (simp_all add: w_def find_slot_def case_prod_beta Let_def set2_apply)
  show "\<exists>r b. pad_events (read_slot l port slot w) = pad_events w @ [Pad (PadRead port slot) r b]"
    using o c by (simp add: read_slot_def case_prod_beta Let_def)
qed

lemma find_slot_other:
  "t \<noteq> slot \<Longrightarrow> padOpen (find_slot l p t v) p slot = padOpen v p slot"
  "t \<noteq> slot \<Longrightarrow> padConnected (find_slot l p t v) p slot = padConnected v p slot"
  by (simp_all add: find_slot_def case_prod_beta Let_def set2_apply)

text \<open>A port whose multitap is there again.\<close>

lemma find_port_reopens:
  assumes "padOpen v port slot = 0" "padConnected v port slot = 1" "slot < 4"
    and "pad_reply l (pad_events v) (MtapGetConnection port) = 1"
    and "\<And>es. pad_reply l es (PadPortOpen port slot) = 1"
    and "\<And>es. pad_reply l es (PadGetState port slot) \<notin> {PAD_STATE_STABLE l, PAD_STATE_DISCONN l}"
  shows "padOpen (find_port l port v) port slot = 1 \<and> padConnected (find_port l port v) port slot = 1"
proof -
  define v2 where "v2 = (snd (pad l (MtapGetConnection port) v))\<lparr>mtapConnected := (mtapConnected v)(port := 1),
      maxslot := (maxslot v)(port := 4)\<rparr>"
  have v2: "padOpen v2 port slot = 0" "padConnected v2 port slot = 1"
    using assms(1,2) by (simp_all add: v2_def)
  have other: "padOpen (fold (find_slot l port) ts w) port slot = padOpen w port slot \<and>
      padConnected (fold (find_slot l port) ts w) port slot = padConnected w port slot" if "slot \<notin> set ts" for ts w
    using that by (induction ts arbitrary: w) (auto simp: find_slot_other)
  have split: "[0..<4] = [0..<slot] @ slot # [Suc slot..<4]"
    using upt_add_eq_append [of 0 slot "4 - slot"] assms(3) by (simp add: upt_conv_Cons)
  have "find_port l port v = fold (find_slot l port) [Suc slot..<4] (find_slot l port slot (fold (find_slot l port) [0..<slot] v2))"
    using assms(4) by (simp add: find_port_def v2_def case_prod_beta Let_def split)
  moreover note reopened_is_read(1,2) [of "fold (find_slot l port) [0..<slot] v2" port slot l] other [of "[0..<slot]" v2]
    other [of "[Suc slot..<4]" "find_slot l port slot (fold (find_slot l port) [0..<slot] v2)"]
  ultimately show ?thesis
    using v2 assms(5,6) by simp
qed

subsection \<open>Concrete libraries\<close>

text \<open>No multitap, and on each port a controller whose left button is held down.\<close>

definition test_pads :: pad_lib where
  "test_pads =
     \<lparr>pad_reply = (\<lambda>es c. case c of MtapGetConnection p \<Rightarrow> 0 | PadPortOpen p s \<Rightarrow> 1 | PadGetState p s \<Rightarrow> 6
        | PadRead p s \<Rightarrow> 32 | CSR_read \<Rightarrow> 8 | _ \<Rightarrow> 0),
      pad_btns = (\<lambda>es c. 0xff7f), PAD_STATE_STABLE = 6, PAD_STATE_DISCONN = 0,
      pad_mask = (\<lambda>b. if b = LEFT then 0x80 else 0), VSINT = 8\<rparr>"

lemma test_pads_honest: "open_honest test_pads"
  by (simp add: open_honest_def test_pads_def)

text \<open>When the register answers with the bit, the frame ends.\<close>

lemma wait_vsync_returns:
  assumes "\<And>es. (word_of_int (pad_reply l es CSR_read) :: 64 word) AND VSINT l \<noteq> 0"
  obtains w where "wait_vsync l v = Some w" "pressed w = pressed v"
proof -
  have "vsync_spin l u = Some (snd (pad l CSR_read u))" for u
    using assms by (subst vsync_spin.simps) (simp add: case_prod_beta Let_def)
  with that show thesis
    by (simp add: wait_vsync_def case_prod_beta Let_def)
qed

lemma test_pads_turn:
  obtains w where "pad_turn test_pads (pads_start test_pads (\<lambda>p s. 0)) = Some w" "reports 1 0 (pressed w) = [[LEFT]]"
proof -
  define v where "v = pads_start test_pads (\<lambda>p s. 0)"
  have three: "[Suc 0..<4] = [1, 2, 3::nat]" and two: "[0..<2] = [0, 1::nat]"
    by (simp_all add: upt_rec)
  have reply: "pad_reply test_pads es (MtapGetConnection p) = 0" "pad_reply test_pads es (PadPortOpen p s) = 1"
    "pad_reply test_pads es (PadGetState p s) = 6" "pad_reply test_pads es (PadRead p s) = 32"
    "pad_reply test_pads es CSR_read = 8" "pad_btns test_pads es c = 0xff7f" "PAD_STATE_STABLE test_pads = 6"
    "VSINT test_pads = 8" for es p s c
    by (simp_all add: test_pads_def)
  have v: "padOpen v = (\<lambda>p s. 0)" "padConnected v = (\<lambda>p s. 0)" "old_pad v = (\<lambda>p s. 0)" "pressed v = []"
  proof -
    define I where "I u \<longleftrightarrow> padOpen u = (\<lambda>p s. 0) \<and> padConnected u = (\<lambda>p s. 0) \<and> old_pad u = (\<lambda>p s. 0) \<and> pressed u = []"
      for u :: pads
    have "I (clear_slot test_pads i u)" if "I u" for i u
      using that by (simp add: I_def clear_slot_def case_prod_beta Let_def set2_def fun_eq_iff)
    moreover have "I (snd (pad test_pads (MtapPortOpen 1) (snd (pad test_pads (MtapPortOpen 0)
        ((pads_static (\<lambda>p s. 0))\<lparr>mtapConnected := (mtapConnected (pads_static (\<lambda>p s. 0)))(0 := 0, 1 := 0)\<rparr>)))))"
      by (simp add: I_def pads_static_def)
    ultimately have "I v"
      unfolding v_def pads_start_def Let_def by (rule fold_keeps [where I = I and g = "clear_slot test_pads"])
    then show "padOpen v = (\<lambda>p s. 0)" "padConnected v = (\<lambda>p s. 0)" "old_pad v = (\<lambda>p s. 0)" "pressed v = []"
      by (simp_all add: I_def)
  qed
  have port: "padOpen (find_port test_pads p u) = set2 p 0 1 (padOpen u)"
      "padConnected (find_port test_pads p u) = set2 p 0 1 (padConnected u)"
      "maxslot (find_port test_pads p u) = (maxslot u)(p := 1)"
      "old_pad (find_port test_pads p u) = old_pad u" "pressed (find_port test_pads p u) = pressed u"
    if "padOpen u p = (\<lambda>s. 0)" for p u
  proof -
    define u2 where "u2 = (snd (pad test_pads (MtapGetConnection p) u))\<lparr>mtapConnected := (mtapConnected u)(p := 0),
        maxslot := (maxslot u)(p := 1)\<rparr>"
    define u3 where "u3 = find_slot test_pads p 0 u2"
    have u3: "padOpen u3 = set2 p 0 1 (padOpen u)" "padConnected u3 = set2 p 0 1 (padConnected u)"
        "maxslot u3 = (maxslot u)(p := 1)" "old_pad u3 = old_pad u" "pressed u3 = pressed u"
      using that by (simp_all add: u3_def u2_def find_slot_def reply case_prod_beta Let_def set2_apply)
    have shut: "close_slot test_pads p s u3 = u3" if "s \<noteq> 0" for s
      using that \<open>padOpen u p = (\<lambda>s. 0)\<close> by (simp add: close_slot_def u3 set2_apply)
    have "find_port test_pads p u = u3"
      by (simp add: find_port_def reply case_prod_beta Let_def three shut flip: u2_def u3_def)
    then show "padOpen (find_port test_pads p u) = set2 p 0 1 (padOpen u)"
      "padConnected (find_port test_pads p u) = set2 p 0 1 (padConnected u)"
      "maxslot (find_port test_pads p u) = (maxslot u)(p := 1)"
      "old_pad (find_port test_pads p u) = old_pad u" "pressed (find_port test_pads p u) = pressed u"
      using u3 by simp_all
  qed
  define f where "f = find_controllers test_pads v"
  have f: "padOpen f = set2 1 0 1 (set2 0 0 1 (\<lambda>p s. 0))" "padConnected f = set2 1 0 1 (set2 0 0 1 (\<lambda>p s. 0))"
      "maxslot f 0 = 1" "maxslot f 1 = 1" "old_pad f = (\<lambda>p s. 0)" "pressed f = []"
  proof -
    have "padOpen (find_port test_pads 0 v) 1 = (\<lambda>s. 0)"
      using v by (simp add: port set2_def)
    then show "padOpen f = set2 1 0 1 (set2 0 0 1 (\<lambda>p s. 0))" "padConnected f = set2 1 0 1 (set2 0 0 1 (\<lambda>p s. 0))"
        "maxslot f 0 = 1" "maxslot f 1 = 1" "old_pad f = (\<lambda>p s. 0)" "pressed f = []"
      using v by (simp_all add: f_def find_controllers_def two port)
  qed
  have "reports 1 0 (pressed (fold (read_port test_pads) [0..<2] f)) = [[LEFT]]"
  proof -
    have left: "button_names test_pads 0x80 = [LEFT]"
      by (simp add: button_names_def test_pads_def)
    have read: "pressed (read_slot test_pads p 0 u) = pressed u @ [(p, 0, [LEFT])]"
        "old_pad (read_slot test_pads p 0 u) = set2 p 0 0x80 (old_pad u)"
      if "padOpen u p 0 = 1" "padConnected u p 0 = 1" "old_pad u p 0 = 0" for p u
      using that by (simp_all add: read_slot_def reply case_prod_beta Let_def left)
    show ?thesis
      by (simp add: two upt_rec [of 0 1] read_port_def f read set2_apply del: One_nat_def)
  qed
  moreover obtain w where "wait_vsync test_pads (fold (read_port test_pads) [0..<2] f) = Some w"
      "pressed w = pressed (fold (read_port test_pads) [0..<2] f)"
    by (rule wait_vsync_returns [of test_pads]) (simp_all add: reply)
  ultimately show thesis
    using that by (simp add: pad_turn_def f_def v_def)
qed

end
