(* ===== verification/Disk_Samples.thy ===== *)
theory Disk_Samples
  imports Sample_Programs Decimal_Text Filesystem
begin

text \<open>
  The programs of src/samples that use a disk: filesystem_sample, hdd_sample and listdir_sample. They
  initialise drivers, list a directory on the console, append to a log file and release the
  drivers. The directory, the sizes of its files and what can be opened are a parameter; undefined
  behaviour sets \<open>ub\<close> in the world of the C heap.
\<close>

subsection \<open>Directories\<close>

record dirent =
  d_name :: string
  d_is_dir :: bool

text \<open>
  \<open>folder\<close> are the results of \<^verbatim>\<open>readdir\<close> until it returns a null pointer, when \<^verbatim>\<open>opendir\<close> works;
  \<open>st_size\<close> and \<open>st_isdir\<close> are what \<^verbatim>\<open>stat\<close> leaves in its structure.
\<close>

record disk =
  folder :: "string \<Rightarrow> dirent list option"
  st_size :: "string \<Rightarrow> int"
  st_isdir :: "string \<Rightarrow> bool"
  appendable :: "string \<Rightarrow> bool"

text \<open>A line of the listing, and a text appended to a file.\<close>

type_synonym listing = "(string \<times> string \<times> bool) list"
type_synonym log = "(string \<times> string) list"

text \<open>\<^verbatim>\<open>itoa\<close> takes an \<^verbatim>\<open>int\<close>.\<close>

definition size_text :: "int \<Rightarrow> string" where
  "size_text n = decimal_int (sint (word_of_int n :: 32 word))"

text \<open>
  What a text prints as a format of \<^verbatim>\<open>printf\<close> without arguments: \<^verbatim>\<open>%%\<close> is a percent sign. Nothing, when it
  has a conversion, for which there is no argument, or ends in the middle of one.
\<close>

fun formatted :: "string \<Rightarrow> string option" where
  "formatted [] = Some []"
| "formatted [c] = (if c = CHR ''%'' then None else Some [c])"
| "formatted (c # d # s) =
     (if c \<noteq> CHR ''%'' then map_option (\<lambda>t. c # t) (formatted (d # s))
      else if d = CHR ''%'' then map_option (\<lambda>t. CHR ''%'' # t) (formatted s)
      else None)"

text \<open>
  The loop over the entries, which the listings of the two programs share: up to ten lines. Nothing, when
  a name is a format with conversions or a size does not fit its ten bytes, which is undefined.
\<close>

fun list_entries ::
  "disk \<Rightarrow> (dirent \<Rightarrow> string \<Rightarrow> bool) \<Rightarrow> string \<Rightarrow> nat \<Rightarrow> dirent list \<Rightarrow> listing option" where
  "list_entries dk kind path count [] = Some []"
| "list_entries dk kind path count (ep # rest) =
     (if count = 10 then Some []
      else
      case formatted (d_name ep) of
        None \<Rightarrow> None
      | Some name \<Rightarrow>
          let fname = take 1023 (path @ d_name ep);
              text = size_text (st_size dk fname)
          in if length text \<ge> 10 then None
             else map_option (\<lambda>shown. (name, text, kind ep fname) # shown) (list_entries dk kind path (count + 1) rest))"

definition list_folder ::
  "disk \<Rightarrow> (dirent \<Rightarrow> string \<Rightarrow> bool) \<Rightarrow> string \<Rightarrow> mount_world \<Rightarrow> listing \<times> mount_world" where
  "list_folder dk kind path w =
     (case folder dk path of
        None \<Rightarrow> ([], w)
      | Some entries \<Rightarrow>
          case list_entries dk kind path 0 entries of
            None \<Rightarrow> ([], w\<lparr>ub := True\<rparr>)
          | Some shown \<Rightarrow> (shown, w))"

definition print_folder :: "disk \<Rightarrow> string \<Rightarrow> mount_world \<Rightarrow> listing \<times> mount_world" where
  "print_folder dk path w = list_folder dk (\<lambda>ep fname. d_is_dir ep) path w"

definition print_current_folder :: "disk \<Rightarrow> 'p drv \<Rightarrow> mount_world \<Rightarrow> listing \<times> mount_world" where
  "print_current_folder dk s w = list_folder dk (\<lambda>ep fname. st_isdir dk fname) (cwd_path s) w"

definition create_log_file :: "disk \<Rightarrow> string \<Rightarrow> log" where
  "create_log_file dk path =
     (if appendable dk path then [(path, ''This is a test to check if it working'' @ [CHR 0x0A])] else [])"

text \<open>The result of \<^verbatim>\<open>malloc\<close> is not checked.\<close>

definition concat_strings :: "string \<Rightarrow> string \<Rightarrow> mount_world \<Rightarrow> nat \<times> mount_world" where
  "concat_strings s1 s2 w =
     (let (result, w1) = malloc (Str (s1 @ s2)) w
      in (result, if result = 0 then w1\<lparr>ub := True\<rparr> else w1))"

subsection \<open>What a program ends with\<close>

record 'p disk_end =
  end_result :: int
  end_world :: mount_world
  end_drivers :: "'p drv"
  end_shown :: listing
  end_log :: log

subsection \<open>Listing a directory\<close>

text \<open>src/samples/listdir_sample, built as it is, with \<^verbatim>\<open>ENABLED_HDD_IF_BOOT_FROM_HDD\<close>.\<close>

definition listdir_deinit_drivers :: "'p drv_env \<Rightarrow> bool \<Rightarrow> 'p drv \<Rightarrow> 'p drv option" where
  "listdir_deinit_drivers env deinit_powerOff s =
     (case deinit_hdd_driver env False s of
        None \<Rightarrow> None
      | Some s1 \<Rightarrow>
          let s2 = deinit_usb_driver env True s1;
              s3 = deinit_memcard_driver env True s2;
              s4 = deinit_fileXio_driver env s3
          in Some (if deinit_powerOff then deinit_poweroff_driver env s4 else s4))"

definition prepare_for_exit :: "'p drv_env \<Rightarrow> bool \<Rightarrow> 'p drv \<Rightarrow> 'p drv option" where
  "prepare_for_exit env deinit_powerOff s =
     listdir_deinit_drivers env deinit_powerOff (umount_current_hdd_partition env s)"

definition listdir_poweroffHandler :: "'p drv_env \<Rightarrow> 'p drv \<Rightarrow> 'p drv option" where
  "listdir_poweroffHandler env s =
     map_option (\<lambda>t. snd (lib env PoweroffShutdown t)) (prepare_for_exit env False s)"

definition listdir_init_drivers ::
  "'p drv_env \<Rightarrow> mount_world \<Rightarrow> 'p drv \<Rightarrow> (mount_world \<times> 'p drv) option" where
  "listdir_init_drivers env w s =
     (let s1 = snd (init_poweroff_driver env s);
          s2 = snd (init_fileXio_driver env s1);
          s3 = snd (init_memcard_driver env True s2);
          s4 = snd (init_usb_driver env True s3);
          s5 = snd (init_hdd_driver env False False s4);
          s6 = snd (lib env (PoweroffSetCallback Handler_program) s5)
      in map_option snd (mount_current_hdd_partition env w s6))"

definition listdir_sample_main ::
  "disk \<Rightarrow> 'p drv_env \<Rightarrow> ('p \<Rightarrow> 'p) \<Rightarrow> mount_world \<Rightarrow> 'p drv \<Rightarrow> 'p disk_end option" where
  "listdir_sample_main dk env reboot w s =
     (case reset_iop env reboot s of
        None \<Rightarrow> None
      | Some s1 \<Rightarrow>
          case listdir_init_drivers env w s1 of
            None \<Rightarrow> None
          | Some (w2, s2) \<Rightarrow>
              let cwd = cwd_path s2;
                  (ready, s3) = waitUntilDeviceIsReady env cwd s2 in
              if \<not> ready
              then map_option (\<lambda>t. \<lparr>end_result = -1, end_world = w2, end_drivers = snd (lib env (Sleep 10) t),
                                   end_shown = [], end_log = []\<rparr>) (prepare_for_exit env True s3)
              else
              let (log_file, w3) = concat_strings cwd ''Log.txt'' w2;
                  (shown, w4) = print_folder dk cwd w3;
                  log = create_log_file dk (string_at w4 log_file)
              in map_option (\<lambda>t. \<lparr>end_result = 0, end_world = w4, end_drivers = snd (lib env (Sleep 10) t),
                                 end_shown = shown, end_log = log\<rparr>) (prepare_for_exit env True s3))"

subsection \<open>The hard disk\<close>

text \<open>src/samples/hdd_sample.\<close>

definition hdd_sample_main ::
  "disk \<Rightarrow> 'p drv_env \<Rightarrow> ('p \<Rightarrow> 'p) \<Rightarrow> mount_world \<Rightarrow> 'p drv \<Rightarrow> 'p disk_end option" where
  "hdd_sample_main dk env reboot w s =
     (case reset_iop env reboot s of
        None \<Rightarrow> None
      | Some s1 \<Rightarrow>
          let s2 = snd (init_hdd_driver env True True s1) in
          case mount_current_hdd_partition env w s2 of
            None \<Rightarrow> None
          | Some (_, w3, s3) \<Rightarrow>
              let (shown, w4) = print_current_folder dk s3 w3;
                  log = create_log_file dk ''Log.txt'';
                  s4 = umount_current_hdd_partition env s3
              in map_option (\<lambda>t. \<lparr>end_result = 0, end_world = w4, end_drivers = snd (lib env (Sleep 5) t),
                                 end_shown = shown, end_log = log\<rparr>) (deinit_hdd_driver env True s4))"

subsection \<open>The boot device\<close>

text \<open>src/samples/filesystem_sample.\<close>

definition write_to_file :: "disk \<Rightarrow> string \<Rightarrow> 'p drv \<Rightarrow> log" where
  "write_to_file dk path s =
     (if appendable dk path
      then [(path, ''fjtrujy rocks!'' @ [CHR 0x0A]), (path, ''Current working directory: '' @ cwd_path s @ [CHR 0x0A])]
      else [])"

definition filesystem_sample_main ::
  "disk \<Rightarrow> 'p drv_env \<Rightarrow> ('p \<Rightarrow> 'p) \<Rightarrow> mount_world \<Rightarrow> 'p drv \<Rightarrow> 'p disk_end option" where
  "filesystem_sample_main dk env reboot w s =
     (case reset_iop env reboot s of
        None \<Rightarrow> None
      | Some s1 \<Rightarrow>
          case init_only_boot_ps2_filesystem_driver env w s1 of
            None \<Rightarrow> None
          | Some (w2, s2) \<Rightarrow>
              map_option (\<lambda>t. \<lparr>end_result = 0, end_world = w2, end_drivers = t, end_shown = [],
                               end_log = write_to_file dk ''dummy.txt'' s2\<rparr>)
                (deinit_only_boot_ps2_filesystem_driver env s2))"

subsection \<open>What is listed\<close>

lemma length_decimal_int: "length (decimal_int i) < 10 \<longleftrightarrow> -(10 ^ 8) < i \<and> i < 10 ^ 9"
proof (cases "i < 0")
  case True
  then show ?thesis
    using length_decimal [of "nat (- i)" 7] by (simp add: decimal_int_def) linarith
next
  case False
  then show ?thesis
    using length_decimal [of "nat i" 8] by (simp add: decimal_int_def) linarith
qed

text \<open>
  An entry is harmless when its name has no conversions and its size has at most nine characters;
  and the line of such an entry.
\<close>

definition harmless :: "disk \<Rightarrow> string \<Rightarrow> dirent \<Rightarrow> bool" where
  "harmless dk path ep \<longleftrightarrow>
     formatted (d_name ep) \<noteq> None \<and>
     (let n = sint (word_of_int (st_size dk (take 1023 (path @ d_name ep))) :: 32 word)
      in -(10 ^ 8) < n \<and> n < 10 ^ 9)"

definition entry_line :: "disk \<Rightarrow> (dirent \<Rightarrow> string \<Rightarrow> bool) \<Rightarrow> string \<Rightarrow> dirent \<Rightarrow> string \<times> string \<times> bool" where
  "entry_line dk kind path ep =
     (the (formatted (d_name ep)), size_text (st_size dk (take 1023 (path @ d_name ep))),
      kind ep (take 1023 (path @ d_name ep)))"

lemma size_fits:
  "length (size_text n) < 10 \<longleftrightarrow> -(10 ^ 8) < sint (word_of_int n :: 32 word) \<and> sint (word_of_int n :: 32 word) < 10 ^ 9"
  unfolding size_text_def by (rule length_decimal_int)

lemma list_entries_result:
  assumes "count \<le> 10"
  shows "list_entries dk kind path count entries =
    (if list_all (harmless dk path) (take (10 - count) entries)
     then Some (map (entry_line dk kind path) (take (10 - count) entries)) else None)"
  using assms
proof (induction dk kind path count entries rule: list_entries.induct)
  case (2 dk kind path count ep rest)
  show ?case
  proof (cases "count = 10")
    case False
    then have "10 - count = Suc (10 - Suc count)"
      using 2(2) by simp
    with 2 False show ?thesis
      by (auto simp: harmless_def entry_line_def Let_def size_fits not_less [symmetric] split: option.splits)
  qed simp
qed simp

lemma print_folder_result:
  assumes "folder dk path = Some entries"
  shows "print_folder dk path w =
    (if list_all (harmless dk path) (take 10 entries)
     then (map (entry_line dk (\<lambda>ep fname. d_is_dir ep) path) (take 10 entries), w) else ([], w\<lparr>ub := True\<rparr>))"
  using assms by (simp add: print_folder_def list_folder_def list_entries_result)

lemma formatted_plain: "CHR ''%'' \<notin> set t \<Longrightarrow> formatted t = Some t"
  by (induction t rule: formatted.induct) auto

subsection \<open>What is mounted\<close>

text \<open>
  The names of what is mounted after some events, the newest first; and what the drivers keep of it.
\<close>

fun mount_next :: "event \<Rightarrow> string list \<Rightarrow> string list" where
  "mount_next (Lib (FileXioMount m dev) r) ms = (if r < 0 then ms else m # ms)"
| "mount_next (Lib (FileXioUmount m) r) ms = remove1 m ms"
| "mount_next _ ms = ms"

definition mounted_names :: "event list \<Rightarrow> string list" where
  "mounted_names es = fold mount_next es []"

lemma mounted_names_append [simp]: "mounted_names (es @ fs) = fold mount_next fs (mounted_names es)"
  by (simp add: mounted_names_def)

definition mounting :: "'p drv \<Rightarrow> HDD_MOUNT_STATUS \<times> string \<times> string list" where
  "mounting s = (mount_status s, mountString s, mounted_names (events s))"

text \<open>A library call that mounts or unmounts nothing; the other operations of the drivers make no other.\<close>

definition no_mount :: "lib_call \<Rightarrow> bool" where
  "no_mount c \<longleftrightarrow> (\<forall>r ms. mount_next (Lib c r) ms = ms)"

lemma no_mount_calls [simp]:
  "no_mount (SifUnloadModule n)" "no_mount FileXioInit" "no_mount FileXioExit" "no_mount (FileXioDevctl d c)"
  "no_mount PoweroffInit" "no_mount (PoweroffSetCallback h)" "no_mount PoweroffShutdown" "no_mount (Usleep k)"
  "no_mount (Stat path)" "no_mount Nopdelay" "no_mount (Chdir path)" "no_mount SifInitRpc" "no_mount SifIopReset"
  "no_mount SifIopSync" "no_mount Sbv_patch_enable_lmb" "no_mount Sbv_patch_disable_prefix_check" "no_mount (Sleep k)"
  by (simp_all add: no_mount_def)

lemma mounting_lib [simp]: "no_mount c \<Longrightarrow> mounting (snd (lib env c s)) = mounting s"
  by (simp add: mounting_def no_mount_def lib_def Let_def)

lemma mounting_update [simp]:
  "mounting (s\<lparr>prov := p\<rparr>) = mounting s" "mounting (s\<lparr>slots := v\<rparr>) = mounting s" "mounting (s\<lparr>cwd_path := c\<rparr>) = mounting s"
  "mounting (s\<lparr>fileXio_init_status := x1\<rparr>) = mounting s" "mounting (s\<lparr>memcard_init_status := x2\<rparr>) = mounting s"
  "mounting (s\<lparr>bdm_init_status := x3\<rparr>) = mounting s" "mounting (s\<lparr>usbd_init_status := x4\<rparr>) = mounting s"
  "mounting (s\<lparr>usb_init_status := x5\<rparr>) = mounting s" "mounting (s\<lparr>dev9_init_status := x6\<rparr>) = mounting s"
  "mounting (s\<lparr>hdd_init_status := x7\<rparr>) = mounting s" "mounting (s\<lparr>poweroff_init_status := x8\<rparr>) = mounting s"
  "mounting (s\<lparr>sio2man_init_status := x9\<rparr>) = mounting s"
  by (simp_all add: mounting_def)

lemma mounting_load [simp]:
  "mounting (snd (load_irx env m a s)) = mounting s"
  "mounting (snd (load_irxs env ms ok s)) = mounting s"
proof -
  show load: "mounting (snd (load_irx env m a s)) = mounting s" for m a and s :: "'a drv"
    by (simp add: load_irx_def mounting_def case_prod_unfold Let_def)
  show "mounting (snd (load_irxs env ms ok s)) = mounting s"
    using load by (induction ms arbitrary: s) (auto simp: case_prod_unfold Let_def)
qed

lemma mounting_unload [simp]: "mounting (unload_irxs env ms s) = mounting s"
  unfolding unload_irxs_def
  by (induction ms arbitrary: s) (simp_all add: unload_irx_def Let_def)

lemma mounting_dependency:
  "(\<And>s. mounting (snd (init s)) = mounting s) \<Longrightarrow> mounting (snd (dependency b init failed s)) = mounting s"
  by (simp add: dependency_def case_prod_unfold Let_def)

lemma mounting_init [simp]:
  "mounting (snd (init_sio2man_driver env s)) = mounting s"
  "mounting (snd (init_fileXio_driver env s)) = mounting s"
  "mounting (snd (init_bdm_driver env s)) = mounting s"
  "mounting (snd (init_usbd_driver env s)) = mounting s"
  "mounting (snd (init_dev9_driver env s)) = mounting s"
  "mounting (snd (init_poweroff_driver env s)) = mounting s"
  by (simp_all add: case_prod_unfold Let_def init_sio2man_driver_def loadIRXs_sio2man_def init_fileXio_driver_def
      loadIRXs_fileXio_def initLibraries_fileXio_def init_bdm_driver_def loadIRXs_bdm_def
      init_usbd_driver_def loadIRXs_usbd_def
      init_dev9_driver_def loadIRXs_dev9_def init_poweroff_driver_def loadIRXs_poweroff_def
      initLibraries_poweroff_def del: load_irxs.simps)

lemma mounting_init_dependent [simp]:
  "mounting (snd (init_memcard_driver env b s)) = mounting s"
  "mounting (snd (init_usb_driver env b s)) = mounting s"
  "mounting (snd (init_hdd_driver env b c s)) = mounting s"
  by (simp_all add: case_prod_unfold Let_def mounting_dependency init_memcard_driver_def loadIRXs_memcard_def
      init_usb_driver_def loadIRXs_usb_def init_hdd_driver_def loadIRXs_hdd_def hddCheck_def del: load_irxs.simps)

lemma mounting_after_tries [simp]: "mounting (after_tries env n s) = mounting s"
  by (induction n arbitrary: s) (simp_all add: after_tries_Suc, simp_all add: after_tries_def try_off_def)

lemma mounting_dev9_off_loop: "dev9_off_loop env s = Some t \<Longrightarrow> mounting t = mounting s"
  by (auto dest!: dev9_off_loop_result)

lemma mounting_deinit_hdd: "deinit_hdd_driver env b s = Some t \<Longrightarrow> mounting t = mounting s"
  by (auto simp: deinit_defs Let_def dest!: mounting_dev9_off_loop split: if_splits)

lemma mounting_await:
  assumes "await env c s = Some t" "no_mount c"
  shows "mounting t = mounting s"
proof -
  have "no_mount c \<longrightarrow> mounting t = mounting s"
  proof (rule await.raw_induct [where P = "\<lambda>env c s t. no_mount c \<longrightarrow> mounting t = mounting s", OF _ assms(1)], goal_cases)
    case (1 loop env c s t)
    then show ?case
      using mounting_lib [of c env s] by (auto simp: Let_def case_prod_unfold split: if_splits)
  qed
  with assms(2) show ?thesis by simp
qed

lemma mounting_reset_iop: "reset_iop env reboot s = Some t \<Longrightarrow> mounting t = mounting s"
  by (auto simp: reset_iop_def dest!: mounting_await split: option.splits)

lemma mounting_wait [simp]: "mounting (snd (waitUntilDeviceIsReady env path s)) = mounting s"
proof -
  have "mounting (snd (wait_ready env path n ret s)) = mounting s" for n ret
    by (induction n arbitrary: ret s) (auto simp: case_prod_unfold Let_def)
  then show ?thesis
    by (simp add: waitUntilDeviceIsReady_def case_prod_unfold Let_def)
qed

text \<open>
  Mounting adds the remembered name or nothing, and unmounting takes it away again. \<open>mounted_once ms s\<close>: in
  \<open>s\<close>, what is mounted are \<open>ms\<close> and, when the status says so, what the program mounted.
\<close>

definition mounted_once :: "string list \<Rightarrow> 'p drv \<Rightarrow> bool" where
  "mounted_once ms s \<longleftrightarrow>
     mounted_names (events s) = (if mount_status s = HDD_MOUNT_STATUS_OK then mountString s # ms else ms)"

lemma mounted_once_mounting: "mounting t = mounting s \<Longrightarrow> mounted_once ms t = mounted_once ms s"
  by (simp add: mounting_def mounted_once_def)

lemma mount_mounts:
  assumes "mount_current_hdd_partition env w s = Some (st, w', t)" "mount_status s \<noteq> HDD_MOUNT_STATUS_OK"
    "mounted_names (events s) = ms"
  shows "mounted_once ms t"
  using assms by (auto simp: mount_current_hdd_partition_def mounted_once_def chdir_def lib_def Let_def
      split: if_splits option.splits)

lemma umount_unmounts: "mount_status (umount_current_hdd_partition env s) \<noteq> HDD_MOUNT_STATUS_OK"
  by (simp add: umount_current_hdd_partition_def umount_hdd_partition_def Let_def)

lemma umount_mounted:
  "mounted_names (events (umount_current_hdd_partition env s)) =
     (if mount_status s = HDD_MOUNT_STATUS_OK then remove1 (mountString s) (mounted_names (events s)) else mounted_names (events s))"
  by (simp add: umount_current_hdd_partition_def umount_hdd_partition_def lib_def Let_def)

lemma umount_mounted_once:
  "mounted_once ms s \<Longrightarrow> mounted_names (events (umount_current_hdd_partition env s)) = ms"
  by (simp add: umount_mounted mounted_once_def)

subsection \<open>What is released\<close>

definition listdir_modules :: "irx set" where
  "listdir_modules = {POWEROFF, IOMANX, FILEXIO, SIO2MAN, MCMAN, MCSERV, BDM, BDMFS_FATFS, USBD, USBMASS_BD,
     PS2ATAD, PS2HDD, PS2FS}"

definition hdd_sample_modules :: "irx set" where
  "hdd_sample_modules = {IOMANX, FILEXIO, PS2DEV9, BDM, BDMFS_FATFS, PS2ATAD, PS2HDD, PS2FS}"

lemma umount_slots [simp]: "slots (umount_current_hdd_partition env s) = slots s"
  by (simp add: umount_current_hdd_partition_def umount_hdd_partition_def lib_def Let_def)

lemma slots_waitUntil [simp]: "slots (snd (waitUntilDeviceIsReady env path s)) = slots s"
  using ran_waitUntil [OF ran_refl, of env "{}" "{}" s path] by (auto simp: ran_def)

lemma listdir_init_ran:
  assumes "listdir_init_drivers env w s = Some (w', t)"
  shows "ran env listdir_modules listdir_modules s t"
proof -
  define s6 where "s6 = snd (lib env (PoweroffSetCallback Handler_program) (snd (init_hdd_driver env False False
      (snd (init_usb_driver env True (snd (init_memcard_driver env True (snd (init_fileXio_driver env
      (snd (init_poweroff_driver env s)))))))))))"
  have "ran env listdir_modules listdir_modules s s6"
    unfolding s6_def
    by (intro ran_intros(1) init_hdd_ran init_usb_ran init_memcard_ran init_fileXio_ran init_poweroff_ran ran_refl)
      (auto intro: may_load_self simp: listdir_modules_def)
  with assms show ?thesis
    by (auto simp: listdir_init_drivers_def s6_def Let_def intro: ran_mount)
qed

lemma prepare_for_exit_slots:
  obtains t where "prepare_for_exit env p s = Some t"
    "\<And>m. slots t m = (if m \<in> (if p then listdir_modules else listdir_modules - {POWEROFF}) \<and> CHECK_IRX_UNLOAD (slots s m)
       then reset_slot else slots s m)"
proof -
  have no: "\<not> CHECK_IRX_UNLOAD reset_slot"
    by (simp add: slot_defs)
  obtain t where t: "prepare_for_exit env p s = Some t"
    by (simp add: prepare_for_exit_def listdir_deinit_drivers_def deinit_hdd_driver_def Let_def)
  moreover have "slots t m = (if m \<in> (if p then listdir_modules else listdir_modules - {POWEROFF}) \<and> CHECK_IRX_UNLOAD (slots s m)
       then reset_slot else slots s m)" for m
    using t no by (cases p) (auto simp: prepare_for_exit_def listdir_deinit_drivers_def deinit_defs unload_irxs_slot
        listdir_modules_def Let_def)
  ultimately show thesis
    using that by blast
qed

text \<open>A state after \<open>s\<close> whose slots in \<open>M\<close> were reset when they said loaded holds no module of \<open>M\<close>.\<close>

lemma released_all:
  assumes "\<forall>m. slots s m = reset_slot" "ran env M M s t"
    "\<And>m. slots u m = (if m \<in> M \<and> CHECK_IRX_UNLOAD (slots t m) then reset_slot else slots t m)"
  shows "\<not> CHECK_IRX_UNLOAD (slots u m)"
proof (cases "m \<in> M")
  case True
  then show ?thesis
    using assms(3) [of m] by (auto simp: slot_defs)
next
  case False
  then have "slots t m = reset_slot"
    using assms(1,2) by (simp add: ran_def)
  with False assms(3) [of m] show ?thesis
    by (simp add: slot_defs)
qed

lemma listdir_sample_released:
  assumes "listdir_sample_main dk env reboot w s = Some e" "\<forall>m. slots s m = reset_slot"
  shows "\<not> CHECK_IRX_UNLOAD (slots (end_drivers e) m)"
proof -
  obtain s1 w2 s2 where s1: "reset_iop env reboot s = Some s1" and s2: "listdir_init_drivers env w s1 = Some (w2, s2)"
    using assms(1) by (auto simp: listdir_sample_main_def split: option.splits)
  define s3 where "s3 = snd (waitUntilDeviceIsReady env (cwd_path s2) s2)"
  obtain t where t: "prepare_for_exit env True s3 = Some t"
    "\<And>m. slots t m = (if m \<in> listdir_modules \<and> CHECK_IRX_UNLOAD (slots s3 m) then reset_slot else slots s3 m)"
    by (rule prepare_for_exit_slots [of env True s3]) simp
  have reset: "\<forall>m. slots s1 m = reset_slot"
    using reset_iop_effect [OF s1] assms(2) by (simp add: silent_def)
  have "ran env listdir_modules listdir_modules s1 s3"
    unfolding s3_def by (rule ran_waitUntil [OF listdir_init_ran [OF s2]])
  note released_all [OF reset this t(2)]
  moreover have "slots (end_drivers e) = slots t"
    using assms(1) s1 s2 t(1)
    by (auto simp: listdir_sample_main_def s3_def case_prod_beta Let_def split: if_splits)
  ultimately show ?thesis by simp
qed

lemma hdd_sample_released:
  assumes "hdd_sample_main dk env reboot w s = Some e" "\<forall>m. slots s m = reset_slot"
  shows "\<not> CHECK_IRX_UNLOAD (slots (end_drivers e) m)"
proof -
  obtain s1 st w3 s3 where s1: "reset_iop env reboot s = Some s1"
    and s3: "mount_current_hdd_partition env w (snd (init_hdd_driver env True True s1)) = Some (st, w3, s3)"
    using assms(1) by (auto simp: hdd_sample_main_def Let_def split: option.splits)
  define s4 where "s4 = umount_current_hdd_partition env s3"
  obtain t where t: "deinit_hdd_driver env True s4 = Some t" "slots (end_drivers e) = slots t"
    using assms(1) s1 s3 by (auto simp: hdd_sample_main_def s4_def case_prod_beta Let_def)
  have reset: "\<forall>m. slots s1 m = reset_slot"
    using reset_iop_effect [OF s1] assms(2) by (simp add: silent_def)
  have "ran env hdd_sample_modules hdd_sample_modules s1 (snd (init_hdd_driver env True True s1))"
    by (intro init_hdd_ran ran_refl) (auto intro: may_load_self simp: hdd_sample_modules_def)
  from ran_mount [OF s3 this] have ran: "ran env hdd_sample_modules hdd_sample_modules s1 s3" .
  have no: "\<not> CHECK_IRX_UNLOAD reset_slot"
    by (simp add: slot_defs)
  have "slots t m = (if m \<in> hdd_sample_modules \<and> CHECK_IRX_UNLOAD (slots s3 m) then reset_slot else slots s3 m)" for m
    using t(1) no by (auto simp: s4_def deinit_defs unload_irxs_slot hdd_sample_modules_def Let_def
        dest!: slots_dev9_off_loop split: if_splits)
  from released_all [OF reset ran this] t(2) show ?thesis
    by simp
qed

text \<open>The unmounting comes before the releases, which mount and unmount nothing.\<close>

lemma mounting_deinit [simp]:
  "mounting (deinit_usb_driver env b s) = mounting s"
  "mounting (deinit_memcard_driver env b s) = mounting s"
  "mounting (deinit_fileXio_driver env s) = mounting s"
  "mounting (deinit_poweroff_driver env s) = mounting s"
  by (simp_all add: deinit_defs Let_def)

lemma mounting_prepare_for_exit:
  "prepare_for_exit env p s = Some t \<Longrightarrow> mounting t = mounting (umount_current_hdd_partition env s)"
  by (auto simp: prepare_for_exit_def listdir_deinit_drivers_def Let_def dest!: mounting_deinit_hdd split: option.splits)

lemma mounting_listdir_init:
  assumes "listdir_init_drivers env w s = Some (w', t)" "mount_status s \<noteq> HDD_MOUNT_STATUS_OK"
  shows "mounted_once (mounted_names (events s)) t"
proof -
  define s6 where "s6 = snd (lib env (PoweroffSetCallback Handler_program) (snd (init_hdd_driver env False False
      (snd (init_usb_driver env True (snd (init_memcard_driver env True (snd (init_fileXio_driver env
      (snd (init_poweroff_driver env s)))))))))))"
  have "mounting s6 = mounting s"
    by (simp add: s6_def)
  then have "mount_status s6 \<noteq> HDD_MOUNT_STATUS_OK" "mounted_names (events s6) = mounted_names (events s)"
    using assms(2) by (simp_all add: mounting_def)
  with assms(1) show ?thesis
    by (auto simp: listdir_init_drivers_def s6_def Let_def intro: mount_mounts)
qed

text \<open>Both programs end with nothing mounted that was not before.\<close>

lemma unmounted_all:
  assumes "mounting t = mounting (umount_current_hdd_partition env s)" "mounted_once ms s"
  shows "mount_status t \<noteq> HDD_MOUNT_STATUS_OK" "mounted_names (events t) = ms"
  using assms umount_unmounts [of env s] umount_mounted_once [OF assms(2)] by (simp_all add: mounting_def)

lemma listdir_sample_unmounts:
  assumes "listdir_sample_main dk env reboot w s = Some e" "mount_status s \<noteq> HDD_MOUNT_STATUS_OK"
  shows "mount_status (end_drivers e) \<noteq> HDD_MOUNT_STATUS_OK \<and> mounted_names (events (end_drivers e)) = mounted_names (events s)"
proof -
  obtain s1 w2 s2 where s1: "reset_iop env reboot s = Some s1" and s2: "listdir_init_drivers env w s1 = Some (w2, s2)"
    using assms(1) by (auto simp: listdir_sample_main_def split: option.splits)
  define s3 where "s3 = snd (waitUntilDeviceIsReady env (cwd_path s2) s2)"
  obtain t where t: "prepare_for_exit env True s3 = Some t" "end_drivers e = snd (lib env (Sleep 10) t)"
    using assms(1) s1 s2 by (auto simp: listdir_sample_main_def s3_def case_prod_beta Let_def split: if_splits)
  have "mount_status s1 \<noteq> HDD_MOUNT_STATUS_OK" "mounted_names (events s1) = mounted_names (events s)"
    using mounting_reset_iop [OF s1] assms(2) by (simp_all add: mounting_def)
  with mounting_listdir_init [OF s2] have "mounted_once (mounted_names (events s)) s3"
    using mounted_once_mounting [of s3 s2] by (simp add: s3_def)
  moreover have "mounting (end_drivers e) = mounting (umount_current_hdd_partition env s3)"
    using mounting_prepare_for_exit [OF t(1)] t(2) by simp
  ultimately show ?thesis
    using unmounted_all by blast
qed

lemma hdd_sample_unmounts:
  assumes "hdd_sample_main dk env reboot w s = Some e" "mount_status s \<noteq> HDD_MOUNT_STATUS_OK"
  shows "mount_status (end_drivers e) \<noteq> HDD_MOUNT_STATUS_OK \<and> mounted_names (events (end_drivers e)) = mounted_names (events s)"
proof -
  obtain s1 st w3 s3 where s1: "reset_iop env reboot s = Some s1"
    and s3: "mount_current_hdd_partition env w (snd (init_hdd_driver env True True s1)) = Some (st, w3, s3)"
    using assms(1) by (auto simp: hdd_sample_main_def Let_def split: option.splits)
  obtain t where t: "deinit_hdd_driver env True (umount_current_hdd_partition env s3) = Some t"
      "end_drivers e = snd (lib env (Sleep 5) t)"
    using assms(1) s1 s3 by (auto simp: hdd_sample_main_def case_prod_beta Let_def)
  have "mounting (snd (init_hdd_driver env True True s1)) = mounting s"
    using mounting_reset_iop [OF s1] by simp
  then have "mounted_once (mounted_names (events s)) s3"
    using assms(2) by (intro mount_mounts [OF s3]) (simp_all add: mounting_def)
  moreover have "mounting (end_drivers e) = mounting (umount_current_hdd_partition env s3)"
    using mounting_deinit_hdd [OF t(1)] t(2) by simp
  ultimately show ?thesis
    using unmounted_all by blast
qed

text \<open>The program's own handler of the power-off button unmounts first, and asks a module that is still loaded.\<close>

lemma umount_first:
  "\<exists>es. events (umount_current_hdd_partition env s) = events s @ es \<and>
     (mount_status s = HDD_MOUNT_STATUS_OK \<longrightarrow> (\<exists>r es'. es = Lib (FileXioUmount (mountString s)) r # es'))"
  by (simp add: umount_current_hdd_partition_def umount_hdd_partition_def lib_def Let_def)

lemma listdir_handler:
  obtains t where "listdir_poweroffHandler env s = Some t" "slots t POWEROFF = slots s POWEROFF"
    "\<And>m. m \<noteq> POWEROFF \<Longrightarrow> m \<in> listdir_modules \<Longrightarrow> \<not> CHECK_IRX_UNLOAD (slots t m)"
    "\<exists>es r. events t = events (umount_current_hdd_partition env s) @ es @ [Lib PoweroffShutdown r]"
    "mounting t = mounting (umount_current_hdd_partition env s)"
proof -
  obtain t where t: "prepare_for_exit env False s = Some t"
    "\<And>m. slots t m = (if m \<in> listdir_modules - {POWEROFF} \<and> CHECK_IRX_UNLOAD (slots s m) then reset_slot else slots s m)"
    by (rule prepare_for_exit_slots [of env False s]) simp
  have "ran env {} UNIV (umount_current_hdd_partition env s) t"
    using t(1) ran_deinit(6) [OF ran_refl]
    by (auto simp: prepare_for_exit_def listdir_deinit_drivers_def Let_def intro!: ran_deinit(2-4) split: option.splits)
  then obtain es where es: "events t = events (umount_current_hdd_partition env s) @ es"
    by (auto simp: ran_def)
  show thesis
  proof (rule that)
    show "listdir_poweroffHandler env s = Some (snd (lib env PoweroffShutdown t))"
      by (simp add: listdir_poweroffHandler_def t(1))
    show "slots (snd (lib env PoweroffShutdown t)) POWEROFF = slots s POWEROFF"
      by (simp add: t(2))
    show "\<not> CHECK_IRX_UNLOAD (slots (snd (lib env PoweroffShutdown t)) m)"
      if "m \<noteq> POWEROFF" "m \<in> listdir_modules" for m
      using that by (simp add: t(2) slot_defs)
    show "\<exists>es r. events (snd (lib env PoweroffShutdown t)) =
        events (umount_current_hdd_partition env s) @ es @ [Lib PoweroffShutdown r]"
      by (simp add: es lib_def Let_def)
    show "mounting (snd (lib env PoweroffShutdown t)) = mounting (umount_current_hdd_partition env s)"
      using mounting_prepare_for_exit [OF t(1)] by simp
  qed
qed

text \<open>With libraries that answer both programs end, when mounting does not abort them.\<close>

lemma disk_samples_end:
  assumes "libraries_work (answer env)"
  shows "\<exists>e. listdir_sample_main dk env reboot (mount_start [False]) s = Some e"
    and "\<exists>e. hdd_sample_main dk env reboot (mount_start [False]) s = Some e"
proof -
  obtain s1 where s1: "reset_iop env reboot s = Some s1"
    using reset_iop_returns [OF assms] by blast
  have "prepare_for_exit env True t \<noteq> None" for t
    by (rule prepare_for_exit_slots [of env True t]) simp
  then show "\<exists>e. listdir_sample_main dk env reboot (mount_start [False]) s = Some e"
    using mount_without_memory s1
    by (auto simp: listdir_sample_main_def listdir_init_drivers_def case_prod_beta Let_def split: option.splits)
  have "deinit_hdd_driver env True t \<noteq> None" for t
    using dev9_off_loop_accepting [of env] assms
    by (auto simp: deinit_hdd_driver_def deinit_dev9_driver_def libraries_work_def Let_def)
  then show "\<exists>e. hdd_sample_main dk env reboot (mount_start [False]) s = Some e"
    using mount_without_memory s1
    by (auto simp: hdd_sample_main_def case_prod_beta Let_def split: option.splits)
qed

end
