(* ===== verification/Media_Samples.thy ===== *)
theory Media_Samples
  imports Disk_Samples
begin

text \<open>
  The remaining programs of src/samples: wav_sample plays a file in a loop, showiopinfo_sample adds up the
  sizes of the modules on the I/O processor, and basic_elf_loader starts another program. The
  libraries for sound, for the list of modules and for loading programs are parameters.
\<close>

subsection \<open>Playing a file\<close>

datatype audio_call =
    Audsrv_set_format nat nat nat
  | Audsrv_set_volume nat
  | Audsrv_wait_audio nat
  | Audsrv_play_audio "u8 list"

text \<open>
  How the library reads the file: the bytes that a call of \<^verbatim>\<open>fread\<close>, by its number, brings at most, and where
  the position is after a call of \<^verbatim>\<open>fseek\<close> that fails.
\<close>

record wav_io =
  brings :: "nat \<Rightarrow> nat"
  astray :: "nat \<Rightarrow> nat option"

definition fseek_to :: "wav_io \<Rightarrow> nat \<Rightarrow> nat \<Rightarrow> nat" where
  "fseek_to io i target = (case astray io i of None \<Rightarrow> target | Some pos \<Rightarrow> pos)"

text \<open>
  The loop, over the turns that are left of 512, from call number \<open>i\<close>. After any read that does not fill the
  buffer, at the end of the file or before, the position goes back to the end of the header.
\<close>

primrec play_loop :: "wav_io \<Rightarrow> nat \<Rightarrow> u8 list \<Rightarrow> nat \<Rightarrow> nat \<Rightarrow> audio_call list" where
  "play_loop io 0 wav i pos = []"
| "play_loop io (Suc turns) wav i pos =
     (let chunk = take (brings io i) (bytes_at pos 2048 wav);
          ret = length chunk;
          pos1 = pos + ret
      in (if ret > 0 then [Audsrv_wait_audio ret, Audsrv_play_audio chunk] else [])
         @ play_loop io turns wav (i + 1) (if ret < 2048 then fseek_to io (i + 1) 0x30 else pos1))"

definition prepare_IOP :: "'p drv_env \<Rightarrow> 'p drv \<Rightarrow> 'p drv" where
  "prepare_IOP env s =
     snd (lib env Sbv_patch_disable_prefix_check (snd (lib env Sbv_patch_enable_lmb (snd (lib env SifInitRpc s)))))"

text \<open>The file is found or not; \<open>max_volume\<close> is the number of the library.\<close>

definition wav_sample_main ::
  "nat \<Rightarrow> (string \<Rightarrow> u8 list option) \<Rightarrow> wav_io \<Rightarrow> 'p drv_env \<Rightarrow> 'p drv \<Rightarrow> int \<times> audio_call list \<times> 'p drv" where
  "wav_sample_main max_volume fs io env s =
     (let s1 = snd (init_audio_driver env (prepare_IOP env s));
          start = [Audsrv_set_format 16 22050 2, Audsrv_set_volume max_volume]
      in case fs ''host:song_22k.wav'' of
           None \<Rightarrow> (1, start, snd (lib env Audsrv_quit s1))
         | Some wav \<Rightarrow> (0, start @ play_loop io 512 wav 0 (fseek_to io 0 0x30), snd (lib env Audsrv_quit s1)))"

subsection \<open>The modules on the I/O processor\<close>

text \<open>\<open>name_at\<close> is the address of the name on the other processor.\<close>

record mod_info =
  name_at :: u32
  text_start :: u32
  text_size :: u32
  data_size :: u32
  bss_size :: u32

text \<open>\<open>next_mod\<close> is \<^verbatim>\<open>smod_get_next_mod\<close>, from nothing or from the module it gave last; \<open>smem\<close> are 20 bytes of memory.\<close>

record smod =
  next_mod :: "mod_info option \<Rightarrow> mod_info option"
  smem :: "u32 \<Rightarrow> u8 list"

record mod_totals =
  txtsz_total :: u32
  dtasz_total :: u32
  bsssz_total :: u32

definition mod_line :: "smod \<Rightarrow> mod_info \<Rightarrow> u8 list \<times> u32 \<times> u32 \<times> u32 \<times> u32" where
  "mod_line sm i =
     (takeWhile (\<lambda>b. b \<noteq> 0) (take 20 (smem sm (name_at i))), text_start i, text_size i, data_size i, bss_size i)"

definition add_mod :: "mod_info \<Rightarrow> mod_totals \<Rightarrow> mod_totals" where
  "add_mod i t =
     \<lparr>txtsz_total = txtsz_total t + text_size i, dtasz_total = dtasz_total t + data_size i,
      bsssz_total = bsssz_total t + bss_size i\<rparr>"

partial_function (option) print_modules ::
  "smod \<Rightarrow> mod_info option \<Rightarrow> mod_totals \<Rightarrow> (u8 list \<times> u32 \<times> u32 \<times> u32 \<times> u32) list \<Rightarrow>
   ((u8 list \<times> u32 \<times> u32 \<times> u32 \<times> u32) list \<times> mod_totals) option" where
  "print_modules sm prev t shown =
     (case next_mod sm prev of
        None \<Rightarrow> Some (shown, t)
      | Some info \<Rightarrow> print_modules sm (Some info) (add_mod info t) (shown @ [mod_line sm info]))"

text \<open>
  The outer loop ends when the inner one has. What is printed: the lines, the three totals, their
  sum, and that in KiB.
\<close>

definition print_iop_modules ::
  "smod \<Rightarrow> ((u8 list \<times> u32 \<times> u32 \<times> u32 \<times> u32) list \<times> mod_totals \<times> u32 \<times> u32) option" where
  "print_iop_modules sm =
     map_option (\<lambda>(shown, t).
         let total = txtsz_total t + dtasz_total t + bsssz_total t in (shown, t, total, total div 1024))
       (print_modules sm None \<lparr>txtsz_total = 0, dtasz_total = 0, bsssz_total = 0\<rparr> [])"

definition showiopinfo_init_drivers ::
  "'p drv_env \<Rightarrow> mount_world \<Rightarrow> 'p drv \<Rightarrow> (mount_world \<times> 'p drv) option" where
  "showiopinfo_init_drivers env w s =
     map_option (apsnd (\<lambda>t. snd (init_audio_driver env t))) (init_ps2_filesystem_driver env w s)"

definition showiopinfo_deinit_drivers :: "'p drv_env \<Rightarrow> 'p drv \<Rightarrow> 'p drv option" where
  "showiopinfo_deinit_drivers env s = deinit_ps2_filesystem_driver env (deinit_audio_driver env s)"

definition showiopinfo_sample_main ::
  "smod \<Rightarrow> 'p drv_env \<Rightarrow> ('p \<Rightarrow> 'p) \<Rightarrow> mount_world \<Rightarrow> 'p drv \<Rightarrow>
   (int \<times> 'p drv \<times> (u8 list \<times> u32 \<times> u32 \<times> u32 \<times> u32) list \<times> mod_totals \<times> u32 \<times> u32) option" where
  "showiopinfo_sample_main sm env reboot w s =
     (case reset_iop env reboot s of
        None \<Rightarrow> None
      | Some s1 \<Rightarrow>
          case showiopinfo_init_drivers env w s1 of
            None \<Rightarrow> None
          | Some (w2, s2) \<Rightarrow>
              let s3 = snd (lib env (Sleep 5) s2) in
              case print_iop_modules sm of
                None \<Rightarrow> None
              | Some out \<Rightarrow>
                  map_option (\<lambda>t. (0, snd (lib env SleepThread t), out)) (showiopinfo_deinit_drivers env s3))"

subsection \<open>Starting a program\<close>

text \<open>The first line of a file, with its end, up to the size of the buffer; an empty file gives nothing.\<close>

definition fgets :: "nat \<Rightarrow> string \<Rightarrow> string option" where
  "fgets n text =
     (let line = takeWhile (\<lambda>c. c \<noteq> CHR 0x0A) text;
          stop = (if length line < length text then [CHR 0x0A] else [])
      in if text = [] then None else Some (take (n - 1) (line @ stop)))"

text \<open>
  \<open>PATH_MAX\<close> is the size of the buffer and \<open>stack\<close> what is in it before; \<open>load_elf\<close> tells whether the loader
  replaces the program, which does not return then.
\<close>

datatype 'p loader_end =
    Replaced string "'p drv"
  | Came_back string "'p drv"

definition basic_elf_loader_main ::
  "nat \<Rightarrow> string \<Rightarrow> (string \<Rightarrow> string option) \<Rightarrow> (string \<Rightarrow> bool) \<Rightarrow> 'p drv_env \<Rightarrow> ('p \<Rightarrow> 'p) \<Rightarrow> mount_world \<Rightarrow> 'p drv \<Rightarrow>
   'p loader_end option" where
  "basic_elf_loader_main PATH_MAX stack fs load_elf env reboot w s =
     (case reset_iop env reboot s of
        None \<Rightarrow> None
      | Some s1 \<Rightarrow>
          case init_ps2_filesystem_driver env w s1 of
            None \<Rightarrow> None
          | Some (w2, s2) \<Rightarrow>
              let elf_path = (case fs ''elf_path.ini'' of
                     None \<Rightarrow> stack
                   | Some text \<Rightarrow> (case fgets PATH_MAX text of None \<Rightarrow> stack | Some line \<Rightarrow> line));
                  s3 = snd (waitUntilDeviceIsReady env elf_path s2)
              in if load_elf elf_path then Some (Replaced elf_path s3)
                 else map_option (Came_back elf_path) (deinit_ps2_filesystem_driver env s3))"

subsection \<open>The sound\<close>

fun sound :: "audio_call list \<Rightarrow> u8 list" where
  "sound [] = []"
| "sound (Audsrv_play_audio chunk # cs) = chunk @ sound cs"
| "sound (_ # cs) = sound cs"

lemma sound_append [simp]: "sound (cs @ ds) = sound cs @ sound ds"
  by (induction cs rule: sound.induct) simp_all

text \<open>Whatever the library does, what is played are pieces of the file, and not of its header when it seeks.\<close>

definition played :: "u8 list \<Rightarrow> audio_call list" where
  "played chunk = [Audsrv_wait_audio (length chunk), Audsrv_play_audio chunk]"

lemma play_loop_chunks:
  "\<exists>chunks. play_loop io turns wav i pos = concat (map played chunks) \<and> length chunks \<le> turns \<and>
     (\<forall>c \<in> set chunks. c \<noteq> [] \<and> length c \<le> 2048 \<and>
        ((\<forall>i. astray io i = None) \<and> 0x30 \<le> pos \<longrightarrow> (\<exists>k \<ge> 0x30. c = bytes_at k (length c) wav)))"
proof (induction turns arbitrary: i pos)
  case 0
  then show ?case by simp
next
  case (Suc turns)
  define c where "c = take (brings io i) (bytes_at pos 2048 wav)"
  define pos1 where "pos1 = (if length c < 2048 then fseek_to io (i + 1) 0x30 else pos + length c)"
  have rest: "play_loop io (Suc turns) wav i pos = (if c = [] then [] else played c) @ play_loop io turns wav (i + 1) pos1"
    by (simp add: c_def pos1_def played_def Let_def)
  obtain cs where cs: "play_loop io turns wav (i + 1) pos1 = concat (map played cs)" "length cs \<le> turns"
      "\<forall>c \<in> set cs. c \<noteq> [] \<and> length c \<le> 2048 \<and>
        ((\<forall>i. astray io i = None) \<and> 0x30 \<le> pos1 \<longrightarrow> (\<exists>k \<ge> 0x30. c = bytes_at k (length c) wav))"
    using Suc.IH [of "i + 1" pos1] by blast
  have "c = bytes_at pos (length c) wav" "length c \<le> 2048"
    by (simp_all add: c_def bytes_at_def min_def)
  moreover have "0x30 \<le> pos1" if "\<forall>i. astray io i = None" "0x30 \<le> pos"
    using that by (simp add: pos1_def fseek_to_def)
  ultimately show ?case
    using cs unfolding rest by (intro exI [of _ "(if c = [] then [] else [c]) @ cs"]) auto
qed

text \<open>A library that fills the buffer before the end of the file, and seeks. The calls need no number then.\<close>

definition steady :: "wav_io \<Rightarrow> bool" where
  "steady io \<longleftrightarrow> (\<forall>i. 2048 \<le> brings io i \<and> astray io i = None)"

lemma steady_chunk: "steady io \<Longrightarrow> take (brings io i) (bytes_at pos 2048 wav) = bytes_at pos 2048 wav"
  by (simp add: steady_def min.coboundedI1)

lemma steady_seek: "steady io \<Longrightarrow> fseek_to io i target = target"
  by (simp add: steady_def fseek_to_def)

lemma steady_number: "steady io \<Longrightarrow> play_loop io turns wav i pos = play_loop io turns wav 0 pos"
proof (induction turns arbitrary: i pos)
  case (Suc turns)
  then have "play_loop io turns wav (i + 1) p = play_loop io turns wav (0 + 1) p" for p
    by metis
  with Suc.prems show ?case
    by (simp only: play_loop.simps steady_chunk steady_seek)
qed simp

lemma sound_turn:
  "steady io \<Longrightarrow> sound (play_loop io (Suc turns) wav 0 pos) =
     bytes_at pos 2048 wav @
     sound (play_loop io turns wav 0 (if length wav - pos < 2048 then 0x30 else pos + 2048))"
proof -
  assume io: "steady io"
  have "bytes_at pos 2048 wav = [] \<longleftrightarrow> length wav - pos = 0"
    by (simp add: bytes_at_def)
  then show ?thesis
    using io by (auto simp: Let_def min_def steady_chunk steady_seek steady_number [OF io, of turns wav "Suc 0"])
qed

declare play_loop.simps(2) [simp del]

text \<open>Turns that stay inside of one pass through the data, and a whole pass.\<close>

lemma sound_within:
  "steady io \<Longrightarrow> turns \<le> (length wav - pos) div 2048 \<Longrightarrow> sound (play_loop io turns wav 0 pos) = bytes_at pos (2048 * turns) wav"
proof (induction turns arbitrary: pos)
  case 0
  then show ?case by (simp add: bytes_at_def)
next
  case (Suc turns)
  have "Suc turns \<le> (length wav - pos) div 2048"
    by (rule Suc.prems(2))
  then have room: "2048 \<le> length wav - pos"
    by (metis Suc_leD div_greater_zero_iff less_eq_Suc_le zero_less_Suc le_trans not_less_eq_eq One_nat_def)
  have "turns \<le> (length wav - (pos + 2048)) div 2048"
    using Suc.prems(2) room by (metis Suc_le_mono diff_diff_left le_div_geq zero_less_numeral)
  from Suc.IH [OF Suc.prems(1) this] have "sound (play_loop io (Suc turns) wav 0 pos) =
      bytes_at pos 2048 wav @ bytes_at (pos + 2048) (2048 * turns) wav"
    using room by (simp only: sound_turn [OF Suc.prems(1)]) simp
  also have "\<dots> = bytes_at pos (2048 * Suc turns) wav"
    by (simp add: bytes_at_def take_add add.commute)
  finally show ?case .
qed

lemma sound_pass:
  assumes "steady io"
  shows "sound (play_loop io ((length wav - pos) div 2048 + Suc turns) wav 0 pos) =
    drop pos wav @ sound (play_loop io turns wav 0 0x30)"
proof (induction "(length wav - pos) div 2048" arbitrary: pos)
  case 0
  then have "length wav - pos < 2048"
    by (simp add: div_eq_0_iff)
  then show ?case
    using 0 by (simp add: sound_turn [OF assms] bytes_at_def)
next
  case (Suc n)
  then have room: "2048 \<le> length wav - pos"
    by (metis div_less less_nat_zero_code not_less zero_less_Suc)
  then have n: "n = (length wav - (pos + 2048)) div 2048"
    using Suc(2) by (metis diff_diff_left le_div_geq nat.inject zero_less_numeral)
  have "sound (play_loop io (Suc (n + Suc turns)) wav 0 pos) =
      bytes_at pos 2048 wav @ sound (play_loop io (n + Suc turns) wav 0 (pos + 2048))"
    using room by (simp only: sound_turn [OF assms]) simp
  also have "\<dots> = bytes_at pos 2048 wav @ drop (pos + 2048) wav @ sound (play_loop io turns wav 0 0x30)"
    using Suc(1) [OF n] n by simp
  also have "\<dots> = drop pos wav @ sound (play_loop io turns wav 0 0x30)"
    by (simp add: bytes_at_def) (metis append_take_drop_id drop_drop add.commute append.assoc)
  finally show ?case
    using Suc(2) by (metis add_Suc)
qed

text \<open>So many turns play the data as often as they can, and then a part of it.\<close>

lemma sound_of_turns:
  defines "c \<equiv> \<lambda>wav. (length wav - 0x30) div 2048 + 1"
  assumes "steady io"
  shows "sound (play_loop io turns wav 0 0x30) =
    concat (replicate (turns div c wav) (drop 0x30 wav)) @ take (2048 * (turns mod c wav)) (drop 0x30 wav)"
proof (induction turns rule: less_induct)
  case (less turns)
  have c: "0 < c wav"
    by (simp add: c_def)
  show ?case
  proof (cases "turns < c wav")
    case True
    then have "turns \<le> (length wav - 0x30) div 2048"
      by (simp add: c_def)
    from sound_within [OF assms(2) this] True show ?thesis
      by (simp add: bytes_at_def)
  next
    case False
    define rest where "rest = turns - c wav"
    have turns: "turns = (length wav - 0x30) div 2048 + Suc rest"
      using False by (simp add: rest_def c_def)
    have "turns div c wav = Suc (rest div c wav)" "turns mod c wav = rest mod c wav" "rest < turns"
      using False c by (simp_all add: rest_def le_div_geq le_mod_geq)
    with less.IH [of rest] sound_pass [OF assms(2), of wav "0x30" rest, folded turns] show ?thesis
      by simp
  qed
qed

subsection \<open>The totals\<close>

text \<open>\<open>ms\<close> are the modules from \<open>prev\<close> on.\<close>

fun modules_from :: "smod \<Rightarrow> mod_info option \<Rightarrow> mod_info list \<Rightarrow> bool" where
  "modules_from sm prev [] \<longleftrightarrow> next_mod sm prev = None"
| "modules_from sm prev (i # ms) \<longleftrightarrow> next_mod sm prev = Some i \<and> modules_from sm (Some i) ms"

lemma print_modules_result:
  "modules_from sm prev ms \<Longrightarrow>
    print_modules sm prev t shown = Some (shown @ map (mod_line sm) ms,
      \<lparr>txtsz_total = txtsz_total t + sum_list (map text_size ms), dtasz_total = dtasz_total t + sum_list (map data_size ms),
       bsssz_total = bsssz_total t + sum_list (map bss_size ms)\<rparr>)"
proof (induction ms arbitrary: prev t shown)
  case Nil
  then show ?case by (subst print_modules.simps) simp
next
  case (Cons i ms)
  then show ?case by (subst print_modules.simps) (simp add: add_mod_def add.assoc)
qed

text \<open>The totals are the sums of the sizes as long as these fit 32 bits.\<close>

lemma unat_sum_list:
  "sum_list (map (\<lambda>x. unat (f x :: u32)) xs) < 2 ^ 32 \<Longrightarrow>
    unat (sum_list (map f xs)) = sum_list (map (\<lambda>x. unat (f x)) xs)"
  by (induction xs) (simp_all add: unat_word_ariths(1))

lemma print_iop_modules_result:
  assumes "modules_from sm None ms"
  obtains t where "print_iop_modules sm = Some (map (mod_line sm) ms, t,
      txtsz_total t + dtasz_total t + bsssz_total t, (txtsz_total t + dtasz_total t + bsssz_total t) div 1024)"
    "txtsz_total t = sum_list (map text_size ms)" "dtasz_total t = sum_list (map data_size ms)"
    "bsssz_total t = sum_list (map bss_size ms)"
proof -
  define t where "t = \<lparr>txtsz_total = sum_list (map text_size ms), dtasz_total = sum_list (map data_size ms),
      bsssz_total = sum_list (map bss_size ms)\<rparr>"
  show thesis
    by (rule that [of t]) (simp_all add: print_iop_modules_def print_modules_result [OF assms] t_def Let_def)
qed

subsection \<open>The path of the program\<close>

text \<open>The end of the line stays in the path that is waited for and loaded.\<close>

lemma fgets_keeps_newline:
  assumes "text = line @ [CHR 0x0A] @ rest" "CHR 0x0A \<notin> set line" "length line < n - 1"
  shows "fgets n text = Some (line @ [CHR 0x0A])"
proof -
  have "takeWhile (\<lambda>c. c \<noteq> CHR 0x0A) text = line"
    unfolding assms(1) using assms(2) by (subst takeWhile_append2) auto
  with assms show ?thesis
    by (simp add: fgets_def)
qed

lemma loader_keeps_newline:
  assumes "fs ''elf_path.ini'' = Some (line @ [CHR 0x0A] @ rest)" "CHR 0x0A \<notin> set line" "length line < PATH_MAX - 1"
    "basic_elf_loader_main PATH_MAX stack fs load_elf env reboot w s = Some e"
  shows "case e of Replaced path t \<Rightarrow> path = line @ [CHR 0x0A] | Came_back path t \<Rightarrow> path = line @ [CHR 0x0A]"
  using assms(1,4) fgets_keeps_newline [OF refl assms(2,3), of rest]
  by (auto simp: basic_elf_loader_main_def Let_def split: option.splits if_splits)

end
