(* ===== verification/Spec2Isabelle.thy ===== *)
theory Spec2Isabelle
  imports Sample_Tool Repo_Manifest Sample_Programs Socket_Samples Pad_Sample Media_Samples
begin

text \<open>
  \<^bold>\<open>Verification of ps2_drivers\<close>

  ps2_drivers is a C library for PlayStation 2 programs. A program runs on the main processor
  and talks to the hardware through modules (IRX files) that are executed on the I/O
  processor. Every driver of the library has an \<^verbatim>\<open>init_..._driver\<close> function that executes the
  modules it needs, initialises a library of the PS2SDK and reports a status, and a
  \<^verbatim>\<open>deinit_..._driver\<close> function that releases them again. The modules are linked into the program
  or staged from an image file that the tool \<^verbatim>\<open>ps2_irximg\<close> builds.

  \<^bold>\<open>Theories.\<close>

  \<^item> \<open>Ps2_Prelude\<close>: types of bytes and 32-bit words, slices of lists, lemmas on both.
  \<^item> \<open>Le_Bytes\<close>, \<open>Crc32\<close>: little-endian numbers and the checksum, as written in
    src/ps2_drivers_img.c and again in tools/ps2_irximg.c.
  \<^item> \<open>Boot_Device\<close>: src/ps2_boot_device.c, the device names and their recognition.
  \<^item> \<open>Irx_Modules\<close>: the 27 modules of the repository's manifest with their numbers.
  \<^item> \<open>Libc_World\<close>: the C library as the code uses it. A heap of blocks, files, the current
    directory and a list that says which of the calls to come fail; every call that may fail
    takes one entry, so a theorem about all lists covers every pattern of failures. Using a
    block that is not allocated sets \<open>ub\<close>.
  \<^item> \<open>Requirements\<close>: the status codes and the requirement masks of ps2_drivers_img.c,
    the requirements of devices and paths, their expansion into module numbers.
  \<^item> \<open>Image_Format\<close>: \<^verbatim>\<open>parse_image_entries\<close> and the image format. \<open>Staging\<close>:
    \<^verbatim>\<open>stage_from_path\<close>. \<open>Staged_Store\<close>: the store of staged modules, its invariant
    \<open>img_inv\<close>, the map it stands for, and the interface \<open>module_store\<close>. \<open>Img_Api\<close>:
    the staging functions and the states a program can reach.
  \<^item> \<open>Irx_Exec\<close>: the two flavours of \<^verbatim>\<open>ps2_irx_exec\<close> and the interface \<open>irx_provider\<close>
    (with \<open>one_shot_provider\<close>) that both implement.
  \<^item> \<open>Driver_Status\<close>: the status enumerations of all headers with their numbers.
    \<open>Driver_Core\<close>: the state of the drivers, the macros of irx_common_macros.h, library calls,
    loading and unloading. \<open>Drivers\<close>: the twenty drivers. \<open>Driver_Success\<close>: the
    interface \<open>working_drivers\<close>, in which every initialisation succeeds and executes exactly the
    modules of its closure, interpreted for both flavours.
  \<^item> \<open>Hdd_Mount\<close>: mounting the partition of a path (src/ps2_hdd_driver.c).
    \<open>Network_Config\<close>: configuring the network (src/ps2_eeip_driver.c,
    src/ps2_iopip_driver.c). \<open>Filesystem\<close>: src/ps2_filesystem_driver.c.
  \<^item> \<open>Image_Tool\<close>: tools/ps2_irximg.c, the builder and checker of images, with the format it
    writes as a function of the modules, \<open>image_of\<close>. \<open>Tool_Files\<close>: what reading a manifest and a
    file do. \<open>Image_Pack\<close>: packing writes \<open>image_of\<close>, or fails without a trace in memory.
    \<open>Image_Accept\<close>: the provider and the validation accept packed images.
  \<^item> \<open>Sample_Image\<close>, \<open>Sample_Tool\<close> and \<open>Lifecycle\<close>: concrete data, and staging, initialisation
    and release in sequence. \<open>Repo_Manifest\<close>: irx/manifest.txt as the tool reads it, and an image packed
    from it.
  \<^item> \<open>Stage_Test\<close>: tools/ps2_irximg_stage_test.c, the repository's own test of the provider, run on
    the model; the provider as a machine with two states, idle and holding.
  \<^item> \<open>Sample_Programs\<close>: those samples that are sequences of library calls, with the reset of the I/O
    processor they begin with, the states at the head of an endless loop and the interface
    \<open>call_monitor\<close> of the monitors below.
  \<^item> \<open>Decimal_Text\<close>: decimal numbers as text. \<open>Socket_Samples\<close>: the five programs on sockets (udp_echo_server_ee,
    tcp_burst_client_ee, tcp_server_ee, select_test_ee and select_test_iop), over a stack whose answers are
    a parameter; the counting the two bursts share, a monitor of the open descriptors and the states
    of the loops of the server and of the two that poll. \<open>Pad_Sample\<close>: mtap_sample, the controllers that come and go, with a monitor of
    the open ones and what it prints of their buttons. \<open>Disk_Samples\<close>: filesystem_sample, hdd_sample and
    listdir_sample, with what they leave mounted. \<open>Media_Samples\<close>: wav_sample, showiopinfo_sample and basic_elf_loader.

  \<^bold>\<open>How the model corresponds to the code.\<close> The static variables of a C file are fields of a
  record (\<open>img_state\<close> for the image provider, \<open>drv\<close> for the drivers); a function is a
  definition of the same name from its arguments and the state to its result and the new state;
  out parameters are options (NULL is None). A \<^verbatim>\<open>uint32_t\<close> is a \<open>32 word\<close>, with its
  wrap-around; \<^verbatim>\<open>size_t\<close> counters and addresses are natural numbers. Enumerations are
  datatypes with a function for their numbers. The two \<^verbatim>\<open>int\<close> counters of the endless samples are 32-bit words
  that wrap where C leaves the sum undefined. Long functions are split at the points where the
  code passes from one phase to the next.

  The PS2SDK and the I/O processor are parameters: \<open>answer\<close> gives the result of every library call
  from all events so far, and \<open>sif_exec\<close> what executing bytes on the I/O processor does.
  The samples have more parameters of this kind: the stack of the socket programs (\<open>net_stack\<close>), the
  library of the controllers, the directory and the sizes of files (\<open>disk\<close>), and how much \<^verbatim>\<open>fread\<close> brings and
  where \<^verbatim>\<open>fseek\<close> ends up (\<open>wav_io\<close>). Properties that need a cooperating environment say so in a hypothesis
  (\<open>iop_loads\<close>, \<open>libraries_work\<close>, \<open>all_succeed\<close>, \<open>recv_honest\<close>, \<open>send_complete\<close>, \<open>open_honest\<close> and others);
  all others hold for every value of the parameters.

  \<^bold>\<open>Loops.\<close> Loops over arrays are recursion on lists. The loop that switches the expansion bay off
  may run for ever and is a \<open>partial_function\<close> into \<open>option\<close>, None meaning that it does not return
  (the loops that wait for the reset of the I/O processor likewise);
  C31 says exactly when it does. The endless loops of the samples (\<open>serve\<close>, \<open>poll\<close>,
  \<open>pad_loop\<close>) are None for every input, so what they do is stated of the states at their heads, which are
  given by an inductive predicate (\<open>at_head\<close>). Polling loops with a bound in the code recurse on
  that bound.

  \<^bold>\<open>Not modelled.\<close> The contents of the modules and the PS2SDK are outside the repository's code.
  The names the network samples print for the stages of the configuration are left out, like all
  console output that is not mentioned above. The build files and the scripts in cmake/ generate
  code; the scripts in tools/ that are the peers of the network samples run on another computer,
  and \<open>echo_network\<close> says what is assumed of the echo server. Printing of the tools is not part of the model; a write to
  a file succeeds or fails as a whole. The size of the heap is not bounded, allocation fails when the list of failures
  says so.
\<close>

subsection \<open>Staging\<close>

text \<open>
  C1: staging does what the bytes of the file specify. Whatever calls fail on the way, a
  success fills the store with exactly the specified modules, counts them and remembers the
  source, and a failure leaves memory, store and source as they were, with the specified
  status unless some call of the C library failed.
\<close>

theorem stage_contract:
  assumes "img_inv s"
  shows "stage_effect image_path q s
    (fst (ps2_drivers_img_stage image_path q s)) (snd (ps2_drivers_img_stage image_path q s))"
  by (rule stage_result [OF _ assms]) simp

theorem stage_contract_witness:
  "stage_effect (Some sample_path) usbd_req (fresh [True, False])
    (fst (ps2_drivers_img_stage (Some sample_path) usbd_req (fresh [True, False])))
    (snd (ps2_drivers_img_stage (Some sample_path) usbd_req (fresh [True, False])))"
  by (rule stage_contract [OF fresh_inv])

text \<open>
  C2: whatever sequence of calls a program makes, and whatever files, directory and
  failures it meets, the provider never touches memory it does not own, leaves no stream open,
  and the allocated blocks are exactly the module array, the buffers of the modules that are
  still staged and the remembered path: nothing leaks.
\<close>

theorem reachable_safe:
  assumes "img_reachable s"
  shows "\<not> ub s \<and> opened s = 0 \<and> (\<exists>ms. staged_ok s ms \<and> dom (heap s) = owned s ms)"
  using img_reachable_inv [OF assms] by (auto elim: img_invE)

theorem reachable_safe_witness:
  "\<not> ub (img_call (Stage (Some sample_path) usbd_req) (fresh []))"
  using reachable_safe [OF img_reachable.step [OF fresh_reachable img_step.call]] by blast

text \<open>
  A successful staging for a path stages the modules of the drivers its
  device needs together with those of the additional requirements, and no others.
\<close>

lemma stage_for_path_modules:
  assumes "img_inv s"
    and "ps2_drivers_img_stage_for_path image_path (Some p) additional s = (PS2_DRIVERS_IMG_OK, t)"
  shows "dom (staged_map t) = irx_id `
    (required_modules (ps2_drivers_img_requirements_for_boot_device (getBootDeviceID (Some p))) \<union>
     required_modules additional)"
proof -
  have "ps2_drivers_img_stage image_path
      (ps2_drivers_img_requirements_for_boot_device (getBootDeviceID (Some p)) OR additional) s =
    (PS2_DRIVERS_IMG_OK, t)"
    using assms(2) by (auto simp: ps2_drivers_img_stage_for_path_def stage_with_def
        ps2_drivers_img_requirements_for_path_def split: if_splits)
  from stage_ok_modules [OF this assms(1)] show ?thesis
    by (simp add: required_modules_or)
qed

lemma stage_for_path_modules_witness:
  "\<exists>t. ps2_drivers_img_stage_for_path (Some sample_path) (Some ''host:/dir/'') 0 (fresh []) =
      (PS2_DRIVERS_IMG_OK, t) \<and> dom (staged_map t) = {2, 3}"
proof -
  obtain t where "ps2_drivers_img_stage (Some sample_path) fileXio_req (fresh []) = (PS2_DRIVERS_IMG_OK, t)"
    using stage_completes [OF fresh_inv fresh_succeeds fileXio_outcome] by blast
  moreover have dev: "getBootDeviceID (Some ''host:/dir/'') = BOOT_DEVICE_HOST"
    by code_simp
  ultimately have run: "ps2_drivers_img_stage_for_path (Some sample_path) (Some ''host:/dir/'') 0 (fresh []) =
      (PS2_DRIVERS_IMG_OK, t)"
    by (simp add: ps2_drivers_img_stage_for_path_def stage_with_def
        ps2_drivers_img_requirements_for_path_def unknown_bits_iff)
  have "required_modules 0 = {}"
    by (simp add: required_modules_def)
  with stage_for_path_modules [OF fresh_inv run] have "dom (staged_map t) = {2, 3}"
    by (simp add: dev)
  with run show ?thesis by blast
qed

text \<open>
  C23: after a successful staging, with the staged modules discarded again, staging from
  the remembered source fills the store with the same modules and bytes, as long as the files
  are the same and no call fails.
\<close>

theorem restage_same:
  assumes "img_inv s" and "all_succeed s"
    and "ps2_drivers_img_stage image_path q s = (PS2_DRIVERS_IMG_OK, t)"
  shows "fst (ps2_drivers_img_restage_last (ps2_drivers_img_discard_staged t)) = PS2_DRIVERS_IMG_OK \<and>
    staged_map (snd (ps2_drivers_img_restage_last (ps2_drivers_img_discard_staged t))) = staged_map t"
proof -
  obtain ps where t: "img_inv t" "files t = files s" "all_succeed t"
    using stage_ok_effect [OF assms(3,1)] assms(2) by blast
  then show ?thesis
    using restage_last_same [OF assms(3,1), of "ps2_drivers_img_discard_staged t"]
      discard_staged_result [OF t(1)] discard_world
    by (simp add: all_succeed_def)
qed

theorem restage_same_witness:
  "\<exists>t. ps2_drivers_img_stage (Some sample_path) usbd_req (fresh []) = (PS2_DRIVERS_IMG_OK, t) \<and>
     fst (ps2_drivers_img_restage_last (ps2_drivers_img_discard_staged t)) = PS2_DRIVERS_IMG_OK \<and>
     staged_map (snd (ps2_drivers_img_restage_last (ps2_drivers_img_discard_staged t))) = [8 \<mapsto> usbd_bytes]"
proof -
  obtain t where t: "ps2_drivers_img_stage (Some sample_path) usbd_req (fresh []) = (PS2_DRIVERS_IMG_OK, t)"
      "staged_map t = map_of [(8, usbd_bytes)]"
    using stage_completes [OF fresh_inv fresh_succeeds usbd_outcome] by blast
  with restage_same [OF fresh_inv fresh_succeeds t(1)] show ?thesis
    by simp
qed

text \<open>
  C14: in every reachable state the store behaves as a finite map: what
  \<^verbatim>\<open>get_staged\<close> hands out is the module's bytes, releasing a module removes it and no other,
  and the two counters are the number of staged modules and the sum of their sizes.
\<close>

theorem store_as_map:
  assumes "img_reachable s"
  shows "get_bytes n s = staged_map s n \<and>
    get_bytes n (ps2_drivers_img_release_staged k s) = (if n = k then None else get_bytes n s) \<and>
    ps2_drivers_img_staged_modules s = card (dom (staged_map s)) \<and>
    ps2_drivers_img_staged_bytes s = (\<Sum>n \<in> dom (staged_map s). length (the (staged_map s n)))"
  using img_reachable_inv [OF assms] staged.get_lookup staged.get_released staged.get_other
    staged_modules_card by auto

theorem store_as_map_witness:
  "get_bytes 8 (ps2_drivers_img_release_staged 3 (fresh [])) = get_bytes 8 (fresh [])"
  using store_as_map [OF fresh_reachable, of 8 "[]" 3] by simp

text \<open>
  C29: in every reachable state, discarding the staged modules and forgetting the
  source frees every block that was ever allocated.
\<close>

theorem release_everything:
  assumes "img_reachable s"
  shows "heap (ps2_drivers_img_forget_source (ps2_drivers_img_discard_staged s)) = Map.empty"
  using img_reachable_inv [OF assms] discard_staged_result [of s]
    forget_source_result [of "ps2_drivers_img_discard_staged s"]
  by (intro idle_heap_empty) auto

theorem release_everything_witness:
  "heap (ps2_drivers_img_forget_source (ps2_drivers_img_discard_staged
     (img_call (Stage (Some sample_path) usbd_req) (fresh [])))) = Map.empty"
  by (rule release_everything [OF img_reachable.step [OF fresh_reachable img_step.call]])

subsection \<open>The image\<close>

text \<open>
  C20: what the parser accepts. The file has at least a header and a table of 1 to 128
  entries with different numbers, and every entry's bytes lie behind the table and inside the
  file, at a multiple of 16; the sums are sums of natural numbers, so no check was passed by a
  32-bit sum that wrapped around.
\<close>

theorem directory_bounds:
  assumes "image_directory img = Some es" and "length img < 4294967296" and "e \<in> set es"
  shows "1 \<le> length es \<and> length es \<le> 128 \<and> distinct (map e_id es) \<and> e_id e \<noteq> 0 \<and>
    0 < unat (e_size e) \<and> 16 dvd unat (e_offset e) \<and>
    44 + 20 * length es \<le> unat (e_offset e) \<and> unat (e_offset e) + unat (e_size e) \<le> length img"
  using image_directory_wf [OF assms(1,2)] assms(3)
  by (auto simp: entry_wf_def Suc_le_eq)

theorem directory_bounds_witness:
  "unat (e_offset usbd_entry) + unat (e_size usbd_entry) \<le> length sample_image"
  using directory_bounds [OF sample_directory, of usbd_entry] by (simp add: sample_payloads)

text \<open>
  C21: the parser with its seeks, reads and allocations, each of which may fail, computes
  the directory that the bytes specify or reports an error and leaves memory as it was; with no
  failing call it reports an error only when the bytes specify no directory.
\<close>

theorem parse_refines:
  assumes "parse_image_entries file (of_nat (length (f_data file))) s = ((st, addr, n), g, t)"
    and "heap_wf s" and "length (f_data file) < 4294967296"
  shows "(st = PS2_DRIVERS_IMG_OK \<longrightarrow>
      (\<exists>es. image_directory (f_data file) = Some es \<and> heap t = (heap s)(addr \<mapsto> Entries es) \<and>
         unat n = length es)) \<and>
    (st \<noteq> PS2_DRIVERS_IMG_OK \<longrightarrow> heap t = heap s) \<and>
    (st \<noteq> PS2_DRIVERS_IMG_OK \<longrightarrow> all_succeed s \<longrightarrow> image_directory (f_data file) = None) \<and>
    opened t = opened s \<and> ub t = ub s"
  using parse_image_entries_result [OF assms] evolves_fields [of s t]
  by (auto split: if_splits simp: image_directory_def)

theorem parse_refines_witness:
  "\<exists>st addr n g t. parse_image_entries \<lparr>f_data = sample_image, f_pos = 0\<rparr> (of_nat 145) (fresh []) = ((st, addr, n), g, t) \<and>
     st = PS2_DRIVERS_IMG_OK \<and> unat n = 3"
proof -
  let ?file = "\<lparr>f_data = sample_image, f_pos = 0\<rparr>"
  obtain st addr n g t where run: "parse_image_entries ?file (of_nat (length (f_data ?file))) (fresh []) =
      ((st, addr, n), g, t)"
    by (metis surj_pair)
  have "heap_wf (fresh [])"
    using fresh_initial by (simp add: img_initial_def)
  with parse_refines [OF run] fresh_succeeds have "st = PS2_DRIVERS_IMG_OK" "unat n = 3"
    by (auto simp: sample_payloads sample_directory)
  with run show ?thesis
    by (simp add: sample_payloads)
qed

text \<open>
  C26: the checksum tells two payloads apart that differ in a window of at most four bytes,
  wherever the window is and whatever surrounds it.
\<close>

theorem crc_burst:
  assumes "length xs = length ys" and "length xs \<le> 4" and "xs \<noteq> ys"
  shows "crc32_bytes (pre @ xs @ post) \<noteq> crc32_bytes (pre @ ys @ post)"
proof
  assume "crc32_bytes (pre @ xs @ post) = crc32_bytes (pre @ ys @ post)"
  then have "foldl crc_byte (NOT 0) (pre @ xs @ post) = foldl crc_byte (NOT 0) (pre @ ys @ post)"
    unfolding crc32_bytes_def by (metis bit.double_compl)
  with foldl_crc_window [OF assms] show False
    by blast
qed

theorem crc_burst_witness:
  "crc32_bytes ([1, 2] @ [0, 0] @ [9]) \<noteq> crc32_bytes ([1, 2] @ [0, 128] @ [9])"
  by (rule crc_burst) simp_all

text \<open>
  The checksum the tool computes, at once or piece by piece, is the one the run-time
  provider compares with.
\<close>

lemma crc_streaming:
  "fold (\<lambda>piece crc. crc32_update crc piece) pieces 0 = crc32_bytes (concat pieces) \<and>
   tool_crc32_bytes data = crc32_bytes data"
proof -
  have "fold (\<lambda>piece crc. crc32_update crc piece) pieces c = crc32_update c (concat pieces)" for c
    by (induction pieces arbitrary: c) (simp_all add: crc32_update_append)
  then show ?thesis
    by (simp add: crc32_bytes_eq_tool tool_crc32_bytes_def)
qed

text \<open>
  The tool's writer and the provider's reader of 32-bit numbers are inverse to each
  other, in both directions.
\<close>

lemma le_roundtrip:
  "read_u32_le (write_u32_le v @ rest) = v \<and>
   write_u32_le (read_u32_le (a # b # c # d # rest)) = [a, b, c, d]"
  by (simp add: write_read_quad)

subsection \<open>Requirements and devices\<close>

text \<open>
  C27: the numbers that staging asks for are, in increasing order and without
  repetition, those of the modules in the closures of the drivers whose bits are set.
\<close>

theorem requested_closure:
  "set (requested_ids (expand_requirements q no_modules)) =
     irx_id ` (\<Union>r \<in> {r. q AND req_mask r \<noteq> 0}. set (driver_closure r)) \<and>
   sorted (map unat (requested_ids (expand_requirements q no_modules))) \<and>
   distinct (requested_ids (expand_requirements q no_modules))"
  using requested_ids_sorted requested_ids_distinct
  by (auto simp: set_requested_ids required_modules_def and_req_mask)

text \<open>
  For every path and every known additional mask the requirements are known, not
  empty, and ask for fileXio, for the modules of the path's device and for the additional ones.
\<close>

lemma path_requirements:
  assumes "\<not> unknown_bits additional"
  shows "\<exists>q. ps2_drivers_img_requirements_for_path (Some p) additional True = (PS2_DRIVERS_IMG_OK, Some q) \<and>
    q \<noteq> 0 \<and> \<not> unknown_bits q \<and> {IOMANX, FILEXIO} \<subseteq> required_modules q \<and>
    required_modules q = required_modules additional \<union>
      required_modules (ps2_drivers_img_requirements_for_boot_device (getBootDeviceID (Some p)))"
proof -
  let ?d = "ps2_drivers_img_requirements_for_boot_device (getBootDeviceID (Some p))"
  have "{IOMANX, FILEXIO} \<subseteq> required_modules ?d"
    by (cases "getBootDeviceID (Some p)") (auto simp: required_modules_or)
  moreover have "?d OR additional \<noteq> 0"
    using boot_requirements_nonzero by (metis or_eq_0_iff)
  ultimately show ?thesis
    using assms
    by (intro exI [of _ "?d OR additional"])
      (auto simp: ps2_drivers_img_requirements_for_path_def unknown_bits_or required_modules_or)
qed

lemma path_requirements_witness:
  "\<exists>q. ps2_drivers_img_requirements_for_path (Some ''mass:/a'') usbd_req True = (PS2_DRIVERS_IMG_OK, Some q) \<and>
     USBMASS_BD \<in> required_modules q"
proof -
  have "getBootDeviceID (Some ''mass:/a'') = BOOT_DEVICE_MASS"
    by code_simp
  with path_requirements [of usbd_req "''mass:/a''"] show ?thesis
    by (auto simp: required_modules_or)
qed

text \<open>
  Every path below the root path of a device is recognised as that device,
  although some names begin alike, and a path that begins with no device name is unknown.
\<close>

lemma boot_device_roundtrip:
  "(\<forall>d rest. rootDevicePath d \<noteq> '''' \<longrightarrow> getBootDeviceID (Some (rootDevicePath d @ rest)) = d) \<and>
   (getBootDeviceID (Some p) = BOOT_DEVICE_UNKNOWN \<longleftrightarrow>
      (\<forall>d n rest. device_name d = Some n \<longrightarrow> p \<noteq> n @ rest))"
proof -
  have "getBootDeviceID (Some (rootDevicePath d @ rest)) = d" if root: "rootDevicePath d \<noteq> ''''" for d rest
  proof -
    obtain n where n: "device_name d = Some n"
      using root by (cases d) auto
    then show ?thesis
      using getBootDeviceID_named [OF n, of "''/'' @ rest"] rootDevicePath_name [OF n] by simp
  qed
  then show ?thesis
    by (simp add: getBootDeviceID_unknown)
qed

lemma boot_device_roundtrip_witness:
  "getBootDeviceID (Some (rootDevicePath BOOT_DEVICE_MASS1 @ ''GAME.ELF'')) = BOOT_DEVICE_MASS1"
proof -
  have "rootDevicePath BOOT_DEVICE_MASS1 \<noteq> ''''"
    by simp
  with conjunct1 [OF boot_device_roundtrip] show ?thesis
    by blast
qed

text \<open>
  Every status has a message of its own, and every other number has the message for
  unknown errors.
\<close>

lemma error_strings:
  "(ps2_drivers_img_error_string (status_val st) = ps2_drivers_img_error_string (status_val st') \<longleftrightarrow> st = st') \<and>
   (ps2_drivers_img_error_string n = ''unknown ps2_drivers image error'' \<longleftrightarrow> n \<notin> range status_val)"
proof
  show "ps2_drivers_img_error_string (status_val st) = ps2_drivers_img_error_string (status_val st') \<longleftrightarrow> st = st'"
    by (cases st; cases st') (simp_all add: ps2_drivers_img_error_string_def)
  have named: "ps2_drivers_img_error_string (status_val s) \<noteq> ''unknown ps2_drivers image error''" for s
    by (cases s) (simp_all add: ps2_drivers_img_error_string_def)
  have "ps2_drivers_img_error_string n = ''unknown ps2_drivers image error''" if "n \<notin> range status_val"
  proof -
    have "n \<noteq> status_val s" for s
      using that by blast
    then show ?thesis
      by (simp add: ps2_drivers_img_error_string_def del: status_val.simps)
  qed
  with named show "ps2_drivers_img_error_string n = ''unknown ps2_drivers image error'' \<longleftrightarrow> n \<notin> range status_val"
    by blast
qed

subsection \<open>Executing modules\<close>

text \<open>
  C25: whatever the I/O processor does with them, a list of different modules is executed with the
  same results and the same effect by both flavours of \<^verbatim>\<open>ps2_irx_exec\<close>, when what is staged is
  what is linked in the other flavour.
\<close>

theorem flavours_interchangeable:
  assumes "img_inv s" and "distinct (map fst ms)"
    and "\<forall>(m, a) \<in> set ms. staged_map s (irx_id m) = Some (linked_bytes linked m)"
  shows "fst (exec_list (image_exec sif) ms (s, i)) = fst (exec_list (linked_exec sif linked) ms i) \<and>
    snd (snd (exec_list (image_exec sif) ms (s, i))) = snd (exec_list (linked_exec sif linked) ms i)"
  by (intro conjI flavours_agree assms)

theorem flavours_interchangeable_witness:
  "\<exists>t. ps2_drivers_img_stage (Some sample_path) usbd_req (fresh []) = (PS2_DRIVERS_IMG_OK, t) \<and>
     fst (exec_list (image_exec counting_iop) [(USBD, no_args)] (t, 5)) =
     fst (exec_list (linked_exec counting_iop (\<lambda>m. usbd_bytes)) [(USBD, no_args)] 5)"
proof -
  obtain t where t: "ps2_drivers_img_stage (Some sample_path) usbd_req (fresh []) = (PS2_DRIVERS_IMG_OK, t)"
      "img_inv t" "staged_map t = map_of [(8, usbd_bytes)]"
    using stage_completes [OF fresh_inv fresh_succeeds usbd_outcome] by blast
  then have "\<forall>(m, a) \<in> set [(USBD, no_args)]. staged_map t (irx_id m) = Some (linked_bytes (\<lambda>m. usbd_bytes) m)"
    by (simp add: linked_bytes_all usbd_bytes_def)
  with t flavours_interchangeable [OF t(2), of "[(USBD, no_args)]" "\<lambda>m. usbd_bytes" counting_iop 5]
  show ?thesis
    by simp
qed

text \<open>
  In the image flavour a staged module is handed to the I/O processor once, whatever the
  result; afterwards it is no longer staged and executing it again fails without effect.
\<close>

lemma execute_once:
  assumes "img_inv (fst s)"
  shows "staged_map (fst (snd (image_exec sif m a s))) = (staged_map (fst s))(irx_id m := None) \<and>
    img_inv (fst (snd (image_exec sif m a s))) \<and>
    image_exec sif m b (snd (image_exec sif m a s)) = ((-1, None), snd (image_exec sif m a s))"
proof -
  have "staged_map (fst (snd (image_exec sif m a s))) = (staged_map (fst s))(irx_id m := None)"
    using image_exec_result [OF assms, of sif m a "snd s"] release_staged_result [OF assms]
    by (auto simp: case_prod_unfold Let_def fun_eq_iff split: option.splits)
  with image.exec_inv [OF assms, of sif m a] image.second_exec [OF assms, of sif m b a] show ?thesis
    by simp
qed

lemma execute_once_witness:
  "image_exec counting_iop USBD no_args (snd (image_exec counting_iop USBD no_args (fresh [], 5))) =
     ((-1, None), snd (image_exec counting_iop USBD no_args (fresh [], 5)))"
  using execute_once [of "(fresh [], 5)" counting_iop USBD no_args no_args] fresh_inv by simp

subsection \<open>Initialisation and release of drivers\<close>

text \<open>
  C15: whatever the libraries and the I/O processor answer, the initialisation behind a requirement
  executes only modules of the requirement's closure whose slots say that they are not loaded
  yet, the provider sees exactly these executions, and no other slot changes.
\<close>

theorem init_executes:
  "\<exists>es. events (snd (init_requirement env r s)) = events s @ es \<and>
     (\<forall>m \<in> fst ` set (execs es). m \<in> set (driver_closure r) \<and> CHECK_IRX_LOAD (slots s m)) \<and>
     prov (snd (init_requirement env r s)) = snd (exec_list (irx_exec env) (execs es) (prov s)) \<and>
     (\<forall>m. m \<notin> set (driver_closure r) \<or> \<not> CHECK_IRX_LOAD (slots s m) \<longrightarrow>
        slots (snd (init_requirement env r s)) m = slots s m)"
  using init_requirement_ran [where r = r and s = s and env = env]
  unfolding ran_def by blast

theorem init_executes_witness:
  "slots (snd (init_requirement (linked_env counting_iop (\<lambda>m. usbd_bytes) obliging no_config)
      PS2_DRIVER_REQ_MOUSE (drv_start 5))) PS2KBD = reset_slot"
  using init_executes [of "linked_env counting_iop (\<lambda>m. usbd_bytes) obliging no_config"
      PS2_DRIVER_REQ_MOUSE "drv_start 5"] by auto

text \<open>
  C3: end to end, image flavour. After a successful staging, with modules that load and libraries
  that work, the initialisation behind every requirement that was staged for succeeds from the
  start: it executes each module of the closure once, and exactly these modules leave the store.
\<close>

theorem stage_then_init:
  assumes "img_inv s" and "ps2_drivers_img_stage image_path q s = (PS2_DRIVERS_IMG_OK, i)"
    and "q AND req_mask r \<noteq> 0" and "iop_loads sif" and "libraries_work ans"
  shows "\<exists>t. init_requirement (image_env sif ans cfg) r (drv_start (i, iop)) = (True, t) \<and>
    distinct (map fst (execs (events t))) \<and> set (map fst (execs (events t))) = set (driver_closure r) \<and>
    (\<forall>m. staged_map (fst (prov t)) (irx_id m) =
       (if m \<in> set (driver_closure r) then None else staged_map i (irx_id m)))"
proof -
  have "img_inv i"
    using stage_ok_effect [OF assms(2,1)] by blast
  have "irx_id m \<in> dom (staged_map i)" if "m \<in> set (driver_closure r)" for m
    using stage_ok_modules [OF assms(2,1)] that assms(3)
    by (auto simp: required_modules_def and_req_mask)
  then have held: "\<forall>m \<in> set (driver_closure r). slots (drv_start (i, iop)) m = reset_slot \<and>
      staged_map (fst (prov (drv_start (i, iop)))) (irx_id m) \<noteq> None"
    by auto
  have inv: "img_inv (fst (prov (drv_start (i, iop))))"
    using \<open>img_inv i\<close> by simp
  obtain ms t where t: "init_requirement (image_env sif ans cfg) r (drv_start (i, iop)) = (True, t)"
      "distinct ms" "set ms = set (driver_closure r)"
      "did (\<lambda>p. img_inv (fst p)) (\<lambda>p m. staged_map (fst p) (irx_id m)) ms (drv_start (i, iop)) t"
    by (rule init_image_works [OF assms(4,5) inv held])
  have ran: "ran (image_env sif ans cfg) (set (driver_closure r)) UNIV (drv_start (i, iop)) t"
    using init_requirement_ran [where r = r and s = "drv_start (i, iop)" and env = "image_env sif ans cfg"] t(1)
    by (auto intro: ran_mono)
  have ms: "map fst (execs (events t)) = ms"
    using t(4) by (auto simp: did_def)
  with ran_consumes [OF ran, of "events t"] \<open>img_inv i\<close>
  have gone: "staged_map (fst (prov t)) (irx_id m) =
      (if m \<in> set (driver_closure r) then None else staged_map i (irx_id m))" for m
    by (simp add: t(3) flip: list.set_map)
  with t(1-3) have "init_requirement (image_env sif ans cfg) r (drv_start (i, iop)) = (True, t)"
      "distinct (map fst (execs (events t)))" "set (map fst (execs (events t))) = set (driver_closure r)"
    unfolding ms by blast+
  with gone show ?thesis
    by blast
qed

theorem stage_then_init_witness:
  "\<exists>i t. ps2_drivers_img_stage (Some sample_path) usbd_req (fresh []) = (PS2_DRIVERS_IMG_OK, i) \<and>
     init_requirement (image_env counting_iop obliging no_config) PS2_DRIVER_REQ_USBD (drv_start (i, 5)) = (True, t) \<and>
     staged_map (fst (prov t)) (irx_id USBD) = None"
proof -
  obtain i where i: "ps2_drivers_img_stage (Some sample_path) usbd_req (fresh []) = (PS2_DRIVERS_IMG_OK, i)"
    using stage_completes [OF fresh_inv fresh_succeeds usbd_outcome] by blast
  have "usbd_req AND usbd_req \<noteq> 0"
    by (simp add: req_mask_def)
  then obtain t where "init_requirement (image_env counting_iop obliging no_config) PS2_DRIVER_REQ_USBD
      (drv_start (i, 5)) = (True, t)"
      "\<forall>m. staged_map (fst (prov t)) (irx_id m) =
        (if m \<in> set (driver_closure PS2_DRIVER_REQ_USBD) then None else staged_map i (irx_id m))"
    using stage_then_init [OF fresh_inv i _ counting_iop_loads obliging_works, of _ no_config 5] by blast
  moreover from this(2) have "staged_map (fst (prov t)) (irx_id USBD) = None"
    by (metis driver_closure.simps(5) list.set_intros(1))
  ultimately show ?thesis
    using i by blast
qed

text \<open>
  C28: in the image flavour, whatever the libraries and the I/O processor answer, an
  initialisation keeps the provider sound and leaves every staged module outside the
  requirement's closure where it is.
\<close>

theorem init_image_sound:
  assumes "img_inv (fst (prov s))"
  shows "img_inv (fst (prov (snd (init_requirement (image_env sif ans cfg) r s)))) \<and>
    (\<forall>m. m \<notin> set (driver_closure r) \<longrightarrow>
       staged_map (fst (prov (snd (init_requirement (image_env sif ans cfg) r s)))) (irx_id m) =
       staged_map (fst (prov s)) (irx_id m))"
  using image_ran [OF init_requirement_ran assms] by auto

theorem init_image_sound_witness:
  "img_inv (fst (prov (snd (init_requirement (image_env counting_iop (\<lambda>es c. -1) no_config)
     PS2_DRIVER_REQ_IOPIP (drv_start (fresh [], 5))))))"
  using init_image_sound [of "drv_start (fresh [], 5)" counting_iop "\<lambda>es c. -1" no_config PS2_DRIVER_REQ_IOPIP]
    fresh_inv by simp

text \<open>
  Initialising a second time after an initialisation that worked executes nothing and
  changes no slot, whatever the libraries and the I/O processor answer the second time.
\<close>

lemma init_twice:
  assumes "iop_loads sif" and "libraries_work ans"
    and "\<forall>m \<in> set (driver_closure r). slots s m = reset_slot"
  shows "\<exists>t es. init_requirement (linked_env sif linked ans cfg) r s = (True, t) \<and>
    events (snd (init_requirement env r t)) = events t @ es \<and> execs es = [] \<and>
    prov (snd (init_requirement env r t)) = prov t \<and>
    slots (snd (init_requirement env r t)) = slots t"
proof -
  from assms obtain ms t where t: "init_requirement (linked_env sif linked ans cfg) r s = (True, t)"
      "set ms = set (driver_closure r)" "did (\<lambda>p. True) (\<lambda>p m. Some (linked_bytes linked m)) ms s t"
    by (rule init_linked_works)
  then have "\<forall>m \<in> set (driver_closure r). \<not> CHECK_IRX_LOAD (slots t m)"
    by (auto simp: did_def slot_defs)
  from init_requirement_again [OF this, of env] obtain es
    where "events (snd (init_requirement env r t)) = events t @ es" "execs es = []"
      "prov (snd (init_requirement env r t)) = prov t"
    by (auto simp: ran_def)
  moreover have "slots (snd (init_requirement env r t)) = slots t"
    using init_requirement_again [OF \<open>\<forall>m \<in> set (driver_closure r). \<not> CHECK_IRX_LOAD (slots t m)\<close>, of env]
    by (auto simp: ran_def)
  ultimately show ?thesis
    using t(1) by blast
qed

lemma init_twice_witness:
  "\<exists>t. init_requirement (linked_env counting_iop (\<lambda>m. usbd_bytes) obliging no_config) PS2_DRIVER_REQ_KEYBOARD
      (drv_start 5) = (True, t) \<and>
     prov (snd (init_requirement (linked_env counting_iop (\<lambda>m. usbd_bytes) obliging no_config)
       PS2_DRIVER_REQ_KEYBOARD t)) = prov t"
  using init_twice [OF counting_iop_loads obliging_works, of PS2_DRIVER_REQ_KEYBOARD "drv_start 5"
      "\<lambda>m. usbd_bytes" no_config "linked_env counting_iop (\<lambda>m. usbd_bytes) obliging no_config"]
  by (simp del: init_requirement.simps) blast

text \<open>
  C16: when modules load and libraries work, initialisation, release and initialisation again
  succeed for every requirement: the release returns, resets the slots of the whole closure, and
  the second initialisation executes each module of the closure once more.
\<close>

theorem init_deinit_init:
  assumes "iop_loads sif" and "libraries_work ans"
    and "\<forall>m \<in> set (driver_closure r). slots s m = reset_slot"
  shows "\<exists>t u v es. init_requirement (linked_env sif linked ans cfg) r s = (True, t) \<and>
    deinit_requirement (linked_env sif linked ans cfg) r t = Some u \<and>
    (\<forall>m \<in> set (driver_closure r). slots u m = reset_slot) \<and>
    init_requirement (linked_env sif linked ans cfg) r u = (True, v) \<and>
    events v = events u @ es \<and> distinct (map fst (execs es)) \<and>
    set (map fst (execs es)) = set (driver_closure r)"
proof -
  let ?env = "linked_env sif linked ans cfg"
  from assms obtain ms t where t: "init_requirement ?env r s = (True, t)"
      "set ms = set (driver_closure r)" "did (\<lambda>p. True) (\<lambda>p m. Some (linked_bytes linked m)) ms s t"
    by (rule init_linked_works)
  have "libraries_work (answer ?env)"
    using assms(2) by (simp add: linked_env_def)
  then obtain u where u: "deinit_requirement ?env r t = Some u"
    using deinit_requirement_returns [of ?env r t] by blast
  have "\<forall>m \<in> set (driver_closure r). slots u m = reset_slot"
    using deinit_requirement_slots [OF u] t(2,3) by (auto simp: did_def)
  with assms(1,2) obtain ms' v where v: "init_requirement ?env r u = (True, v)" "distinct ms'"
      "set ms' = set (driver_closure r)" "did (\<lambda>p. True) (\<lambda>p m. Some (linked_bytes linked m)) ms' u v"
    by (rule init_linked_works)
  then obtain es where "events v = events u @ es" "map fst (execs es) = ms'"
    by (auto simp: did_def)
  with t u v \<open>\<forall>m \<in> set (driver_closure r). slots u m = reset_slot\<close> show ?thesis
    by blast
qed

theorem init_deinit_init_witness:
  "\<exists>t u. init_requirement (linked_env counting_iop (\<lambda>m. usbd_bytes) obliging no_config) PS2_DRIVER_REQ_HDD
      (drv_start 5) = (True, t) \<and>
     deinit_requirement (linked_env counting_iop (\<lambda>m. usbd_bytes) obliging no_config) PS2_DRIVER_REQ_HDD t = Some u"
  using init_deinit_init [OF counting_iop_loads obliging_works, of PS2_DRIVER_REQ_HDD "drv_start 5"
      "\<lambda>m. usbd_bytes" no_config]
  by (simp del: init_requirement.simps deinit_requirement.simps) blast

text \<open>
  C30: a release that returns resets exactly the slots of the requirement's closure that hold a
  resident module; in particular a module whose load failed keeps its slot.
\<close>

theorem deinit_resets:
  assumes "deinit_requirement env r s = Some t"
  shows "slots t m = (if m \<in> set (driver_closure r) \<and> CHECK_IRX_UNLOAD (slots s m)
    then reset_slot else slots s m)"
  using assms by (rule deinit_requirement_slots)

theorem deinit_resets_witness:
  "\<exists>t. deinit_requirement (linked_env counting_iop (\<lambda>m. usbd_bytes) obliging no_config)
      PS2_DRIVER_REQ_EEIP (drv_start 5) = Some t \<and> slots t SMAP = reset_slot"
proof -
  let ?env = "linked_env counting_iop (\<lambda>m. usbd_bytes) obliging no_config"
  have "libraries_work (answer ?env)"
    using obliging_works by (simp add: linked_env_def)
  then obtain t where t: "deinit_requirement ?env PS2_DRIVER_REQ_EEIP (drv_start 5) = Some t"
    using deinit_requirement_returns [of ?env PS2_DRIVER_REQ_EEIP "drv_start 5"] by blast
  with deinit_resets [OF t, of SMAP] show ?thesis
    by auto
qed

text \<open>
  An initialisation whose module fails to load reports the error once. Unless both
  variables of the module happen to be -1 afterwards, the next initialisation executes nothing
  and reports success, although the module is not loaded. Shown for usbd; every driver is
  written in the same way.
\<close>

lemma failed_load_hidden:
  assumes "init_usbd_driver env s = (USBD_INIT_STATUS_IRX_ERROR, t)" and "slots t USBD \<noteq> reset_slot"
  shows "fst (init_usbd_driver env t) = USBD_INIT_STATUS_OK \<and>
    events (snd (init_usbd_driver env t)) = events t \<and> \<not> CHECK_IRX_UNLOAD (slots t USBD)"
proof -
  obtain u where u: "load_irx env USBD no_args s = (True, u)" "slots u = slots t"
    using assms(1) by (auto simp: init_usbd_driver_def loadIRXs_usbd_def split: prod.splits if_splits)
  with failed_load_sticks [OF u(1)] assms(2) have "\<not> CHECK_IRX_LOAD (slots t USBD)" "\<not> CHECK_IRX_UNLOAD (slots t USBD)"
    by (auto simp: load_irx_def slot_defs split: if_splits prod.splits)
  then show ?thesis
    by (simp add: init_usbd_driver_def loadIRXs_usbd_def load_irx_again)
qed

lemma failed_load_hidden_witness:
  "\<exists>t. init_usbd_driver (linked_env (\<lambda>bytes n args i. ((-5, None), i)) (\<lambda>m. usbd_bytes) obliging no_config)
        (drv_start (5::nat)) = (USBD_INIT_STATUS_IRX_ERROR, t) \<and>
     fst (init_usbd_driver (linked_env (\<lambda>bytes n args i. ((-5, None), i)) (\<lambda>m. usbd_bytes) obliging no_config) t) =
       USBD_INIT_STATUS_OK"
proof -
  let ?env = "linked_env (\<lambda>bytes n args i. ((-5, None), i)) (\<lambda>m. usbd_bytes) obliging no_config"
  obtain t where t: "init_usbd_driver ?env (drv_start (5::nat)) = (USBD_INIT_STATUS_IRX_ERROR, t)"
      "slot_id (slots t USBD) = -5"
    by (auto simp: init_usbd_driver_def loadIRXs_usbd_def load_irx_def linked_env_def linked_exec_result
        sif_run_def slot_defs)
  then have "slots t USBD \<noteq> reset_slot"
    by (auto simp: reset_slot_def)
  from failed_load_hidden [OF t(1) this] t(1) show ?thesis
    by blast
qed

text \<open>
  C31: releasing dev9 returns exactly when the driver was not initialised or some try to
  switch the expansion bay off is answered without an error: the loop has no bound of its own.
\<close>

theorem dev9_release_returns:
  "deinit_dev9_driver env s \<noteq> None \<longleftrightarrow>
     dev9_init_status s \<noteq> DEV9_INIT_STATUS_OK \<or> (\<exists>n. 0 \<le> fst (try_off env (after_tries env n s)))"
proof -
  have "dev9_off_loop env s \<noteq> None \<longleftrightarrow> (\<exists>n. 0 \<le> fst (try_off env (after_tries env n s)))"
  proof
    assume "\<exists>n. 0 \<le> fst (try_off env (after_tries env n s))"
    then obtain n where "0 \<le> fst (try_off env (after_tries env n s))"
      "\<forall>k < n. fst (try_off env (after_tries env k s)) < 0"
      using exists_least_iff [of "\<lambda>n. 0 \<le> fst (try_off env (after_tries env n s))"] by (auto simp: not_le)
    then show "dev9_off_loop env s \<noteq> None"
      using dev9_off_loop_ends by blast
  qed (use dev9_off_loop_result in blast)
  then show ?thesis
    by (simp add: deinit_dev9_driver_def)
qed

theorem dev9_release_returns_witness:
  "deinit_dev9_driver (linked_env counting_iop (\<lambda>m. usbd_bytes) (\<lambda>es c. if length es = 2 then 0 else -1) no_config)
     ((drv_start 5)\<lparr>dev9_init_status := DEV9_INIT_STATUS_OK\<rparr>) \<noteq> None"
proof -
  let ?env = "linked_env counting_iop (\<lambda>m. usbd_bytes) (\<lambda>es c. if length es = 2 then 0 else -1) no_config"
  let ?s = "(drv_start 5)\<lparr>dev9_init_status := DEV9_INIT_STATUS_OK\<rparr>"
  have "0 \<le> fst (try_off ?env (after_tries ?env 2 ?s))"
    by (simp add: after_tries_def try_off_def lib_def linked_env_def numeral_2_eq_2 Let_def)
  then show ?thesis
    using dev9_release_returns [of ?env ?s] by blast
qed

subsection \<open>Mounting the hard disk\<close>

text \<open>
  C32: when the disk driver is ready and no allocation fails, mounting from a current directory \<open>a:b:c:d\<close> on
  the disk mounts the device \<open>a:b\<close> at \<open>c:\<close> and, when
  that worked, changes to \<open>c:d\<close>. The array of tokens stays allocated, and the buffers of 10 and
  50 bytes overflow exactly when the parts are too long for them.
\<close>

theorem mount_parts:
  assumes "part a" "part b" "part c" "CHR '':'' \<notin> set d" and "heap_wf w" "all_succeed w"
    and "cwd_path s = mount_path a b c d" "cwd_is_hdd s" "hdd_init_status s = HDD_INIT_STATUS_IRX_OK"
  shows "let r = answer env (events s) (FileXioMount (c @ '':'') (a @ '':'' @ b));
             mounted = Lib (FileXioMount (c @ '':'') (a @ '':'' @ b)) r;
             q = answer env (events s @ [mounted]) (Chdir (c @ '':'' @ d))
    in \<exists>w' t. mount_current_hdd_partition env w s =
         Some (if r < 0 then HDD_MOUNT_STATUS_ERROR else HDD_MOUNT_STATUS_OK, w', t) \<and>
       events t = events s @ mounted # (if r < 0 then [] else [Lib (Chdir (c @ '':'' @ d)) q]) \<and>
       mount_status t = (if r < 0 then mount_status s else HDD_MOUNT_STATUS_OK) \<and>
       cwd_path t = (if 0 \<le> r \<and> q = 0 then c @ '':'' @ d else cwd_path s) \<and> mountString t = c @ '':'' \<and>
       dom (heap w') = insert (brk w) (dom (heap w)) \<and> brk w \<notin> dom (heap w) \<and>
       (ub w' \<longleftrightarrow> ub w \<or> 49 \<le> length a + length b \<or> 9 \<le> length c)"
proof -
  obtain w' where w': "getMountInfo (mount_path a b c d) w =
      Some (Some (c @ '':'', a @ '':'' @ b, c @ '':'' @ d), w')"
    "ub w' \<longleftrightarrow> ub w \<or> 49 \<le> length a + length b \<or> 9 \<le> length c"
    "dom (heap w') = insert (brk w) (dom (heap w))" "brk w \<notin> dom (heap w)"
    by (rule getMountInfo_mount_path [OF assms(1-6)]) auto
  then show ?thesis
    using assms(7-9)
    by (auto simp: mount_current_hdd_partition_def chdir_def lib_def Let_def)
qed

theorem mount_parts_witness:
  "\<exists>w' t. mount_current_hdd_partition (linked_env counting_iop (\<lambda>m. usbd_bytes) obliging no_config) (mount_start [])
       ((drv_start 5)\<lparr>cwd_path := ''hdd0:__common:pfs:/retroarch/'', hdd_init_status := HDD_INIT_STATUS_IRX_OK\<rparr>) =
         Some (HDD_MOUNT_STATUS_OK, w', t) \<and>
     cwd_path t = ''pfs:/retroarch/'' \<and> \<not> ub w'"
proof -
  let ?env = "linked_env counting_iop (\<lambda>m. usbd_bytes) obliging no_config"
  let ?s = "(drv_start 5)\<lparr>cwd_path := ''hdd0:__common:pfs:/retroarch/'', hdd_init_status := HDD_INIT_STATUS_IRX_OK\<rparr>"
  have parts: "part ''hdd0''" "part ''__common''" "part ''pfs''" "CHR '':'' \<notin> set ''/retroarch/''"
    by (simp_all add: part_def)
  have path: "cwd_path ?s = mount_path ''hdd0'' ''__common'' ''pfs'' ''/retroarch/''" "cwd_is_hdd ?s"
      "hdd_init_status ?s = HDD_INIT_STATUS_IRX_OK"
    by (simp_all add: mount_path_def cwd_is_hdd_def)
  show ?thesis
    using mount_parts [OF parts mount_start_wf mount_start_succeeds path, of ?env]
    by (auto simp: Let_def linked_env_def obliging_def)
qed

text \<open>
  Mounting from the current directory runs into the assertion of \<^verbatim>\<open>str_split\<close>, which aborts
  the program, exactly when the disk is ready, the directory is on it, memory for the array is
  there, and two colons follow each other in the path.
\<close>

lemma mount_aborts:
  assumes "heap_wf w"
  shows "mount_current_hdd_partition env w s = None \<longleftrightarrow>
    hdd_init_status s = HDD_INIT_STATUS_IRX_OK \<and> cwd_is_hdd s \<and> fst (malloc (Tokens []) w) \<noteq> 0 \<and>
    (\<exists>xs ys. cwd_path s = xs @ ''::'' @ ys)"
proof -
  have "mount_current_hdd_partition env w s = None \<longleftrightarrow>
      hdd_init_status s = HDD_INIT_STATUS_IRX_OK \<and> cwd_is_hdd s \<and> getMountInfo (cwd_path s) w = None"
    by (auto simp: mount_current_hdd_partition_def case_prod_unfold Let_def split: option.splits)
  moreover have "cwd_path s \<noteq> [] \<and> hd (cwd_path s) \<noteq> CHR '':''" if "cwd_is_hdd s"
    using that by (cases "cwd_path s") (auto simp: cwd_is_hdd_def)
  ultimately show ?thesis
    using getMountInfo_aborts [OF assms, of "cwd_path s"] element_count_tokens [of "cwd_path s" "CHR '':''"]
    by auto
qed

lemma mount_aborts_witness:
  "mount_current_hdd_partition (linked_env counting_iop (\<lambda>m. usbd_bytes) obliging no_config) (mount_start [])
     ((drv_start 5)\<lparr>cwd_path := ''hdd0::pfs:/'', hdd_init_status := HDD_INIT_STATUS_IRX_OK\<rparr>) = None"
proof -
  have "\<exists>xs ys. ''hdd0::pfs:/'' = xs @ ''::'' @ ys"
    by (rule exI [of _ "''hdd0''"]) simp
  then show ?thesis
    using mount_aborts [OF mount_start_wf, of "linked_env counting_iop (\<lambda>m. usbd_bytes) obliging no_config" "[]"]
      malloc_succeeds [OF mount_start_wf mount_start_succeeds]
    by (simp add: cwd_is_hdd_def)
qed

text \<open>
  C33: what \<^verbatim>\<open>mount_current_hdd_partition\<close> mounted, \<^verbatim>\<open>umount_current_hdd_partition\<close> unmounts, once.
  A partition mounted by \<^verbatim>\<open>mount_hdd_partition\<close> is not unmounted by \<^verbatim>\<open>umount_hdd_partition\<close>:
  mounting it did not set the status that unmounting asks for.
\<close>

theorem mount_umount:
  assumes "mount_current_hdd_partition env w s = Some (HDD_MOUNT_STATUS_OK, w', t)"
    and "fst (mount_hdd_partition env mp dev u) = HDD_MOUNT_STATUS_OK" and "mount_status u = HDD_MOUNT_STATUS_UKNOWN"
  shows "(\<exists>es fs dev r. events t = es @ Lib (FileXioMount (mountString t) dev) r # fs \<and> 0 \<le> r) \<and>
    (\<exists>r1 r2 r3. events (umount_current_hdd_partition env t) = events t @
      [Lib (FileXioUmount (mountString t)) r1, Lib (FileXioDevctl (mountString t) ''PDIOC_CLOSEALL'') r2,
       Lib (FileXioDevctl ''hdd0:'' ''HDIOC_IDLEIMM'') r3]) \<and>
    umount_current_hdd_partition env (umount_current_hdd_partition env t) = umount_current_hdd_partition env t \<and>
    umount_hdd_partition env mp (snd (mount_hdd_partition env mp dev u)) = snd (mount_hdd_partition env mp dev u)"
proof (intro conjI)
  show "\<exists>es fs dev r. events t = es @ Lib (FileXioMount (mountString t) dev) r # fs \<and> 0 \<le> r"
    using assms(1) by (force simp: mount_current_hdd_partition_def chdir_def lib_def Let_def
        split: if_splits option.splits)
  have "mount_status t = HDD_MOUNT_STATUS_OK"
    using assms(1) by (auto simp: mount_current_hdd_partition_def case_prod_unfold Let_def
        split: if_splits option.splits)
  then show "\<exists>r1 r2 r3. events (umount_current_hdd_partition env t) = events t @
      [Lib (FileXioUmount (mountString t)) r1, Lib (FileXioDevctl (mountString t) ''PDIOC_CLOSEALL'') r2,
       Lib (FileXioDevctl ''hdd0:'' ''HDIOC_IDLEIMM'') r3]"
    and "umount_current_hdd_partition env (umount_current_hdd_partition env t) = umount_current_hdd_partition env t"
    by (auto simp: umount_current_hdd_partition_def umount_hdd_partition_def lib_def Let_def)
  show "umount_hdd_partition env mp (snd (mount_hdd_partition env mp dev u)) = snd (mount_hdd_partition env mp dev u)"
    using assms(2,3) by (auto simp: umount_hdd_partition_def mount_hdd_partition_def lib_def Let_def split: if_splits)
qed

theorem mount_umount_witness:
  "\<exists>w' t. mount_current_hdd_partition (linked_env counting_iop (\<lambda>m. usbd_bytes) obliging no_config) (mount_start [])
       ((drv_start 5)\<lparr>cwd_path := ''hdd0:p:pfs:/'', hdd_init_status := HDD_INIT_STATUS_IRX_OK\<rparr>) =
         Some (HDD_MOUNT_STATUS_OK, w', t) \<and>
     umount_current_hdd_partition (linked_env counting_iop (\<lambda>m. usbd_bytes) obliging no_config)
       (umount_current_hdd_partition (linked_env counting_iop (\<lambda>m. usbd_bytes) obliging no_config) t) =
     umount_current_hdd_partition (linked_env counting_iop (\<lambda>m. usbd_bytes) obliging no_config) t"
proof -
  let ?env = "linked_env counting_iop (\<lambda>m. usbd_bytes) obliging no_config"
  let ?s = "(drv_start 5)\<lparr>cwd_path := ''hdd0:p:pfs:/'', hdd_init_status := HDD_INIT_STATUS_IRX_OK\<rparr>"
  have parts: "part ''hdd0''" "part ''p''" "part ''pfs''" "CHR '':'' \<notin> set ''/''"
    by (simp_all add: part_def)
  obtain w' where "getMountInfo (mount_path ''hdd0'' ''p'' ''pfs'' ''/'') (mount_start []) =
      Some (Some (''pfs'' @ '':'', ''hdd0'' @ '':'' @ ''p'', ''pfs'' @ '':'' @ ''/''), w')"
    by (rule getMountInfo_mount_path [OF parts mount_start_wf mount_start_succeeds])
  then obtain t where t: "mount_current_hdd_partition ?env (mount_start []) ?s = Some (HDD_MOUNT_STATUS_OK, w', t)"
    by (simp add: mount_current_hdd_partition_def mount_path_def cwd_is_hdd_def lib_def linked_env_def obliging_def Let_def)
  have "fst (mount_hdd_partition ?env ''pfs1:'' ''hdd0:q'' ?s) = HDD_MOUNT_STATUS_OK"
      "mount_status ?s = HDD_MOUNT_STATUS_UKNOWN"
    by (simp_all add: mount_hdd_partition_def lib_def linked_env_def obliging_def drv_start_def Let_def)
  from mount_umount [OF t this] t show ?thesis
    by blast
qed

subsection \<open>The filesystem facade\<close>

text \<open>
  C34: waiting for a device returns after at most 500 tries. It returns true, right after the
  first try that is answered with 0, when one of the 500 is, and false after all of them
  otherwise.
\<close>

theorem device_wait:
  "(\<forall>k < 500. (\<forall>i < k. fst (stat_once env path (after_stats env path i s)) \<noteq> 0) \<and>
       fst (stat_once env path (after_stats env path k s)) = 0 \<longrightarrow>
       waitUntilDeviceIsReady env path s = (True, after_stats env path (Suc k) s)) \<and>
   ((\<forall>i < 500. fst (stat_once env path (after_stats env path i s)) \<noteq> 0) \<longrightarrow>
      waitUntilDeviceIsReady env path s = (False, after_stats env path 500 s))"
proof (intro conjI allI impI)
  fix k :: nat
  assume k: "k < 500" "(\<forall>i < k. fst (stat_once env path (after_stats env path i s)) \<noteq> 0) \<and>
       fst (stat_once env path (after_stats env path k s)) = 0"
  then have "wait_ready env path 500 (-1) s = (0, after_stats env path (Suc k) s)"
    by (intro wait_ready_finds) auto
  then show "waitUntilDeviceIsReady env path s = (True, after_stats env path (Suc k) s)"
    by (simp add: waitUntilDeviceIsReady_def)
next
  assume "\<forall>i < 500. fst (stat_once env path (after_stats env path i s)) \<noteq> 0"
  from wait_ready_fails [OF this, of "-1"]
  show "waitUntilDeviceIsReady env path s = (False, after_stats env path 500 s)"
    by (simp add: waitUntilDeviceIsReady_def case_prod_unfold)
qed

theorem device_wait_witness:
  "fst (waitUntilDeviceIsReady
     (linked_env counting_iop (\<lambda>m. usbd_bytes) (\<lambda>es c. if length es = 2 then 0 else -1) no_config) ''mass:/''
     (drv_start 5))"
proof -
  let ?env = "linked_env counting_iop (\<lambda>m. usbd_bytes) (\<lambda>es c. if length es = 2 then 0 else -1) no_config"
  have "fst (stat_once ?env ''mass:/'' (drv_start 5)) \<noteq> 0"
    and "fst (stat_once ?env ''mass:/'' (after_stats ?env ''mass:/'' 1 (drv_start 5))) = 0"
    by (simp_all add: stat_once_def after_stats_def lib_def linked_env_def Let_def)
  then have "(\<forall>i < 1. fst (stat_once ?env ''mass:/'' (after_stats ?env ''mass:/'' i (drv_start 5))) \<noteq> 0) \<and>
      fst (stat_once ?env ''mass:/'' (after_stats ?env ''mass:/'' 1 (drv_start 5))) = 0"
    by auto
  with device_wait [of ?env "''mass:/''" "drv_start 5"] have
    "waitUntilDeviceIsReady ?env ''mass:/'' (drv_start 5) = (True, after_stats ?env ''mass:/'' (Suc 1) (drv_start 5))"
    by (metis one_less_numeral_iff semiring_norm(76))
  then show ?thesis
    by simp
qed

text \<open>
  C36: the initialisation for the boot device executes only modules that staging for that
  device provides, and takes exactly those from the store. For a hard disk it leaves out bdm and
  bdmfs_fatfs, so what is staged for these two stays in the store.
\<close>

theorem only_boot_executes:
  assumes "init_only_boot_ps2_filesystem_driver (image_env sif ans cfg) w s = Some (w', t)"
    and "img_inv (fst (prov s))"
  shows "\<exists>es. events t = events s @ es \<and>
    (\<forall>m \<in> fst ` set (execs es).
       m \<in> required_modules (ps2_drivers_img_requirements_for_boot_device (getBootDeviceID (Some (cwd_path s))))) \<and>
    (\<forall>m. staged_map (fst (prov t)) (irx_id m) =
       (if m \<in> fst ` set (execs es) then None else staged_map (fst (prov s)) (irx_id m))) \<and>
    (getBootDeviceID (Some (cwd_path s)) \<in> {BOOT_DEVICE_HDD, BOOT_DEVICE_HDD0} \<longrightarrow>
       staged_map (fst (prov t)) (irx_id BDM) = staged_map (fst (prov s)) (irx_id BDM) \<and>
       staged_map (fst (prov t)) (irx_id BDMFS_FATFS) = staged_map (fst (prov s)) (irx_id BDMFS_FATFS))"
proof -
  let ?d = "getBootDeviceID (Some (cwd_path s))"
  have ran: "ran (image_env sif ans cfg) (only_boot_modules ?d) (only_boot_modules ?d) s t"
    by (rule init_only_boot_ran [OF assms(1)])
  then obtain es where es: "events t = events s @ es" "fst ` set (execs es) \<subseteq> only_boot_modules ?d"
    by (auto simp: ran_def)
  note gone = ran_consumes [OF ran assms(2) es(1)]
  show ?thesis
    by (intro exI [of _ es] conjI es(1) allI gone impI)
      (use es(2) gone in \<open>auto simp: only_boot_modules_def simp del: irx_id.simps\<close>)
qed

theorem only_boot_executes_witness:
  "\<exists>w' t. init_only_boot_ps2_filesystem_driver (image_env counting_iop obliging no_config) (mount_start [False])
       ((drv_start (fresh [], 5))\<lparr>cwd_path := ''hdd0:p:pfs:/''\<rparr>) = Some (w', t) \<and>
     staged_map (fst (prov t)) (irx_id BDM) = None"
proof -
  let ?env = "image_env counting_iop obliging no_config" and ?s = "(drv_start (fresh [], 5))\<lparr>cwd_path := ''hdd0:p:pfs:/''\<rparr>"
  obtain w' t where t: "init_only_boot_ps2_filesystem_driver ?env (mount_start [False]) ?s = Some (w', t)"
    using init_only_boot_without_memory by fastforce
  have "img_inv (fst (prov ?s))"
    by (simp add: fresh_inv)
  from only_boot_executes [OF t this] have "staged_map (fst (prov t)) (irx_id BDM) = None"
    by (auto simp: fresh_store simp del: irx_id.simps split: if_splits)
  with t show ?thesis
    by blast
qed

text \<open>
  The initialisation of all filesystems executes only modules that staging for all
  filesystems provides; no other slot changes.
\<close>

lemma all_filesystems_execute:
  assumes "init_ps2_filesystem_driver env w s = Some (w', t)"
  shows "\<exists>es. events t = events s @ es \<and>
    fst ` set (execs es) \<subseteq> required_modules PS2_DRIVER_REQ_FILESYSTEM_ALL \<and>
    (\<forall>m. m \<notin> required_modules PS2_DRIVER_REQ_FILESYSTEM_ALL \<longrightarrow> slots t m = slots s m)"
  using init_all_ran [OF assms] by (auto simp: ran_def)

lemma all_filesystems_execute_witness:
  "\<exists>w' t. init_ps2_filesystem_driver (linked_env counting_iop (\<lambda>m. usbd_bytes) obliging no_config) (mount_start [False])
       (drv_start 5) = Some (w', t) \<and> slots t PS2MOUSE = reset_slot"
proof -
  let ?env = "linked_env counting_iop (\<lambda>m. usbd_bytes) obliging no_config"
  obtain w' t where t: "init_ps2_filesystem_driver ?env (mount_start [False]) (drv_start 5) = Some (w', t)"
    using init_all_without_memory by fastforce
  have "PS2MOUSE \<notin> required_modules PS2_DRIVER_REQ_FILESYSTEM_ALL"
    by (simp add: PS2_DRIVER_REQ_FILESYSTEM_ALL_def required_modules_or)
  with all_filesystems_execute [OF t] t show ?thesis
    by auto
qed

text \<open>
  Releasing after an initialisation for the boot device only releases fileXio and iomanX:
  no function assigns the variable the release looks at, so the drivers of the device stay
  loaded.
\<close>

lemma only_boot_release:
  assumes "init_only_boot_ps2_filesystem_driver env w s = Some (w', t)" and "boot_device_id s = BOOT_DEVICE_UNKNOWN"
  shows "\<exists>u. deinit_only_boot_ps2_filesystem_driver env t = Some u \<and>
    (\<forall>m. m \<notin> {IOMANX, FILEXIO} \<longrightarrow> slots u m = slots t m)"
proof -
  have "boot_device_id t = BOOT_DEVICE_UNKNOWN"
    using init_only_boot_keeps [OF assms(1)] assms(2) by simp
  then have "deinit_only_boot_ps2_filesystem_driver env t = Some (deinit_fileXio_driver env t)"
    by (simp add: deinit_only_boot_ps2_filesystem_driver_def internal_deinit_only_boot_def)
  then show ?thesis
    by (auto simp: deinit_fileXio_driver_def unloadIRXs_fileXio_def unload_irxs_slot Let_def)
qed

lemma only_boot_release_witness:
  "\<exists>w' t u. init_only_boot_ps2_filesystem_driver (linked_env counting_iop (\<lambda>m. usbd_bytes) obliging no_config)
       (mount_start [False]) (drv_start 5) = Some (w', t) \<and>
     deinit_only_boot_ps2_filesystem_driver (linked_env counting_iop (\<lambda>m. usbd_bytes) obliging no_config) t = Some u \<and>
     slots u USBD = slots t USBD"
proof -
  let ?env = "linked_env counting_iop (\<lambda>m. usbd_bytes) obliging no_config"
  obtain w' t where t: "init_only_boot_ps2_filesystem_driver ?env (mount_start [False]) (drv_start 5) = Some (w', t)"
    using init_only_boot_without_memory by fastforce
  have "boot_device_id (drv_start 5) = BOOT_DEVICE_UNKNOWN"
    by (simp add: drv_start_def)
  from only_boot_release [OF t this] t show ?thesis
    by fastforce
qed

text \<open>
  Releasing all filesystems initialises mx4sio instead of releasing it. A loaded
  mx4sio_bd stays loaded, and one that was never loaded is executed on a console where the test
  for the hardware is positive.
\<close>

lemma release_loads_mx4sio:
  assumes "deinit_ps2_filesystem_driver env s = Some t"
  shows "(CHECK_IRX_UNLOAD (slots s MX4SIO_BD) \<longrightarrow> slots t MX4SIO_BD = slots s MX4SIO_BD) \<and>
    (slots s MX4SIO_BD = reset_slot \<and> (\<forall>es. answer env es COP2Pipelined \<noteq> 0) \<longrightarrow>
       (\<exists>es. events t = events s @ es \<and> map fst (execs es) = [MX4SIO_BD]))"
proof -
  let ?u = "umount_current_hdd_partition env s"
  have u: "internal_deinit_ps2_filesystem_driver env True ?u = Some t" "slots ?u = slots s"
    using assms by (auto simp: deinit_ps2_filesystem_driver_def umount_current_hdd_partition_def
        umount_hdd_partition_def case_prod_unfold Let_def)
  obtain fs where fs: "events ?u = events s @ fs" "execs fs = []"
  proof (rule that)
    let ?fs = "drop (length (events s)) (events ?u)"
    show "events ?u = events s @ ?fs" "execs ?fs = []"
      by (auto simp: umount_current_hdd_partition_def umount_hdd_partition_def lib_def Let_def)
  qed
  show ?thesis
  proof (intro conjI impI)
    show "slots t MX4SIO_BD = slots s MX4SIO_BD" if "CHECK_IRX_UNLOAD (slots s MX4SIO_BD)"
      using release_all_mx4sio(1) [OF u(1)] that by (simp add: u(2))
    assume "slots s MX4SIO_BD = reset_slot \<and> (\<forall>es. answer env es COP2Pipelined \<noteq> 0)"
    then obtain es where "events t = events ?u @ es" "map fst (execs es) = [MX4SIO_BD]"
      using release_all_mx4sio(2) [OF u(1)] by (auto simp: u(2))
    with fs show "\<exists>es. events t = events s @ es \<and> map fst (execs es) = [MX4SIO_BD]"
      by (intro exI [of _ "fs @ es"]) simp
  qed
qed

lemma release_loads_mx4sio_witness:
  "\<exists>t. deinit_ps2_filesystem_driver (linked_env counting_iop (\<lambda>m. usbd_bytes) obliging no_config) (drv_start 5) = Some t \<and>
     map fst (execs (events t)) = [MX4SIO_BD]"
proof -
  let ?env = "linked_env counting_iop (\<lambda>m. usbd_bytes) obliging no_config"
  have "libraries_work (answer ?env)"
    by (simp add: linked_env_def obliging_works)
  then obtain t where t: "deinit_ps2_filesystem_driver ?env (drv_start 5) = Some t"
    using deinit_all_returns by blast
  have "\<forall>es. answer ?env es COP2Pipelined \<noteq> 0"
    by (simp add: linked_env_def obliging_def)
  with release_loads_mx4sio [OF t] t show ?thesis
    by auto
qed

subsection \<open>The network\<close>



text \<open>
  The same for the stack on the I/O processor, which has no DHCP: the stages its
  result tells, at most the timeout, and all of it when the link does not come up.
\<close>

lemma iopip_stages_reported:
  assumes "configure_iopip_network k env (Some cfg) s = (st, t)"
  shows "\<exists>es. events t = events s @ es \<and>
    iop_progress es = (if iop_on_progress cfg then iopip_stages st else []) \<and>
    sleeps es \<le> iopip_timeout cfg \<and>
    (st = IOPIP_NET_STATUS_LINK_TIMEOUT \<longrightarrow> sleeps es = iopip_timeout cfg) \<and>
    execs es = [] \<and> slots t = slots s"
proof -
  obtain j where j: "reported iop_progress (iop_on_progress cfg) s (iopip_stages st) j t"
    "j \<le> iopip_timeout cfg" "st = IOPIP_NET_STATUS_LINK_TIMEOUT \<Longrightarrow> j = iopip_timeout cfg"
    by (rule configure_iopip_result [OF assms]) blast
  then obtain es where "events t = events s @ es" "slots t = slots s" "sleeps es = j" "execs es = []"
      "iop_progress es = (if iop_on_progress cfg then iopip_stages st else [])"
    unfolding reported_def by blast
  with j show ?thesis
    by (intro exI [of _ es]) simp
qed

lemma iopip_stages_reported_witness:
  "\<exists>es. events (snd (configure_iopip_network
        \<lparr>LINK_STATE_UP = 1, LINK_MODE_AUTO = 0, DHCP_STATE_BOUND = 10, DHCP_STATE_OFF = 0\<rparr>
        (linked_env counting_iop (\<lambda>m. usbd_bytes) (\<lambda>es c. 0) no_config)
        (Some \<lparr>iop_ip = 1, iop_netmask = 2, iop_gateway = 3, iop_link_mode = 0, iop_timeout_seconds = 2,
               iop_on_progress = True\<rparr>) (drv_start 5))) = es \<and>
     sleeps es \<le> 2 \<and> execs es = []"
proof -
  let ?k = "\<lparr>LINK_STATE_UP = 1, LINK_MODE_AUTO = 0, DHCP_STATE_BOUND = 10, DHCP_STATE_OFF = 0\<rparr> :: net_numbers"
  let ?env = "linked_env counting_iop (\<lambda>m. usbd_bytes) (\<lambda>es c. 0) no_config"
  let ?cfg = "\<lparr>iop_ip = 1, iop_netmask = 2, iop_gateway = 3, iop_link_mode = 0, iop_timeout_seconds = 2,
               iop_on_progress = True\<rparr> :: iopip_network_config"
  obtain st t where run: "configure_iopip_network ?k ?env (Some ?cfg) (drv_start 5) = (st, t)"
    by fastforce
  with iopip_stages_reported [OF run] show ?thesis
    by (auto simp: iopip_timeout_def)
qed

subsection \<open>The image tool\<close>

text \<open>
  C4: end to end, from the files of the modules to the staged bytes. When \<^verbatim>\<open>pack_image\<close>
  returns 0 and the image stays below 4 GiB, staging from the written file succeeds for all
  requirements whose modules the manifest lists, and every required module is staged with the
  bytes of its file; modules that are not required are not staged.
\<close>

theorem packed_image_stages:
  assumes "heap_wf w" and "pack_image manifest_path dir_path out w = (0, w')"
    and "load_manifest manifest_path w = (Some m, w1)" and "image_small (packed (files w) dir_path (m_entries m))"
    and "img_inv s" and "staged_map s = Map.empty" and "all_succeed s" and "files s path = files w' out"
    and "q \<noteq> 0" and "\<not> unknown_bits q" and "irx_id ` required_modules q \<subseteq> me_id ` set (m_entries m)"
  shows "\<exists>t. ps2_drivers_img_stage (Some path) q s = (PS2_DRIVERS_IMG_OK, t) \<and>
    (\<forall>e \<in> set (m_entries m). staged_map t (me_id e) =
       (if me_id e \<in> irx_id ` required_modules q then files w (payload_path dir_path e) else None))"
proof -
  let ?ps = "packed (files w) dir_path (m_entries m)"
  have there: "modules_there (files w) dir_path (m_entries m)" and img: "files w' out = Some (image_of ?ps (m_crc32 m))"
    using pack_image_result [OF assms(2,1)] assms(3,4) by auto
  have ok: "manifest_ok (m_entries m)"
    using load_manifest_result [OF assms(3)] by simp
  note ps = packable_packed [OF ok there assms(4)]
  let ?ids = "requested_ids (expand_requirements q no_modules)"
  have "irx_id ` required_modules q \<subseteq> fst ` set ?ps"
    using assms(11) ps(2) by (metis list.set_map)
  then have "stage_outcome (staged_map s) (files s) (Some path) q = Inr (map (\<lambda>n. (n, the (map_of ?ps n))) ?ids)"
    using assms(6,8-10) img stage_spec_image [OF ps(1)] by (simp add: stage_outcome_def)
  from stage_completes [OF assms(5,7) this] obtain t where t:
    "ps2_drivers_img_stage (Some path) q s = (PS2_DRIVERS_IMG_OK, t)"
    "staged_map t = map_of (map (\<lambda>n. (n, the (map_of ?ps n))) ?ids)"
    by blast
  have held: "staged_map t n = (if n \<in> irx_id ` required_modules q then Some (the (map_of ?ps n)) else None)" for n
    unfolding t(2) Map.map_of_map_restrict by (simp add: restrict_map_def set_requested_ids)
  have "staged_map t (me_id e) =
      (if me_id e \<in> irx_id ` required_modules q then files w (payload_path dir_path e) else None)"
    if "e \<in> set (m_entries m)" for e
    using ps(3) [OF that] there that by (auto simp: held modules_there_def)
  with t(1) show ?thesis
    by blast
qed

text \<open>
  C6: an image that was packed is accepted by the tool's own validation against the same manifest,
  without a read outside of it, when the manifest was not overwritten and no call fails. Without
  failing calls packing succeeds whenever the manifest loads, the modules are there and the
  image stays below 4 GiB.
\<close>

theorem pack_validates:
  assumes "heap_wf w" and "load_manifest manifest_path w = (Some m, w1)"
    and "image_small (packed (files w) dir_path (m_entries m))"
    and "modules_there (files w) dir_path (m_entries m)" and "all_succeed w"
    and "heap_wf v" and "all_succeed v" and "files v manifest_path = files w manifest_path"
    and "files v image_path = files (snd (pack_image manifest_path dir_path out w)) out"
  shows "fst (pack_image manifest_path dir_path out w) = 0 \<and>
    (\<exists>v'. validate_image_internal manifest_path image_path v = (0, v') \<and> ub v' = ub v)"
proof -
  obtain r w' where run: "pack_image manifest_path dir_path out w = (r, w')"
    by fastforce
  note res = pack_image_result [OF run assms(1)]
  have img: "r = 0" "files w' out = Some (image_of (packed (files w) dir_path (m_entries m)) (m_crc32 m))"
    using res assms(2-5) by auto
  have ok: "manifest_ok (m_entries m)"
    using load_manifest_result [OF assms(2)] by simp
  note ps = packable_packed [OF ok assms(4,3)]
  have "files v image_path = Some (image_of (packed (files w) dir_path (m_entries m)) (m_crc32 m))"
    using assms(9) run img by simp
  from validate_packed [OF assms(6,7,2,8) this ps(1,2)] run img show ?thesis
    by simp
qed

text \<open>
  C5: whatever the command line, and whatever calls fail, the tool ends with the exit status 0, 1
  or, for a command line it does not know, 2, with all memory released and all streams closed;
  only packing writes a file, its output, and packing has no undefined behaviour.
\<close>

theorem tool_releases:
  assumes "heap_wf w" and "tool_main argv w = (r, w')"
  shows "heap w' = heap w \<and> opened w' = opened w \<and>
    (if length argv = 5 \<and> argv ! 1 = ''pack''
     then r \<in> {0, 1} \<and> ub w' = ub w \<and> (\<forall>p. p \<noteq> argv ! 4 \<longrightarrow> files w' p = files w p)
     else files w' = files w \<and>
       (if length argv = 4 \<and> argv ! 1 \<in> {''validate'', ''inspect''} then r \<in> {0, 1} else r = 2 \<and> w' = w))"
proof (cases "length argv = 5 \<and> argv ! 1 = ''pack''")
  case True
  then have "pack_image (argv ! 2) (argv ! 3) (argv ! 4) w = (r, w')"
    using assms(2) by (simp add: tool_main_def)
  with pack_image_result [OF this assms(1)] True show ?thesis
    by (auto simp: only_wrote_def)
next
  case pack: False
  show ?thesis
  proof (cases "length argv = 4 \<and> argv ! 1 \<in> {''validate'', ''inspect''}")
    case True
    with pack have "validate_image_internal (argv ! 2) (argv ! 3) w = (r, w')"
      using assms(2) unfolding tool_main_def by (auto split: if_splits)
    from validate_image_effect [OF this assms(1)] pack True show ?thesis
      by simp
  next
    case False
    with pack have "(r, w') = (2, w)"
      using assms(2) unfolding tool_main_def by (auto split: if_splits)
    with pack False show ?thesis
      by simp
  qed
qed

text \<open>
  The bounds the validation checks keep an entry inside of the image unless its
  offset is behind the end, which is not checked: then the checksum is computed over bytes
  outside of the image, which is undefined behaviour.
\<close>

lemma validator_reads_outside:
  assumes "length img < 4294967296" and "e = read_entry (bytes_at (44 + i * 20) 20 img)"
    and "e_id e = me_id m" and "\<not> tool_entry_bad po prev (of_nat (length img)) e"
  shows "(unat (e_offset e) + unat (e_size e) \<le> length img \<longleftrightarrow> unat (e_offset e) \<le> length img) \<and>
    (length img < unat (e_offset e) \<longrightarrow>
       ub (snd (validate_entries img (of_nat (length img)) po (m # ms) i prev w)))"
proof (intro conjI impI)
  show iff: "unat (e_offset e) + unat (e_size e) \<le> length img \<longleftrightarrow> unat (e_offset e) \<le> length img"
    by (rule tool_entry_bounds [OF assms(4,1)])
  assume "length img < unat (e_offset e)"
  then have "ub (snd (image_slice (unat (e_offset e)) (unat (e_size e)) img v))" for v :: tool_world
    using iff by (simp add: image_slice_def)
  then show "ub (snd (validate_entries img (of_nat (length img)) po (m # ms) i prev w))"
    using assms(2-4) validate_entries_ub by (simp add: image_slice_def case_prod_unfold Let_def)
qed

theorem packed_image_stages_witness:
  "\<exists>t. ps2_drivers_img_stage (Some sample_path) usbd_req
       ((fresh [])\<lparr>files := (\<lambda>p. files (snd (pack_image ''manifest'' ''irx'' ''out'' sample_run)) ''out'')\<rparr>) =
       (PS2_DRIVERS_IMG_OK, t) \<and> staged_map t 8 = Some usbd_bytes"
proof -
  obtain r w' where run: "pack_image ''manifest'' ''irx'' ''out'' sample_run = (r, w')"
    by fastforce
  have "r = 0"
    using pack_image_result [OF run sample_run_wf] sample_run_manifest sample_run_small sample_run_modules(1)
      sample_run_succeeds by auto
  then have packed: "pack_image ''manifest'' ''irx'' ''out'' sample_run = (0, w')"
    using run by simp
  let ?s = "(fresh [])\<lparr>files := (\<lambda>p. files w' ''out'')\<rparr>"
  have s: "img_inv ?s" "staged_map ?s = Map.empty" "all_succeed ?s" "files ?s sample_path = files w' ''out''"
    by (auto simp: fresh_def all_succeed_def staged_map_def intro!: img_initial_inv)
      (simp add: img_initial_def heap_wf_def)
  have q: "usbd_req \<noteq> 0" "\<not> unknown_bits usbd_req"
      "irx_id ` required_modules usbd_req \<subseteq> me_id ` set (m_entries usbd_manifest)"
    by (simp add: req_mask_def) (simp_all add: usbd_manifest_def Let_def)
  show ?thesis
    using packed_image_stages [OF sample_run_wf packed sample_run_manifest sample_run_small s q] packed
    by (auto simp: usbd_manifest_def payload_path_def sample_run_path sample_run_def Let_def)
qed

theorem pack_validates_witness:
  "\<exists>v'. validate_image_internal ''manifest'' ''image'' 
      (sample_run\<lparr>files := (files sample_run)(''image'' := files (snd (pack_image ''manifest'' ''irx'' ''out'' sample_run)) ''out'')\<rparr>) =
    (0, v') \<and> \<not> ub v'"
proof -
  let ?img = "files (snd (pack_image ''manifest'' ''irx'' ''out'' sample_run)) ''out''"
  let ?v = "sample_run\<lparr>files := (files sample_run)(''image'' := ?img)\<rparr>"
  have v: "heap_wf ?v" "all_succeed ?v" "files ?v ''manifest'' = files sample_run ''manifest''" "files ?v ''image'' = ?img"
    using sample_run_wf sample_run_succeeds by (simp_all add: heap_wf_def all_succeed_def)
  have "\<not> ub ?v"
    by (simp add: sample_run_def)
  then show ?thesis
    using pack_validates [OF sample_run_wf sample_run_manifest sample_run_small sample_run_modules(1)
        sample_run_succeeds v] by simp
qed

theorem tool_releases_witness:
  "opened (snd (tool_main [''ps2_irximg'', ''pack'', ''manifest'', ''irx'', ''out''] sample_run)) = 0 \<and>
   heap (snd (tool_main [''ps2_irximg'', ''pack'', ''manifest'', ''irx'', ''out''] sample_run)) = Map.empty"
proof -
  obtain r w' where "tool_main [''ps2_irximg'', ''pack'', ''manifest'', ''irx'', ''out''] sample_run = (r, w')"
    by fastforce
  with tool_releases [OF sample_run_wf this] show ?thesis
    by (simp add: sample_run_def)
qed

lemma validator_reads_outside_witness:
  "ub (snd (validate_entries
     (replicate 44 0 @ concat (map write_u32_le [8, 80, 1, 0, 0])) 64 64 (m_entries usbd_manifest) 0 64 (tool_start [])))"
proof -
  let ?img = "replicate 44 0 @ concat (map write_u32_le [8, 80, 1, 0, 0]) :: u8 list"
  let ?e = "\<lparr>e_id = 8, e_offset = 80, e_size = 1, e_crc32 = 0, e_flags = 0\<rparr>"
  have len: "length ?img = 64"
    by simp
  have "read_entry (bytes_at (44 + 0 * 20) 20 ?img) = ?e"
    by (simp add: bytes_at_def read_entry_def)
  moreover have "\<not> tool_entry_bad 64 64 (of_nat (length ?img)) ?e"
    by (simp add: len tool_entry_bad_def format_defs)
  ultimately show ?thesis
    using validator_reads_outside [of ?img ?e 0 "hd (m_entries usbd_manifest)" 64 64 "[]" "tool_start []"]
    by (simp add: usbd_manifest_def Let_def)
qed

text \<open>
  C40: a manifest the tool loads has 1 to 128 entries with different numbers that are not 0;
  every text field is not empty, fits its array of 128 bytes with its end, and has no separator
  in it; and its checksum is that of the fields in order.
\<close>

theorem manifest_wellformed:
  assumes "load_manifest path w = (Some m, w')"
  shows "1 \<le> length (m_entries m) \<and> length (m_entries m) \<le> 128 \<and> distinct (map me_id (m_entries m)) \<and>
    (\<forall>e \<in> set (m_entries m). me_id e \<noteq> 0 \<and>
       (\<forall>s \<in> {me_filename e, me_symbol e, me_name e}.
          0 < length s \<and> length (c_bytes s) \<le> 128 \<and> CHR ''|'' \<notin> set s \<and> CHR 0x00 \<notin> set s)) \<and>
    m_crc32 m = crc32_bytes (concat (map manifest_raw (m_entries m)))"
proof -
  have ok: "manifest_ok (m_entries m)" "m_crc32 m = manifest_logical_crc (m_entries m)"
    using load_manifest_result [OF assms] by simp_all
  have f: "\<forall>e \<in> set (m_entries m). field_ok (me_filename e) \<and> field_ok (me_symbol e) \<and> field_ok (me_name e)"
    using load_manifest_fields [OF assms] by (simp add: fields_ok_def)
  have "1 \<le> length (m_entries m)" "\<forall>e \<in> set (m_entries m). me_id e \<noteq> 0"
    using ok(1) by (force simp: manifest_ok_def Suc_le_eq)+
  with ok f show ?thesis
    by (simp add: manifest_ok_def manifest_crc_raw field_ok_def c_bytes_def Suc_le_eq)
qed

theorem manifest_wellformed_witness:
  "m_crc32 usbd_manifest = crc32_bytes (concat (map manifest_raw (m_entries usbd_manifest)))"
  using manifest_wellformed [OF sample_run_manifest] by simp

subsection \<open>The staging test\<close>

text \<open>
  C10: In a world where no call fails, started on the host, the staging test
  of src/tools/ps2_irximg_stage_test.c exits with zero exactly when the image on its command
  line serves each of its 21 requirements and the default image each of the four that the
  convenience functions ask for; and then it has given back all memory. Otherwise, if the image
  on the command line is at fault, the exit status is ten plus the number of the first
  requirement it does not serve.
\<close>

theorem stage_test_verdict:
  assumes "test_world s"
  shows "(fst (stage_test_main [prog, path] s) = 0 \<longleftrightarrow>
      (\<forall>q \<in> set test_requirements. serves (files s) path q) \<and>
      (\<forall>q \<in> set default_requirements. serves (files s) PS2_DRIVERS_IMG_DEFAULT_PATH q)) \<and>
    (fst (stage_test_main [prog, path] s) = 0 \<longrightarrow> heap (snd (stage_test_main [prog, path] s)) = Map.empty) \<and>
    (j < length test_requirements \<longrightarrow> \<not> serves (files s) path (test_requirements ! j) \<longrightarrow>
      (\<forall>k < j. serves (files s) path (test_requirements ! k)) \<longrightarrow>
      fst (stage_test_main [prog, path] s) = 10 + int j)"
proof -
  let ?run = "stage_test_main [prog, path] s"
  note refused = stage_test_refused [OF assms, of _ path prog]
  have number: "j < length test_requirements \<longrightarrow> \<not> serves (files s) path (test_requirements ! j) \<longrightarrow>
      (\<forall>k < j. serves (files s) path (test_requirements ! k)) \<longrightarrow> fst ?run = 10 + int j"
    using refused by blast
  have "fst ?run \<noteq> 0" if "\<not> (\<forall>q \<in> set test_requirements. serves (files s) path q)"
  proof -
    from that have "\<exists>i. i < length test_requirements \<and> \<not> serves (files s) path (test_requirements ! i)"
      by (auto simp: in_set_conv_nth)
    from iffD1 [OF exists_least_iff this] obtain i where "i < length test_requirements" "\<not> serves (files s) path (test_requirements ! i)"
        "\<forall>k < i. \<not> (k < length test_requirements \<and> \<not> serves (files s) path (test_requirements ! k))"
      by blast
    with refused [of i] show ?thesis
      by simp
  qed
  note failing = this
  have idle: "heap (snd ?run) = Map.empty" if "idle (files s) (cwd s) None (snd ?run)"
    using that by (auto simp: idle_def ready_def intro: idle_heap_empty)
  let ?path = "\<forall>q \<in> set test_requirements. serves (files s) path q"
  let ?default = "\<forall>q \<in> set default_requirements. serves (files s) PS2_DRIVERS_IMG_DEFAULT_PATH q"
  have "(fst ?run = 0 \<longleftrightarrow> ?path \<and> ?default) \<and> (fst ?run = 0 \<longrightarrow> heap (snd ?run) = Map.empty)"
  proof (cases ?path)
    case True
    note v = stage_test_serves [OF assms True, of prog]
    show ?thesis
    proof (cases ?default)
      case default: True
      with v idle True show ?thesis
        unfolding verdict_def by (simp only: if_True simp_thms)
    next
      case default: False
      with v show ?thesis
        unfolding verdict_def by (simp only: if_False simp_thms)
    qed
  next
    case False
    with failing [OF False] show ?thesis
      by (simp only: simp_thms)
  qed
  with number show ?thesis
    by blast
qed

theorem stage_test_verdict_witness:
  "fst (stage_test_main [''test'', ''out.irximg''] complete_start) = 0 \<and>
    heap (snd (stage_test_main [''test'', ''out.irximg''] complete_start)) = Map.empty"
proof -
  note served = complete_image_serves [OF complete_modules_packable complete_modules_range, of "files complete_start" _ 0]
  have "(\<forall>q \<in> set test_requirements. serves (files complete_start) ''out.irximg'' q) \<and>
      (\<forall>q \<in> set default_requirements. serves (files complete_start) PS2_DRIVERS_IMG_DEFAULT_PATH q)"
    using requirements_known served [OF complete_start_files(1)] served [OF complete_start_files(2)] by simp
  then show ?thesis
    using stage_test_verdict [OF complete_start_world, of "''test''" "''out.irximg''"] by blast
qed

text \<open>
  C22: the tool chain's own test passes on what the image tool packs. When \<^verbatim>\<open>pack_image\<close> returned 0
  for a manifest that names every module of the repository and an image below 4 GiB, and again for the
  default image, and the files are where the test looks for them, then the test exits with zero,
  started on the host with nothing staged and no call of the C library failing.
\<close>

theorem stage_test_accepts:
  assumes "test_world s"
    and "heap_wf w" "pack_image manifest_path dir_path out w = (0, w')" "load_manifest manifest_path w = (Some m, w1)"
      "image_small (packed (files w) dir_path (m_entries m))" "range irx_id \<subseteq> me_id ` set (m_entries m)"
      "files s path = files w' out"
    and "heap_wf v" "pack_image manifest_path' dir_path' out' v = (0, v')" "load_manifest manifest_path' v = (Some n, v1)"
      "image_small (packed (files v) dir_path' (m_entries n))" "range irx_id \<subseteq> me_id ` set (m_entries n)"
      "files s PS2_DRIVERS_IMG_DEFAULT_PATH = files v' out'"
  shows "fst (stage_test_main [prog, path] s) = 0"
proof -
  have "serves (files s) path q" if "q \<in> set test_requirements" for q
    using packed_serves [OF assms(2-6), where fs = "files s", OF assms(7)] requirements_known that by simp
  moreover have "serves (files s) PS2_DRIVERS_IMG_DEFAULT_PATH q" if "q \<in> set default_requirements" for q
    using packed_serves [OF assms(8-12), where fs = "files s", OF assms(13)] requirements_known that by simp
  ultimately show ?thesis
    using stage_test_serves [OF assms(1), of path prog] by (simp add: verdict_def)
qed

theorem stage_test_accepts_witness:
  "\<exists>w'. pack_image ''manifest'' ''irx'' ''out'' repo_run = (0, w') \<and>
     fst (stage_test_main [''test'', ''out.irximg''] (repo_start (files w' ''out''))) = 0"
proof -
  obtain w' where w': "pack_image ''manifest'' ''irx'' ''out'' repo_run = (0, w')"
    by (rule repo_packed)
  have all: "range irx_id \<subseteq> me_id ` set (m_entries repo_manifest)"
    using repo_manifest_ids by simp
  have small: "image_small (packed (files repo_run) ''irx'' (m_entries repo_manifest))"
    using repo_run_small by (simp add: repo_manifest_def)
  from stage_test_accepts [OF repo_start_world repo_run_wf w' repo_run_manifest small all repo_start_files(1)
      repo_run_wf w' repo_run_manifest small all repo_start_files(2)] w' show ?thesis
    by blast
qed

text \<open>
  C24: the image tool loads the manifest of the repository, irx/manifest.txt, whenever no call
  fails. It finds the 27 modules of the model, in order and with the numbers the runtime uses for them,
  each with the file and the symbol that are named after it.
\<close>

theorem repo_manifest_entries:
  assumes "files w path = Some (string_bytes manifest_txt)" "all_succeed w"
  shows "\<exists>m. fst (load_manifest path w) = Some m \<and>
    map me_id (m_entries m) = map irx_id all_irx \<and> map me_name (m_entries m) = module_names \<and>
    me_id ` set (m_entries m) = range irx_id \<and>
    (\<forall>e \<in> set (m_entries m). me_filename e = me_name e @ ''.irx'' \<and>
       me_symbol e = map (\<lambda>c. if c = CHR ''-'' then CHR ''_'' else c) (me_name e) @ ''_irx'')"
  using repo_manifest_loads [OF assms] repo_manifest_ids repo_manifest_names
  by (intro exI [of _ repo_manifest]) blast

theorem repo_manifest_entries_witness:
  "\<exists>m. fst (load_manifest ''manifest'' repo_run) = Some m \<and> length (m_entries m) = 27"
proof -
  have "files repo_run ''manifest'' = Some (string_bytes manifest_txt)"
    by (simp add: repo_run_def)
  from repo_manifest_entries [OF this repo_run_succeeds] obtain m where
    "fst (load_manifest ''manifest'' repo_run) = Some m" "map me_id (m_entries m) = map irx_id all_irx"
    by blast
  then show ?thesis
    by (metis length_map all_irx_count)
qed


subsection \<open>Programs that use the library\<close>

text \<open>
  C7: In a world where no call fails and every module loads, the image sample exits with zero
  exactly when its image serves the joystick's requirement, and with one otherwise. On success it
  has executed the three modules of the joystick, in order, twice, and given back all memory of
  the provider.
\<close>

theorem irximg_sample_runs:
  assumes "iop_loads sif" "libraries_work ans"
    and "img_initial (fst (prov s))" "all_succeed (fst (prov s))" "\<forall>m. slots s m = reset_slot"
  shows "\<exists>u. irximg_sample_main (image_env sif ans cfg) reboot [prog, path] s =
      Some (if serves (files (fst (prov s))) path joystick_req then 0 else 1, u) \<and>
    (serves (files (fst (prov s))) path joystick_req \<longrightarrow>
       heap (fst (prov u)) = Map.empty \<and>
       (\<exists>es. events u = events s @ es \<and>
          map fst (execs es) = [SIO2MAN, MTAPMAN, PADMAN, SIO2MAN, MTAPMAN, PADMAN]))"
proof -
  let ?p = "fst (prov s)"
  have idle: "idle (files ?p) (cwd ?p) None ?p"
    by (rule stage_test_start(1) [OF assms(3,4)])
  have slots: "\<forall>m \<in> {SIO2MAN, MTAPMAN, PADMAN}. slots s m = reset_slot"
    using assms(5) by blast
  show ?thesis
  proof (cases "serves (files ?p) path joystick_req")
    case True
    obtain u es where u: "irximg_sample_main (image_env sif ans cfg) reboot [prog, path] s = Some (0, u)"
        "idle (files ?p) (cwd ?p) None (fst (prov u))" "\<forall>m \<in> {SIO2MAN, MTAPMAN, PADMAN}. CHECK_IRX_UNLOAD (slots u m)"
        "events u = events s @ es" "map fst (execs es) = [SIO2MAN, MTAPMAN, PADMAN, SIO2MAN, MTAPMAN, PADMAN]"
      by (rule joystick_served [OF assms(1,2) idle slots True, of cfg reboot prog]) (rule that)
    have "heap (fst (prov u)) = Map.empty"
      using u(2) by (auto simp: idle_def ready_def intro: idle_heap_empty)
    moreover have "irximg_sample_main (image_env sif ans cfg) reboot [prog, path] s =
        Some (if serves (files ?p) path joystick_req then 0 else 1, u)"
      using u(1) True by simp
    ultimately show ?thesis
      using u(4,5) by (intro exI [of _ u] conjI impI exI [of _ es])
  next
    case False
    obtain u where "irximg_sample_main (image_env sif ans cfg) reboot [prog, path] s = Some (1, u)"
      by (rule joystick_refused [OF idle False, of sif ans cfg reboot prog])
    with False show ?thesis
      by simp
  qed
qed

theorem irximg_sample_runs_witness:
  "\<exists>u. irximg_sample_main (image_env counting_iop obliging no_config) (\<lambda>i. 0) [''sample'', ''out.irximg'']
       (drv_start (complete_start, 9)) = Some (0, u) \<and> heap (fst (prov u)) = Map.empty"
proof -
  have srv: "serves (files complete_start) ''out.irximg'' joystick_req"
    using complete_image_serves [OF complete_modules_packable complete_modules_range,
        of "files complete_start" "''out.irximg''" 0 joystick_req] complete_start_files(1) requirements_known
      test_requirement by auto
  have start: "img_initial complete_start" "all_succeed complete_start"
    using complete_start_world by (simp_all add: test_world_def)
  show ?thesis
    using irximg_sample_runs [OF counting_iop_loads obliging_works, of "drv_start (complete_start, 9)" no_config
        "\<lambda>i. 0" "''sample''" "''out.irximg''"] start srv by auto
qed

text \<open>
  C8: Whatever the image, the libraries and the I/O processor do, and whatever call fails:
  when the image sample exits with zero, it has executed each of the three modules of the
  joystick at least twice, once from the first staging and once from the second.
\<close>

theorem irximg_sample_sound:
  assumes "irximg_sample_main (image_env sif ans cfg) reboot argv s = Some (0, u)" and "img_inv (fst (prov s))"
  shows "\<exists>es fs. events u = events s @ es @ fs \<and> {SIO2MAN, MTAPMAN, PADMAN} \<subseteq> fst ` set (execs es) \<and>
    {SIO2MAN, MTAPMAN, PADMAN} \<subseteq> fst ` set (execs fs)"
  using irximg_sample_zero [OF assms] by metis

theorem irximg_sample_sound_witness:
  "\<exists>u. irximg_sample_main (image_env counting_iop obliging no_config) (\<lambda>i. 0) [''sample'', ''out.irximg'']
       (drv_start (complete_start, 9)) = Some (0, u) \<and> PADMAN \<in> fst ` set (execs (events u))"
proof -
  let ?s = "drv_start (complete_start, 9 :: nat)"
  have start: "img_initial complete_start" "all_succeed complete_start"
    using complete_start_world by (simp_all add: test_world_def)
  have idle: "idle (files complete_start) (cwd complete_start) None (fst (prov ?s))"
    using stage_test_start(1) [OF start] by simp
  have srv: "serves (files complete_start) ''out.irximg'' joystick_req"
    using complete_image_serves [OF complete_modules_packable complete_modules_range,
        of "files complete_start" "''out.irximg''" 0 joystick_req] complete_start_files(1) requirements_known
      test_requirement by auto
  have slots: "\<forall>m \<in> {SIO2MAN, MTAPMAN, PADMAN}. slots ?s m = reset_slot"
    by simp
  obtain u where u: "irximg_sample_main (image_env counting_iop obliging no_config) (\<lambda>i. 0)
      [''sample'', ''out.irximg''] ?s = Some (0, u)"
    by (rule joystick_served [OF counting_iop_loads obliging_works idle slots srv, of no_config "\<lambda>i. 0" "''sample''"])
  have "img_inv (fst (prov ?s))"
    using img_initial_inv [OF start(1)] by simp
  from irximg_sample_sound [OF u this] u show ?thesis
    by auto
qed

text \<open>
  C38: In a working environment the sample with all drivers ends, and of the modules it loaded
  exactly those of the block device manager and of the USB host stay loaded, and possibly that of
  the expansion bay: the releases without dependencies leave them to nobody.
\<close>

theorem alldrivers_leftovers:
  assumes "iop_loads sif" "libraries_work ans" "\<forall>m. slots s m = reset_slot"
  shows "\<exists>t. alldrivers_sample_main (linked_env sif linked ans cfg) reboot s = Some t \<and>
    {BDM, BDMFS_FATFS, USBD} \<subseteq> {m. CHECK_IRX_UNLOAD (slots t m)} \<and>
    {m. CHECK_IRX_UNLOAD (slots t m)} \<subseteq> {BDM, BDMFS_FATFS, USBD, PS2DEV9}"
proof -
  let ?env = "linked_env sif linked ans cfg"
  have "libraries_work (answer ?env)"
    using assms(2) by (simp add: linked_env_def)
  then obtain s1 where s1: "reset_iop ?env reboot s = Some s1"
    using reset_iop_returns by blast
  have reset: "\<forall>m. slots s1 m = reset_slot"
    using reset_iop_effect [OF s1] assms(3) by (simp add: silent_def)
  obtain t where t: "deinit_drivers ?env (init_drivers ?env s1) = Some t"
      "\<And>m. slots t m = (if m \<in> alldrivers_released \<and> CHECK_IRX_UNLOAD (slots (init_drivers ?env s1) m)
         then reset_slot else slots (init_drivers ?env s1) m)"
    using deinit_drivers_slots by blast
  have no: "\<not> CHECK_IRX_UNLOAD reset_slot"
    by (simp add: slot_defs)
  have loaded: "CHECK_IRX_UNLOAD (slots t m)" if "m \<in> {BDM, BDMFS_FATFS, USBD}" for m
  proof -
    have "m \<notin> alldrivers_released"
      using that by (auto simp: alldrivers_released_def)
    with t(2) init_drivers_usb_loaded [OF assms(1,2) reset that, of linked cfg] show ?thesis
      by simp
  qed
  have "m \<in> {BDM, BDMFS_FATFS, USBD, PS2DEV9}" if "CHECK_IRX_UNLOAD (slots t m)" for m
  proof -
    have "m \<notin> alldrivers_released" "CHECK_IRX_UNLOAD (slots (init_drivers ?env s1) m)"
      using that t(2) [of m] no by (auto split: if_splits)
    moreover have "m \<in> alldrivers_modules"
      using init_drivers_ran [of ?env s1] calculation(2) reset no unfolding ran_def by metis
    ultimately show ?thesis
      by (auto simp: alldrivers_modules_def)
  qed
  with loaded s1 t(1) show ?thesis
    by (intro exI [of _ t]) (auto simp: alldrivers_sample_main_def)
qed

theorem alldrivers_leftovers_witness:
  "\<exists>t. alldrivers_sample_main (linked_env counting_iop (\<lambda>m. usbd_bytes) obliging no_config) (\<lambda>i. 0) (drv_start 9) =
     Some t \<and> CHECK_IRX_UNLOAD (slots t USBD) \<and> \<not> CHECK_IRX_UNLOAD (slots t PADMAN)"
  using alldrivers_leftovers [OF counting_iop_loads obliging_works, of "drv_start 9" "\<lambda>m. usbd_bytes" no_config "\<lambda>i. 0"]
  by auto

text \<open>
  In the power-off sample the last call is the one that powers the console off; when the
  module of the power-off driver was loaded, the call that unloads it comes before, so there is
  no module left to serve the last call. This holds in every environment in which the sample ends.
\<close>

lemma poweroff_after_unload:
  assumes "poweroff_sample_main env reboot s = Some t"
  shows "\<exists>es r. events t = events s @ es @ [Lib PoweroffShutdown r] \<and>
    \<not> CHECK_IRX_UNLOAD (slots t POWEROFF) \<and>
    (\<forall>a n q. Exec POWEROFF a (n, Some q) \<in> set es \<and> 0 \<le> n \<and> q \<in> {0, 2} \<longrightarrow>
       (\<exists>y. Lib (SifUnloadModule n) y \<in> set es))"
proof -
  obtain s1 where s1: "reset_iop env reboot s = Some s1"
    and t: "t = snd (lib env PoweroffShutdown (deinit_poweroff_driver env
      (countdown env 5 (snd (init_poweroff_driver env s1)))))"
    using assms by (auto simp: poweroff_sample_main_def Let_def)
  obtain es1 where e1: "events s1 = events s @ es1" "execs es1 = []"
    using reset_iop_effect [OF s1] by (auto simp: silent_def)
  let ?s2 = "snd (init_poweroff_driver env s1)"
  obtain es2 where e2: "events ?s2 = events s1 @ es2"
      "\<And>a n q. Exec POWEROFF a (n, Some q) \<in> set es2 \<Longrightarrow> slots ?s2 POWEROFF = \<lparr>slot_id = n, slot_ret = q\<rparr>"
    using init_poweroff_events [of env s1] by blast
  let ?s3 = "countdown env 5 ?s2"
  obtain es3 where e3: "events ?s3 = events ?s2 @ es3" "execs es3 = []" "slots ?s3 = slots ?s2"
    using countdown_silent [of ?s2 env 5] by (auto simp: silent_def)
  let ?s4 = "deinit_poweroff_driver env ?s3"
  obtain es4 where e4: "events ?s4 = events ?s3 @ es4" "execs es4 = []"
      "\<not> CHECK_IRX_UNLOAD (slots ?s4 POWEROFF)"
      "CHECK_IRX_UNLOAD (slots ?s3 POWEROFF) \<longrightarrow> (\<exists>y. Lib (SifUnloadModule (slot_id (slots ?s3 POWEROFF))) y \<in> set es4)"
    using deinit_poweroff_events [of env ?s3] by blast
  let ?es = "es1 @ es2 @ es3 @ es4"
  have "events t = events s @ ?es @ [Lib PoweroffShutdown (answer env (events ?s4) PoweroffShutdown)]"
    using e1(1) e2(1) e3(1) e4(1) by (simp add: t lib_def Let_def)
  moreover have "\<not> CHECK_IRX_UNLOAD (slots t POWEROFF)"
    using e4(3) by (simp add: t)
  moreover have "\<exists>y. Lib (SifUnloadModule n) y \<in> set ?es"
    if x: "Exec POWEROFF a (n, Some q) \<in> set ?es" "0 \<le> n" "q \<in> {0, 2}" for a n q
  proof -
    have "Exec POWEROFF a (n, Some q) \<in> set es2"
      using x(1) no_exec [OF e1(2)] no_exec [OF e3(2)] no_exec [OF e4(2)] by auto
    from e2(2) [OF this] e3(3) e4(4) x(2,3) show ?thesis
      by (auto simp: CHECK_IRX_UNLOAD_def)
  qed
  ultimately show ?thesis
    by blast
qed

lemma poweroff_after_unload_witness:
  "\<exists>t es r. poweroff_sample_main (linked_env counting_iop (\<lambda>m. usbd_bytes) obliging no_config) (\<lambda>i. 0) (drv_start 9) =
     Some t \<and> events t = es @ [Lib PoweroffShutdown r]"
proof -
  let ?env = "linked_env counting_iop (\<lambda>m. usbd_bytes) obliging no_config"
  have "libraries_work (answer ?env)"
    using obliging_works by (simp add: linked_env_def)
  then obtain t where t: "poweroff_sample_main ?env (\<lambda>i. 0) (drv_start 9) = Some t"
    using reset_iop_returns [of ?env "\<lambda>i. 0" "drv_start 9"] by (auto simp: poweroff_sample_main_def Let_def)
  from poweroff_after_unload [OF t] t show ?thesis
    by auto
qed

text \<open>
  C39: With the cable unplugged both network samples give up with -1. The one for the stack
  on the main processor leaves no module loaded, the one for the stack on the I/O processor leaves
  all five loaded: the wrapper it releases them with initialises them again.
\<close>

theorem network_samples_release:
  assumes "iop_loads sif" "libraries_work ans" "\<forall>m. slots s m = reset_slot"
    and "\<forall>es. ans es NetManGetLinkStatus \<noteq> LINK_STATE_UP k"
  shows "\<exists>t u. network_ee_sample_main k (linked_env sif linked ans cfg) reboot c s = Some (-1, t) \<and>
    network_iop_sample_main k mk (linked_env sif linked ans cfg) reboot d s = Some (-1, u) \<and>
    {m. CHECK_IRX_UNLOAD (slots t m)} = {} \<and>
    {m. CHECK_IRX_UNLOAD (slots u m)} = {PS2DEV9, NETMAN, SMAP, PS2IP_NM, PS2IPS}"
proof -
  obtain t u where "network_ee_sample_main k (linked_env sif linked ans cfg) reboot c s = Some (-1, t)"
      "network_iop_sample_main k mk (linked_env sif linked ans cfg) reboot d s = Some (-1, u)"
    using network_samples_end [OF assms(1-3)] assms(4) by blast
  with network_samples_fail [OF assms(1-3)] show ?thesis
    by blast
qed

theorem network_samples_release_witness:
  "\<exists>u. network_iop_sample_main \<lparr>LINK_STATE_UP = 1, LINK_MODE_AUTO = 0, DHCP_STATE_BOUND = 10, DHCP_STATE_OFF = 0\<rparr>
       (\<lambda>a b c d. 0) (linked_env counting_iop (\<lambda>m. usbd_bytes) obliging no_config) (\<lambda>i. 0)
       \<lparr>iop_ip = 0, iop_netmask = 0, iop_gateway = 0, iop_link_mode = 0, iop_timeout_seconds = 0, iop_on_progress = False\<rparr>
       (drv_start 9) = Some (-1, u) \<and> CHECK_IRX_UNLOAD (slots u PS2IPS)"
proof -
  let ?k = "\<lparr>LINK_STATE_UP = 1, LINK_MODE_AUTO = 0, DHCP_STATE_BOUND = 10, DHCP_STATE_OFF = 0\<rparr>"
  have slots: "\<forall>m. slots (drv_start (9 :: nat)) m = reset_slot"
    by simp
  have "\<forall>es. obliging es NetManGetLinkStatus \<noteq> LINK_STATE_UP ?k"
    by (simp add: obliging_def)
  from network_samples_release [OF counting_iop_loads obliging_works slots this] show ?thesis
    by blast
qed

subsection \<open>Sockets\<close>

text \<open>
  C9: the burst of datagrams against a network that echoes every one, in order and
  unchanged. When all echoes are in time the summary is 100 good ones. When only one, the \<open>late\<close>-th,
  comes after the wait of two seconds, then all from it on count as failed: each later attempt
  reads the echo of the one before, which is still in the queue.
\<close>

theorem udp_late_echo:
  fixes sif :: "'i sif_exec"
  assumes "iop_loads sif" "libraries_work ans" "network_answers k ans cfg" "\<forall>m. slots d m = reset_slot"
    and "echo_network late stk" "1 \<le> late"
  shows "\<exists>e. udp_echo_server_ee_main stk k (linked_env sif linked ans cfg) reboot c rx d = Some e \<and>
    net_result e = 0 \<and>
    net_summary e = Some (if late \<le> 100 then (int late - 1, 101 - int late, int late) else (100, 0, -1))"
proof -
  obtain d1 where up: "network_up k (linked_env sif linked ans cfg) reboot c d = Some (Inr d1)"
      "\<And>x y z. fst (fst (eeip_get_current_config (linked_env sif linked ans cfg) x y z d1)) = 0"
    by (rule network_up_works [OF assms(1-4)]) (rule that)
  obtain e where "udp_echo_server_ee_main stk k (linked_env sif linked ans cfg) reboot c rx d = Some e" "net_result e = 0"
      "net_summary e = Some (int (min (late - 1) 100), int (100 - min (late - 1) 100), if late \<le> 100 then int late else -1)"
    by (rule udp_run_echoed [OF up assms(5,6)]) (rule that)
  then show ?thesis
    using assms(6) by (auto simp: min_def)
qed

theorem udp_late_echo_witness:
  "\<exists>e. udp_echo_server_ee_main (echo_stack 2) test_numbers (linked_env counting_iop (\<lambda>m. usbd_bytes) obliging leased)
       (\<lambda>i. 0) test_config [] (drv_start 9) = Some e \<and> net_summary e = Some (1, 99, 2)"
  using udp_late_echo [OF counting_iop_loads obliging_works leased_answers _ echo_stack_peers(1), of "drv_start 9" 2
      "\<lambda>m. usbd_bytes" "\<lambda>i. 0" test_config "[]"] by auto

text \<open>
  C13: whatever the stack answers, the five socket programs only use descriptors that are
  open, and \<^verbatim>\<open>select\<close> only gets descriptors below its bound. The bursts, and the two that poll when
  they end, have closed all. The two that poll have just their listener open at the head of each turn of the
  loop, however many they make, and so has the server whenever it is about to accept; when
  the server gives up at most one descriptor is left.
\<close>

theorem socket_descriptors:
  "(udp_echo_server_ee_main stk k env reboot c buf d = Some e \<longrightarrow> usable [] (net_calls e) = Some []) \<and>
   (tcp_burst_client_ee_main stk k env reboot c buf d = Some e \<longrightarrow> usable [] (net_calls e) = Some []) \<and>
   (select_test_ee_main stk k env reboot c d = Some e \<longrightarrow> usable [] (net_calls e) = Some []) \<and>
   (select_test_iop_main stk k mk env reboot c' d = Some e \<longrightarrow> usable [] (net_calls e) = Some []) \<and>
   (select_test_ee_start stk k env reboot c d = Some (Inr (d1, s, p)) \<and> polling stk s p q \<longrightarrow>
      usable [] (poll_calls q) = Some [s]) \<and>
   (select_test_iop_start stk k mk env reboot c' d = Some (Inr (d1, s, p)) \<and> polling stk s p q \<longrightarrow>
      usable [] (poll_calls q) = Some [s]) \<and>
   (tcp_server_ee_start stk k env reboot c buf d = Some (Inl e) \<longrightarrow>
      (\<exists>fds. usable [] (net_calls e) = Some fds \<and> length fds \<le> 1)) \<and>
   (tcp_server_ee_start stk k env reboot c buf d = Some (Inr (d1, s, v)) \<and> serving stk s v w \<longrightarrow>
      usable [] (srv_calls w) = Some [s])"
  using server_start_descriptors [of stk k env reboot c buf d "Inl e"]
  by (auto dest: burst_program_descriptors select_tests_descriptors server_keeps_listener polling_descriptors)

theorem socket_descriptors_witness:
  "(\<exists>e. udp_echo_server_ee_main (echo_stack 2) test_numbers (linked_env counting_iop (\<lambda>m. usbd_bytes) obliging leased)
       (\<lambda>i. 0) test_config [] (drv_start 9) = Some e \<and> usable [] (net_calls e) = Some []) \<and>
   (\<exists>d s p. select_test_ee_start (echo_stack 2) test_numbers (linked_env counting_iop (\<lambda>m. usbd_bytes) obliging leased)
       (\<lambda>i. 0) test_config (drv_start 9) = Some (Inr (d, s, p)) \<and>
       usable [] (poll_calls (poll_one (echo_stack 2) s p)) = Some [s])"
proof -
  let ?env = "linked_env counting_iop (\<lambda>m. usbd_bytes) obliging leased"
  have "\<forall>m. slots (drv_start (9 :: nat)) m = reset_slot"
    by simp
  then obtain d1 where up: "network_up test_numbers ?env (\<lambda>i. 0) test_config (drv_start 9) = Some (Inr d1)"
      "\<And>x y z. fst (fst (eeip_get_current_config ?env x y z d1)) = 0"
    using network_up_works [OF counting_iop_loads obliging_works leased_answers] by metis
  obtain e where e: "udp_echo_server_ee_main (echo_stack 2) test_numbers ?env (\<lambda>i. 0) test_config [] (drv_start 9) = Some e"
    by (rule udp_run_echoed [OF up echo_stack_peers(1), of 2 "[]"]) simp_all
  obtain d p where p: "select_test_ee_start (echo_stack 2) test_numbers ?env (\<lambda>i. 0) test_config (drv_start 9) =
      Some (Inr (d, 3, p))"
    using up(1) by (rule echo_poll_starts)
  have "polling (echo_stack 2) 3 p (poll_one (echo_stack 2) 3 p)"
    by (rule head_turn [OF head_start refl])
  with socket_descriptors [of "echo_stack 2" test_numbers ?env "\<lambda>i. 0" test_config "[]" "drv_start 9" e] e p show ?thesis
    by blast
qed

text \<open>
  C11: once the echo server listens it never returns. After any number of turns of its loop it has
  called \<^verbatim>\<open>send\<close> exactly once for each piece of data it received, in order, on the same connection and with
  exactly that data; what went out by the results of \<^verbatim>\<open>send\<close> is the start of each (nothing when it failed), and
  all of it when \<^verbatim>\<open>send\<close> never fails or comes back short. It has counted the connections it accepted,
  modulo \<open>2 ^ 32\<close>, and exactly as a C \<^verbatim>\<open>int\<close> below \<open>2 ^ 31\<close> of them.
\<close>

theorem server_echoes:
  assumes "tcp_server_ee_start stk k env reboot c buf d = Some (Inr (d1, s, v))" "serving stk s v w" "recv_honest stk"
  shows "tcp_server_ee_main stk k env reboot c buf d = None \<and>
    offered (srv_calls w) = heard (srv_calls w) \<and>
    list_all2 start_of (said (srv_calls w)) (heard (srv_calls w)) \<and>
    (send_complete stk \<longrightarrow> said (srv_calls w) = heard (srv_calls w)) \<and>
    n_acc w = of_nat (accepted (srv_calls w)) \<and>
    (accepted (srv_calls w) < 2 ^ 31 \<longrightarrow> sint (n_acc w) = int (accepted (srv_calls w)))"
  using tcp_server_serving [OF assms] server_and_polls_endless(1) [OF assms(1)] by (simp add: sint_count)

theorem server_echoes_witness:
  "\<exists>v. heard (srv_calls (serve_one (echo_stack 101) 3 v)) = [(4, [104, 105])]"
proof -
  have "\<forall>m. slots (drv_start (9 :: nat)) m = reset_slot"
    by simp
  then obtain d v where start: "tcp_server_ee_start (echo_stack 101) test_numbers
        (linked_env counting_iop (\<lambda>m. usbd_bytes) obliging leased) (\<lambda>i. 0)
        test_config [] (drv_start 9) = Some (Inr (d, 3, v))"
      "said (srv_calls (serve_one (echo_stack 101) 3 v)) = [(4, [104, 105])]"
    by (rule echo_server_starts [OF counting_iop_loads obliging_works leased_answers])
  have "serving (echo_stack 101) 3 v (serve_one (echo_stack 101) 3 v)"
    by (rule head_turn [OF head_start refl])
  from server_echoes [OF start(1) this echo_stack_peers(2)] start(2) echo_stack_peers(3) show ?thesis
    by auto
qed

subsection \<open>Controllers\<close>

text \<open>
  C12: in every state the program for controllers and multitaps reaches, it has opened each
  controller at most once at a time, inside of its arrays, and asked, read and closed only open ones;
  its array of open controllers is exact. After each turn a port has four slots with a multitap and
  one otherwise, and without a multitap at most the first slot is open. The loop does not end.
\<close>

theorem pads_discipline:
  assumes "open_honest l" "pads_running l stack v"
  shows "pad_usable {} (pad_events v) = Some (open_pads v) \<and> open_pads v \<subseteq> {..<2} \<times> {..<4} \<and>
    (\<forall>w. pad_turn l v = Some w \<longrightarrow> (\<forall>port < 2.
       maxslot w port = (if mtapConnected w port = 1 then 4 else 1) \<and>
       (mtapConnected w port = 0 \<longrightarrow> (\<forall>slot \<ge> 1. (port, slot) \<notin> open_pads w)))) \<and>
    pad_loop l v = None"
proof -
  have v: "pads_ok v"
    by (rule pads_running_ok [OF assms])
  have "slots_match port w" if "pad_turn l v = Some w" "port < 2" for w port
    using pad_turn_inv [OF assms(1) v that(1)] that(2) by (auto simp: pads_inv_def less_2_cases_iff)
  then show ?thesis
    using v pad_loop_never by (auto simp: pads_ok_def slots_match_def open_pads_def)
qed

theorem pads_discipline_witness:
  "\<exists>w. pad_turn test_pads (pads_start test_pads (\<lambda>p s. 0)) = Some w \<and>
     pad_usable {} (pad_events w) = Some (open_pads w)"
proof -
  obtain w where w: "pad_turn test_pads (pads_start test_pads (\<lambda>p s. 0)) = Some w"
    by (rule test_pads_turn)
  then have "pads_running test_pads (\<lambda>p s. 0) w"
    by (intro head_turn [OF head_start])
  from pads_discipline [OF test_pads_honest this] w show ?thesis
    by blast
qed

text \<open>
  C18: the lines that are printed for a controller name, in order, the buttons that are down in one
  of its reads and were up in the read before (none were down before the first), and there is a line
  for exactly the reads with such buttons.
\<close>

theorem pad_presses:
  assumes "pads_running l stack v" "p < 2" "s < 4"
  shows "reports p s (pressed v) =
    map (button_names l) (filter (\<lambda>w. w \<noteq> 0) (pushed 0 (pad_reads p s (pad_events v))))"
  using pads_running_told [OF assms] by (simp add: told_def)

theorem pad_presses_witness:
  "\<exists>w. pads_running test_pads (\<lambda>p s. 0) w \<and>
     map (button_names test_pads) (filter (\<lambda>w. w \<noteq> 0) (pushed 0 (pad_reads 1 0 (pad_events w)))) = [[LEFT]]"
proof -
  obtain w where w: "pad_turn test_pads (pads_start test_pads (\<lambda>p s. 0)) = Some w" "reports 1 0 (pressed w) = [[LEFT]]"
    by (rule test_pads_turn)
  then have "pads_running test_pads (\<lambda>p s. 0) w"
    by (intro head_turn [OF head_start])
  with pad_presses [OF this, of 1 0] w(2) show ?thesis
    by auto
qed

text \<open>
  A controller behind a multitap that is unplugged is closed but stays marked as connected. When
  the multitap is back, the controller is opened and read without having reported that it is stable.
\<close>

lemma multitap_stale:
  assumes "pads_ok v" "port < 2" "1 \<le> slot" "slot < 4" "padConnected v port slot = 1"
    and "pad_reply l (pad_events v) (MtapGetConnection port) = 0"
    and "pad_reply l (pad_events (find_port l port v)) (MtapGetConnection port) = 1"
    and "\<And>es. pad_reply l es (PadPortOpen port slot) = 1"
    and "\<And>es. pad_reply l es (PadGetState port slot) \<notin> {PAD_STATE_STABLE l, PAD_STATE_DISCONN l}"
  shows "\<exists>r b. pad_events (read_slot l port slot (find_port l port (find_port l port v))) =
    pad_events (find_port l port (find_port l port v)) @ [Pad (PadRead port slot) r b]"
proof -
  note gone = multitap_leaves_marks [OF assms(1-4,6)]
  have "padOpen (find_port l port (find_port l port v)) port slot = 1 \<and>
      padConnected (find_port l port (find_port l port v)) port slot = 1"
    by (rule find_port_reopens) (use gone assms(4,5,7-9) in simp_all)
  then show ?thesis
    by (simp add: read_slot_def case_prod_beta Let_def)
qed

subsection \<open>Disks and media\<close>



text \<open>
  C35: listing a directory with \<^verbatim>\<open>print_folder\<close> is free of undefined behaviour exactly when, for
  each of its first ten entries, the name, which is used as a format of \<^verbatim>\<open>printf\<close>, has no conversion and the
  size, as an \<^verbatim>\<open>int\<close>, is above -100000000 and below 1000000000, so that its text fits ten bytes. Then
  it shows exactly these entries, in order: what \<^verbatim>\<open>printf\<close> makes of the name (the name itself when it
  has no percent sign), the size as decimal text and whether it is a directory.
\<close>

theorem listing_bounds:
  assumes "folder dk path = Some entries" "\<not> ub w"
  shows "(\<not> ub (snd (print_folder dk path w)) \<longleftrightarrow>
      (\<forall>ep \<in> set (take 10 entries). formatted (d_name ep) \<noteq> None \<and>
        (let n = sint (word_of_int (st_size dk (take 1023 (path @ d_name ep))) :: 32 word)
         in -100000000 < n \<and> n < 1000000000))) \<and>
    (\<not> ub (snd (print_folder dk path w)) \<longrightarrow>
      map (\<lambda>(name, size, dir). Some name) (fst (print_folder dk path w)) =
        map (\<lambda>ep. formatted (d_name ep)) (take 10 entries) \<and>
      map (\<lambda>(name, size, dir). size) (fst (print_folder dk path w)) =
        map (\<lambda>ep. decimal_int (sint (word_of_int (st_size dk (take 1023 (path @ d_name ep))) :: 32 word)))
          (take 10 entries) \<and>
      map (\<lambda>(name, size, dir). dir) (fst (print_folder dk path w)) = map d_is_dir (take 10 entries)) \<and>
    (\<forall>t. CHR ''%'' \<notin> set t \<longrightarrow> formatted t = Some t)"
  using assms by (auto simp: print_folder_result list_all_iff harmless_def entry_line_def size_text_def formatted_plain Let_def)

theorem listing_bounds_witness:
  "let dk = \<lparr>folder = (\<lambda>p. Some [\<lparr>d_name = ''100%%'', d_is_dir = False\<rparr>]), st_size = (\<lambda>p. 12),
       st_isdir = (\<lambda>p. False), appendable = (\<lambda>p. True)\<rparr>
   in \<not> ub (snd (print_folder dk ''mass:/'' (mount_start []))) \<and>
     map (\<lambda>(name, size, dir). Some name) (fst (print_folder dk ''mass:/'' (mount_start []))) = [Some ''100%''] \<and>
     ub (snd (print_folder (dk\<lparr>st_size := (\<lambda>p. 1000000000)\<rparr>) ''mass:/'' (mount_start [])))"
proof -
  let ?dk = "\<lambda>n. \<lparr>folder = (\<lambda>p. Some [\<lparr>d_name = ''100%%'', d_is_dir = False\<rparr>]), st_size = (\<lambda>p. n),
       st_isdir = (\<lambda>p. False), appendable = (\<lambda>p. True)\<rparr> :: disk"
  have "folder (?dk n) ''mass:/'' = Some [\<lparr>d_name = ''100%%'', d_is_dir = False\<rparr>]" "\<not> ub (mount_start [])" for n
    by (simp_all add: mount_start_def)
  note bounds = listing_bounds [OF this]
  have "\<not> ub (snd (print_folder (?dk 12) ''mass:/'' (mount_start [])))"
    using bounds [of 12] by (simp add: Let_def)
  moreover have "map (\<lambda>(name, size, dir). Some name) (fst (print_folder (?dk 12) ''mass:/'' (mount_start []))) = [Some ''100%'']"
    using bounds [of 12] calculation by simp
  moreover have "ub (snd (print_folder (?dk 1000000000) ''mass:/'' (mount_start [])))"
    using bounds [of 1000000000] by (simp add: Let_def)
  ultimately show ?thesis by (simp add: Let_def)
qed

text \<open>
  C19: whatever \<^verbatim>\<open>fread\<close> and \<^verbatim>\<open>fseek\<close> do, wav_sample plays at most 512 pieces, waiting before each for its
  own size; a piece has from 1 to 2048 bytes and, when no \<^verbatim>\<open>fseek\<close> fails, is a contiguous part of the file
  behind its header. When no read comes back short before the end of the file either (after any short read
  the program goes back to the start), the 512 reads play the data behind the header as many whole times
  as they allow, one read more than the number of full buffers for each, and then its first part.
\<close>

theorem wav_sound:
  assumes "fs ''host:song_22k.wav'' = Some wav"
  shows "fst (wav_sample_main max_volume fs io env s) = 0 \<and>
    (\<exists>chunks. fst (snd (wav_sample_main max_volume fs io env s)) =
        [Audsrv_set_format 16 22050 2, Audsrv_set_volume max_volume] @
        concat (map (\<lambda>c. [Audsrv_wait_audio (length c), Audsrv_play_audio c]) chunks) \<and>
      length chunks \<le> 512 \<and>
      (\<forall>c \<in> set chunks. c \<noteq> [] \<and> length c \<le> 2048 \<and>
        ((\<forall>i. astray io i = None) \<longrightarrow> (\<exists>k \<ge> 48. c = take (length c) (drop k wav))))) \<and>
    ((\<forall>i. 2048 \<le> brings io i \<and> astray io i = None) \<longrightarrow>
      (let music = drop 48 wav; reads = length music div 2048 + 1
       in sound (fst (snd (wav_sample_main max_volume fs io env s))) =
          concat (replicate (512 div reads) music) @ take (2048 * (512 mod reads)) music))"
proof (intro conjI impI)
  show "\<exists>chunks. fst (snd (wav_sample_main max_volume fs io env s)) =
        [Audsrv_set_format 16 22050 2, Audsrv_set_volume max_volume] @
        concat (map (\<lambda>c. [Audsrv_wait_audio (length c), Audsrv_play_audio c]) chunks) \<and>
      length chunks \<le> 512 \<and>
      (\<forall>c \<in> set chunks. c \<noteq> [] \<and> length c \<le> 2048 \<and>
        ((\<forall>i. astray io i = None) \<longrightarrow> (\<exists>k \<ge> 48. c = take (length c) (drop k wav))))"
    using assms play_loop_chunks [of io 512 wav 0 "fseek_to io 0 0x30"]
    by (auto simp: wav_sample_main_def played_def [abs_def] bytes_at_def fseek_to_def Let_def)
  show "let music = drop 48 wav; reads = length music div 2048 + 1
      in sound (fst (snd (wav_sample_main max_volume fs io env s))) =
        concat (replicate (512 div reads) music) @ take (2048 * (512 mod reads)) music"
    if "\<forall>i. 2048 \<le> brings io i \<and> astray io i = None"
    using assms that sound_of_turns [of io 512 wav] steady_seek [of io 0]
    by (simp add: wav_sample_main_def steady_def Let_def)
qed (use assms in \<open>simp add: wav_sample_main_def Let_def\<close>)

theorem wav_sound_witness:
  "length (sound (fst (snd (wav_sample_main 16383 (\<lambda>p. Some (replicate 3048 7))
     \<lparr>brings = (\<lambda>i. 4096), astray = (\<lambda>i. None)\<rparr>
     (linked_env counting_iop (\<lambda>m. usbd_bytes) obliging no_config) (drv_start 9))))) = 256 * 3000"
  using wav_sound [of "\<lambda>p. Some (replicate 3048 7)" "replicate 3048 7" 16383
      "\<lparr>brings = (\<lambda>i. 4096), astray = (\<lambda>i. None)\<rparr>"
      "linked_env counting_iop (\<lambda>m. usbd_bytes) obliging no_config" "drv_start 9"]
  by (simp add: Let_def length_concat sum_list_replicate flip: numeral_2_eq_2)

end
